(* ===== verification/PyFloat.thy ===== *)
theory PyFloat
  imports Complex_Main Prelude
begin

text \<open>
  Python's \<open>float\<close>, IEEE binary64, as exact rationals.

  A finite float is the rational it denotes. Every arithmetic operation computes
  the exact result and rounds it to 53 significant bits, ties to even (\<open>fl\<close>), with
  the subnormal spacing \<open>2 ^ -1074\<close> below. \<open>round(x, n)\<close> is CPython's correctly
  rounded one: the decimal nearest to the exact value, ties to even, converted
  back. A conversion of an \<open>int\<close> beyond the largest float raises \<open>OverflowError\<close>,
  as in Python. Signed zeros, infinities and NaN have no value here: JSON columns
  cannot hold the latter two, and the code never tells the two zeros apart.
\<close>

type_synonym pyfloat = rat

named_theorems fl_simps \<open>evaluation and ordering of rounded results\<close>

section \<open>Rounding a rational to an integer\<close>

definition round_half_even :: "rat \<Rightarrow> int" where
  "round_half_even x =
    (let f = \<lfloor>x\<rfloor>; d = x - of_int f in
     if d < 1/2 then f else if 1/2 < d then f + 1 else if even f then f else f + 1)"

lemma round_half_even_of_int [simp, fl_simps]: "round_half_even (of_int n) = n"
  by (simp add: round_half_even_def)

lemma round_half_even_0 [simp]: "round_half_even 0 = 0"
  using round_half_even_of_int [of 0] by simp

lemma round_half_even_error: "\<bar>of_int (round_half_even x) - x\<bar> \<le> 1/2"
proof -
  have f: "of_int \<lfloor>x\<rfloor> \<le> x" "x < of_int \<lfloor>x\<rfloor> + 1"
    using floor_correct [of x] by simp_all
  then show ?thesis
    by (auto simp: round_half_even_def Let_def abs_le_iff field_simps)
qed

lemma round_half_even_floor: "\<lfloor>x\<rfloor> \<le> round_half_even x"
  by (auto simp: round_half_even_def Let_def)

lemma round_half_even_le_floor: "round_half_even x \<le> \<lfloor>x\<rfloor> + 1"
  by (auto simp: round_half_even_def Let_def)

lemma round_half_even_mono: "x \<le> y \<Longrightarrow> round_half_even x \<le> round_half_even y"
proof -
  assume xy: "x \<le> y"
  then have fxy: "\<lfloor>x\<rfloor> \<le> \<lfloor>y\<rfloor>" by (rule floor_mono)
  show ?thesis
  proof (cases "\<lfloor>x\<rfloor> = \<lfloor>y\<rfloor>")
    case True
    then show ?thesis using xy by (auto simp: round_half_even_def Let_def)
  next
    case False
    then have "\<lfloor>x\<rfloor> + 1 \<le> \<lfloor>y\<rfloor>" using fxy by simp
    then show ?thesis
      using round_half_even_le_floor [of x] round_half_even_floor [of y] by linarith
  qed
qed

lemma round_half_even_nonneg: "0 \<le> x \<Longrightarrow> 0 \<le> round_half_even x"
  using round_half_even_mono [of 0 x] by simp

section \<open>Binary exponent\<close>

definition pow2 :: "int \<Rightarrow> rat" where
  "pow2 e = (if 0 \<le> e then 2 ^ nat e else 1 / 2 ^ nat (- e))"

lemma pow2_pos [simp]: "0 < pow2 e"
  by (simp add: pow2_def)

lemma pow2_neq0 [simp]: "pow2 e \<noteq> 0"
  using pow2_pos [of e] by linarith

lemma pow2_0 [simp]: "pow2 0 = 1"
  by (simp add: pow2_def)

lemma pow2_powi: "pow2 e = 2 powi e"
  by (cases "0 \<le> e") (simp_all add: pow2_def power_int_def power_one_over inverse_eq_divide)

lemma pow2_add: "pow2 (a + b) = pow2 a * pow2 b"
  by (simp add: pow2_powi power_int_add)

lemma pow2_mono: "a \<le> b \<Longrightarrow> pow2 a \<le> pow2 b"
  by (simp add: pow2_powi power_int_increasing)

lemma pow2_strict_mono: "a < b \<Longrightarrow> pow2 a < pow2 b"
  by (simp add: pow2_powi power_int_strict_increasing)

lemma pow2_less_cancel: "pow2 a < pow2 b \<Longrightarrow> a < b"
  by (metis leD leI pow2_mono)

lemma pow2_numeral [fl_simps]:
  "pow2 (numeral n) = 2 ^ numeral n" "pow2 1 = 2" "pow2 (- 1) = 1/2"
  "pow2 (- numeral n) = 1 / 2 ^ numeral n"
  by (simp_all add: pow2_def)

lemma pow2_int: "0 \<le> e \<Longrightarrow> pow2 e = of_int (2 ^ nat e)"
  by (simp add: pow2_def)

text \<open>The number of binary digits of a natural number.\<close>

fun blen :: "nat \<Rightarrow> nat" where
  "blen n = (if n = 0 then 0 else Suc (blen (n div 2)))"

declare blen.simps [simp del]

lemma blen_0 [simp]: "blen 0 = 0"
  by (simp add: blen.simps)

lemma blen_bounds: "0 < n \<Longrightarrow> 2 ^ (blen n - 1) \<le> n \<and> n < 2 ^ blen n"
proof (induction n rule: blen.induct)
  case (1 n)
  show ?case
  proof (cases "n div 2 = 0")
    case True
    then have "n = 1" using "1.prems" by auto
    then show ?thesis by (simp add: blen.simps)
  next
    case False
    then have pos: "0 < n div 2" by simp
    with 1 have IH: "2 ^ (blen (n div 2) - 1) \<le> n div 2" "n div 2 < 2 ^ blen (n div 2)" by auto
    have b: "blen n = Suc (blen (n div 2))" using "1.prems" by (simp add: blen.simps)
    have "0 < blen (n div 2)" using False by (subst blen.simps) auto
    then obtain k where k: "blen (n div 2) = Suc k" by (cases "blen (n div 2)") auto
    have "2 ^ blen (n div 2) \<le> n" using IH(1) k by auto
    moreover have "n < 2 ^ blen n" using IH(2) b by auto
    ultimately show ?thesis using b by simp
  qed
qed

lemma blen_simps [simp, fl_simps]:
  "blen 1 = 1" "blen (Suc 0) = 1" "blen (numeral num.One) = 1"
  "blen (numeral (num.Bit0 n)) = Suc (blen (numeral n))"
  "blen (numeral (num.Bit1 n)) = Suc (blen (numeral n))"
proof -
  have h: "numeral (num.Bit0 n) div 2 = (numeral n :: nat)"
    "numeral (num.Bit1 n) div 2 = (numeral n :: nat)" by simp_all
  show "blen 1 = 1" "blen (Suc 0) = 1" "blen (numeral num.One) = 1" by (simp_all add: blen.simps)
  show "blen (numeral (num.Bit0 n)) = Suc (blen (numeral n))"
    by (subst blen.simps) (simp only: h, simp)
  show "blen (numeral (num.Bit1 n)) = Suc (blen (numeral n))"
    by (subst blen.simps) (simp only: h, simp)
qed

text \<open>\<open>flog2 x\<close> is the exponent \<open>e\<close> with \<open>2 ^ e \<le> x < 2 ^ (e + 1)\<close>.\<close>

definition flog2 :: "rat \<Rightarrow> int" where
  "flog2 x = (if 1 \<le> x then int (blen (nat \<lfloor>x\<rfloor>)) - 1 else - int (blen (nat (\<lceil>1 / x\<rceil> - 1))))"

lemma blen_int_bounds:
  assumes "0 < n"
  shows "pow2 (int (blen (nat n)) - 1) \<le> of_int n" and "of_int (n + 1) \<le> pow2 (int (blen (nat n)))"
proof -
  have b: "2 ^ (blen (nat n) - 1) \<le> nat n" "nat n < 2 ^ blen (nat n)"
    using blen_bounds [of "nat n"] assms by auto
  have pos: "0 < blen (nat n)" using assms by (subst blen.simps) auto
  then have e: "int (blen (nat n)) - 1 = int (blen (nat n) - 1)" by simp
  have "(2 :: int) ^ (blen (nat n) - 1) \<le> n"
    using b(1) assms by (metis le_nat_iff less_imp_le of_nat_numeral of_nat_power)
  then show "pow2 (int (blen (nat n)) - 1) \<le> of_int n"
    by (simp add: pow2_def e)
  have "n < 2 ^ blen (nat n)"
    using b(2) assms by (metis nat_less_iff less_imp_le of_nat_numeral of_nat_power)
  then have "n + 1 \<le> 2 ^ blen (nat n)" by simp
  then have "rat_of_int (n + 1) \<le> rat_of_int (2 ^ blen (nat n))" by (simp only: of_int_le_iff)
  then show "of_int (n + 1) \<le> pow2 (int (blen (nat n)))" by (simp add: pow2_def)
qed

lemma flog2_bounds:
  assumes "0 < x"
  shows "pow2 (flog2 x) \<le> x" and "x < pow2 (flog2 x + 1)"
proof -
  have "pow2 (flog2 x) \<le> x \<and> x < pow2 (flog2 x + 1)"
  proof (cases "1 \<le> x")
    case True
    then have n: "0 < \<lfloor>x\<rfloor>" by simp
    have "of_int \<lfloor>x\<rfloor> \<le> x" "x < of_int (\<lfloor>x\<rfloor> + 1)" using floor_correct [of x] by simp_all
    then have "pow2 (int (blen (nat \<lfloor>x\<rfloor>)) - 1) \<le> x" "x < pow2 (int (blen (nat \<lfloor>x\<rfloor>)))"
      using blen_int_bounds [OF n] by linarith+
    then show ?thesis using True by (simp add: flog2_def)
  next
    case False
    let ?m = "\<lceil>1 / x\<rceil> - 1"
    have "1 < 1 / x" using False assms by (simp add: less_divide_eq)
    then have m: "0 < ?m" by (simp add: less_ceiling_iff)
    have c: "of_int ?m < 1 / x" "1 / x \<le> of_int (?m + 1)" using ceiling_correct [of "1 / x"] by simp_all
    let ?b = "int (blen (nat ?m))"
    have "1 / x \<le> pow2 ?b" "pow2 (?b - 1) < 1 / x" using blen_int_bounds [OF m] c by linarith+
    then have "1 \<le> pow2 ?b * x" "pow2 (?b - 1) * x < 1"
      using assms by (simp_all add: divide_le_eq less_divide_eq)
    then have "pow2 (- ?b) * 1 \<le> pow2 (- ?b) * (pow2 ?b * x)"
      and "pow2 (1 - ?b) * (pow2 (?b - 1) * x) < pow2 (1 - ?b) * 1"
      by (simp_all only: mult_le_cancel_left_pos mult_less_cancel_left_pos pow2_pos)
    then have "pow2 (- ?b) \<le> x" "x < pow2 (1 - ?b)"
      by (simp_all flip: pow2_add mult.assoc)
    then show ?thesis using False by (simp add: flog2_def add.commute)
  qed
  then show "pow2 (flog2 x) \<le> x" and "x < pow2 (flog2 x + 1)" by auto
qed

lemma floor_numeral_frac [simp]:
  "\<lfloor>numeral a / numeral b :: rat\<rfloor> = numeral a div numeral b"
  "\<lfloor>1 / numeral b :: rat\<rfloor> = 1 div numeral b"
  "\<lfloor>- numeral a / numeral b :: rat\<rfloor> = - numeral a div numeral b"
  "\<lfloor>- 1 / numeral b :: rat\<rfloor> = - 1 div numeral b"
  "\<lfloor>- (numeral a / numeral b) :: rat\<rfloor> = - numeral a div numeral b"
  "\<lfloor>- (1 / numeral b) :: rat\<rfloor> = - 1 div numeral b"
  using floor_divide_of_int_eq [of "numeral a" "numeral b", where ?'a = rat]
    floor_divide_of_int_eq [of 1 "numeral b", where ?'a = rat]
    floor_divide_of_int_eq [of "- numeral a" "numeral b", where ?'a = rat]
    floor_divide_of_int_eq [of "- 1" "numeral b", where ?'a = rat]
  by simp_all

lemma ceiling_numeral_frac [simp]:
  "\<lceil>numeral a / numeral b :: rat\<rceil> = - (- numeral a div numeral b)"
  "\<lceil>1 / numeral b :: rat\<rceil> = - (- 1 div numeral b)"
  by (simp_all add: ceiling_def)

lemma flog2_unique: "pow2 e \<le> x \<Longrightarrow> x < pow2 (e + 1) \<Longrightarrow> flog2 x = e"
proof -
  assume e: "pow2 e \<le> x" "x < pow2 (e + 1)"
  then have pos: "0 < x" using pow2_pos [of e] by linarith
  from flog2_bounds [OF pos] e have "pow2 e < pow2 (flog2 x + 1)" "pow2 (flog2 x) < pow2 (e + 1)"
    by linarith+
  then have "e < flog2 x + 1" "flog2 x < e + 1" by (blast dest: pow2_less_cancel)+
  then show "flog2 x = e" by simp
qed

lemma flog2_mono: "0 < x \<Longrightarrow> x \<le> y \<Longrightarrow> flog2 x \<le> flog2 y"
proof -
  assume a: "0 < x" "x \<le> y"
  then have "pow2 (flog2 x) < pow2 (flog2 y + 1)"
    using flog2_bounds [of x] flog2_bounds [of y] by linarith
  then show ?thesis using pow2_less_cancel by fastforce
qed

section \<open>Rounding to binary64\<close>

definition fl_exp :: "rat \<Rightarrow> int" where
  "fl_exp x = max (flog2 \<bar>x\<bar> - 52) (- 1074)"

definition fl :: "rat \<Rightarrow> pyfloat" where
  "fl x = (if x = 0 then 0 else of_int (round_half_even (x / pow2 (fl_exp x))) * pow2 (fl_exp x))"

lemma fl_0 [simp, fl_simps]: "fl 0 = 0"
  by (simp add: fl_def)

lemma fl_nonneg [fl_simps]: "0 \<le> x \<Longrightarrow> 0 \<le> fl x"
  by (auto simp: fl_def intro!: mult_nonneg_nonneg round_half_even_nonneg less_imp_le [OF pow2_pos]
      divide_nonneg_pos)

lemma fl_error: "x \<noteq> 0 \<Longrightarrow> \<bar>fl x - x\<bar> \<le> pow2 (fl_exp x) / 2"
proof -
  assume "x \<noteq> 0"
  let ?p = "pow2 (fl_exp x)"
  have "fl x - x = (of_int (round_half_even (x / ?p)) - x / ?p) * ?p"
    using \<open>x \<noteq> 0\<close> by (simp add: fl_def left_diff_distrib)
  also have "\<bar>\<dots>\<bar> \<le> 1/2 * ?p"
    unfolding abs_mult using round_half_even_error [of "x / ?p"]
    by (intro mult_mono) (simp_all add: less_imp_le)
  finally show ?thesis by simp
qed

lemma fl_rel_error:
  assumes "pow2 (- 1022) \<le> \<bar>x\<bar>"
  shows "\<bar>fl x - x\<bar> \<le> \<bar>x\<bar> * pow2 (- 53)"
proof -
  have x0: "x \<noteq> 0" using assms pow2_pos [of "- 1022"] by (metis abs_zero leD)
  then have pos: "0 < \<bar>x\<bar>" by simp
  have "pow2 (- 1022) < pow2 (flog2 \<bar>x\<bar> + 1)" using flog2_bounds(2) [OF pos] assms by linarith
  then have "- 1022 \<le> flog2 \<bar>x\<bar>" using pow2_less_cancel by fastforce
  then have e: "fl_exp x = flog2 \<bar>x\<bar> - 52" by (simp add: fl_exp_def)
  have "pow2 (fl_exp x) / 2 = pow2 (flog2 \<bar>x\<bar>) * pow2 (- 53)"
    using pow2_add [of "flog2 \<bar>x\<bar>" "- 52"] by (simp add: e pow2_numeral)
  also have "\<dots> \<le> \<bar>x\<bar> * pow2 (- 53)"
    using flog2_bounds(1) [OF pos] by (intro mult_right_mono) (simp_all add: less_imp_le)
  finally show ?thesis using fl_error [OF x0] by linarith
qed

text \<open>A float is a 53-bit integer scaled by a power of two.\<close>

definition is_float :: "rat \<Rightarrow> bool" where
  "is_float x = (\<exists>m e. x = of_int m * pow2 e \<and> \<bar>m\<bar> \<le> 2 ^ 53 \<and> - 1074 \<le> e)"

lemma scaled_lt:
  assumes "x \<noteq> 0"
  shows "\<bar>x\<bar> / pow2 (fl_exp x) < 2 ^ 53"
proof -
  have "\<bar>x\<bar> < pow2 (flog2 \<bar>x\<bar> + 1)" using assms by (intro flog2_bounds(2)) simp
  also have "\<dots> \<le> pow2 (53 + fl_exp x)" by (intro pow2_mono) (simp add: fl_exp_def)
  also have "\<dots> = 2 ^ 53 * pow2 (fl_exp x)" by (simp add: pow2_add pow2_numeral)
  finally show ?thesis by (simp add: divide_less_eq)
qed

lemma round_half_even_minus: "round_half_even (- x) = - round_half_even x"
proof (cases "x \<in> \<int>")
  case True
  then obtain n where "x = of_int n" by (auto elim: Ints_cases)
  then show ?thesis using round_half_even_of_int [of "- n"] round_half_even_of_int [of n] by simp
next
  case False
  then have c: "\<lfloor>- x\<rfloor> = - \<lfloor>x\<rfloor> - 1" by (metis ceiling_altdef ceiling_def floor_of_int Ints_of_int minus_minus minus_diff_eq diff_minus_eq_add uminus_add_conv_diff add.commute)
  show ?thesis by (auto simp: round_half_even_def Let_def c)
qed

lemma round_half_even_abs_le:
  assumes "\<bar>x\<bar> \<le> of_int n"
  shows "\<bar>round_half_even x\<bar> \<le> n"
  using round_half_even_mono [of x "of_int n"] round_half_even_mono [of "of_int (- n)" x] assms
    round_half_even_of_int [of n] round_half_even_of_int [of "- n"]
  by (simp add: abs_le_iff minus_le_iff)

lemma is_float_fl: "is_float (fl x)"
proof (cases "x = 0")
  case True
  then show ?thesis by (auto simp: is_float_def intro!: exI [of _ 0])
next
  case False
  have "\<bar>x / pow2 (fl_exp x)\<bar> \<le> of_int (2 ^ 53)"
    using scaled_lt [OF False] by (simp add: abs_divide less_imp_le)
  then have "\<bar>round_half_even (x / pow2 (fl_exp x))\<bar> \<le> 2 ^ 53"
    by (rule round_half_even_abs_le)
  then show ?thesis using False by (force simp: is_float_def fl_def fl_exp_def)
qed

lemma fl_of_float:
  assumes "is_float x"
  shows "fl x = x"
proof (cases "x = 0")
  case False
  obtain m e where x: "x = of_int m * pow2 e" and m: "\<bar>m\<bar> \<le> 2 ^ 53" and e: "- 1074 \<le> e"
    using assms by (auto simp: is_float_def)
  have ax: "\<bar>x\<bar> = of_int \<bar>m\<bar> * pow2 e" by (simp add: x abs_mult less_imp_le)
  have m0: "m \<noteq> 0" using False x by auto
  have "\<exists>k. x = of_int k * pow2 (fl_exp x)"
  proof (cases "fl_exp x \<le> e")
    case True
    then have "pow2 e = of_int (2 ^ nat (e - fl_exp x)) * pow2 (fl_exp x)"
      using pow2_add [of "e - fl_exp x" "fl_exp x"] pow2_int [of "e - fl_exp x"] by simp
    then have "x = of_int (m * 2 ^ nat (e - fl_exp x)) * pow2 (fl_exp x)" by (simp add: x)
    then show ?thesis by blast
  next
    case gt: False
    have le: "\<bar>x\<bar> \<le> pow2 (e + 53)"
      using m by (simp add: ax pow2_add pow2_numeral mult.commute)
    have "\<bar>x\<bar> = pow2 (e + 53)"
    proof (rule ccontr)
      assume "\<bar>x\<bar> \<noteq> pow2 (e + 53)"
      with le have "\<bar>x\<bar> < pow2 (e + 53)" by simp
      moreover have "pow2 (flog2 \<bar>x\<bar>) \<le> \<bar>x\<bar>" using False by (intro flog2_bounds) simp
      ultimately have "pow2 (flog2 \<bar>x\<bar>) < pow2 (e + 53)" by linarith
      then have "flog2 \<bar>x\<bar> < e + 53" by (rule pow2_less_cancel)
      then show False using gt e by (simp add: fl_exp_def)
    qed
    then have log: "flog2 \<bar>x\<bar> = e + 53" by (intro flog2_unique) (auto simp: pow2_strict_mono)
    then have fe: "fl_exp x = e + 1" using e by (simp add: fl_exp_def)
    have "\<bar>x\<bar> = of_int (2 ^ 52) * pow2 (fl_exp x)"
      using \<open>\<bar>x\<bar> = pow2 (e + 53)\<close> pow2_add [of 52 "e + 1"]
      by (simp add: fe pow2_numeral add.commute)
    then show ?thesis
      by (cases "0 \<le> x") (auto intro: exI [of _ "2 ^ 52"] exI [of _ "- (2 ^ 52)"])
  qed
  then obtain k where k: "x = of_int k * pow2 (fl_exp x)" by blast
  have "x / pow2 (fl_exp x) = of_int k" using k by (simp add: divide_eq_eq)
  then show ?thesis using False k by (simp add: fl_def)
qed simp

lemma fl_idem [simp, fl_simps]: "fl (fl x) = fl x"
  by (simp add: fl_of_float is_float_fl)

lemma fl_of_int [fl_simps]: "\<bar>n\<bar> \<le> 2 ^ 53 \<Longrightarrow> fl (of_int n) = of_int n"
  by (rule fl_of_float, unfold is_float_def, rule exI [of _ n], rule exI [of _ 0]) simp

lemma fl_minus: "fl (- x) = - fl x"
  by (simp add: fl_def fl_exp_def round_half_even_minus)

lemma fl_mono_pos:
  assumes "0 < x" and "x \<le> y"
  shows "fl x \<le> fl y"
proof (cases "fl_exp x = fl_exp y")
  case True
  then show ?thesis using assms
    by (auto simp: fl_def intro!: mult_right_mono round_half_even_mono divide_right_mono less_imp_le [OF pow2_pos])
next
  case False
  have le: "fl_exp x \<le> fl_exp y" using flog2_mono [OF assms] assms by (simp add: fl_exp_def)
  with False have lt: "fl_exp x < fl_exp y" by simp
  have x0: "x \<noteq> 0" and y0: "y \<noteq> 0" and ypos: "0 < y" using assms by auto
  have "of_int (round_half_even (x / pow2 (fl_exp x))) \<le> (2 :: rat) ^ 53"
  proof -
    have "x / pow2 (fl_exp x) \<le> of_int (2 ^ 53)" using scaled_lt [OF x0] assms by simp
    then have "round_half_even (x / pow2 (fl_exp x)) \<le> 2 ^ 53"
      using round_half_even_mono round_half_even_of_int by metis
    then show ?thesis by (metis of_int_le_iff of_int_numeral of_int_power)
  qed
  then have "fl x \<le> 2 ^ 53 * pow2 (fl_exp x)"
    using x0 by (auto simp: fl_def intro!: mult_right_mono less_imp_le [OF pow2_pos])
  also have "\<dots> = pow2 (fl_exp x + 53)" by (simp add: pow2_add pow2_numeral)
  also have "\<dots> \<le> pow2 (52 + fl_exp y)" using lt by (intro pow2_mono) simp
  also have "\<dots> = 2 ^ 52 * pow2 (fl_exp y)" by (simp add: pow2_add pow2_numeral)
  also have "\<dots> \<le> fl y"
  proof -
    have "fl_exp y = flog2 y - 52" using lt ypos by (auto simp: fl_exp_def)
    then have "pow2 (52 + fl_exp y) \<le> y" using flog2_bounds(1) [OF ypos] by simp
    then have "of_int (2 ^ 52) \<le> y / pow2 (fl_exp y)"
      by (simp add: le_divide_eq pow2_add pow2_numeral)
    then have "2 ^ 52 \<le> round_half_even (y / pow2 (fl_exp y))"
      using round_half_even_mono round_half_even_of_int by metis
    then have "(2 :: rat) ^ 52 \<le> of_int (round_half_even (y / pow2 (fl_exp y)))"
      by (metis of_int_le_iff of_int_numeral of_int_power)
    then show ?thesis using y0
      by (auto simp: fl_def intro!: mult_right_mono less_imp_le [OF pow2_pos])
  qed
  finally show ?thesis .
qed

lemma fl_mono [fl_simps]:
  assumes "x \<le> y"
  shows "fl x \<le> fl y"
proof -
  consider "0 < x" | "x \<le> 0" "0 \<le> y" | "y < 0" by linarith
  then show ?thesis
  proof cases
    case 1
    then show ?thesis using assms by (rule fl_mono_pos)
  next
    case 2
    have "fl x \<le> 0" using fl_nonneg [of "- x"] 2 by (simp add: fl_minus)
    also have "0 \<le> fl y" using 2 by (simp add: fl_nonneg)
    finally show ?thesis .
  next
    case 3
    then have "fl (- y) \<le> fl (- x)" using assms by (intro fl_mono_pos) auto
    then show ?thesis by (simp add: fl_minus)
  qed
qed

section \<open>The operations of the source\<close>

text \<open>\<open>float(n)\<close> of an \<open>int\<close>: beyond the largest finite float it raises.\<close>

definition float_of_int :: "int \<Rightarrow> pyfloat res" where
  "float_of_int n = (if 2 ^ 1024 - 2 ^ 970 \<le> \<bar>n\<bar> then Inl OverflowError else Inr (fl (of_int n)))"

definition fadd :: "pyfloat \<Rightarrow> pyfloat \<Rightarrow> pyfloat" where
  "fadd x y = fl (x + y)"

definition fsub :: "pyfloat \<Rightarrow> pyfloat \<Rightarrow> pyfloat" where
  "fsub x y = fl (x - y)"

definition fmul :: "pyfloat \<Rightarrow> pyfloat \<Rightarrow> pyfloat" where
  "fmul x y = fl (x * y)"

definition fdiv :: "pyfloat \<Rightarrow> pyfloat \<Rightarrow> pyfloat res" where
  "fdiv x y = (if y = 0 then Inl ZeroDivisionError else Inr (fl (x / y)))"

text \<open>\<open>round(x, n)\<close>.\<close>

definition py_round :: "pyfloat \<Rightarrow> nat \<Rightarrow> pyfloat" where
  "py_round x n = fl (of_int (round_half_even (x * 10 ^ n)) / 10 ^ n)"

text \<open>The literal of a decimal fraction, as \<open>lit 112 3\<close> for \<open>0.112\<close>.\<close>

definition lit :: "int \<Rightarrow> nat \<Rightarrow> pyfloat" where
  "lit m n = fl (of_int m / 10 ^ n)"

lemma float_of_int_small: "\<bar>n\<bar> \<le> 2 ^ 53 \<Longrightarrow> float_of_int n = Inr (of_int n)"
proof -
  assume n: "\<bar>n\<bar> \<le> 2 ^ 53"
  also have "(2 :: int) ^ 53 < 2 ^ 1024 - 2 ^ 970" by simp
  finally show ?thesis using fl_of_int [OF n] by (simp add: float_of_int_def)
qed

lemma float_of_int_numeral [simp]:
  "numeral n \<le> (2 :: int) ^ 53 \<Longrightarrow> float_of_int (numeral n) = Inr (numeral n)"
  "float_of_int 0 = Inr 0" "float_of_int 1 = Inr 1"
  using float_of_int_small [of "numeral n"] float_of_int_small [of 0] float_of_int_small [of 1] by simp_all

lemma py_round_nonneg [fl_simps]: "0 \<le> x \<Longrightarrow> 0 \<le> py_round x n"
  by (auto simp: py_round_def intro!: fl_nonneg divide_nonneg_nonneg round_half_even_nonneg)

lemma py_round_mono: "x \<le> y \<Longrightarrow> py_round x n \<le> py_round y n"
  unfolding py_round_def
  by (intro fl_mono divide_right_mono) (auto intro!: round_half_even_mono mult_right_mono)

lemma fmul_nonneg [fl_simps]: "0 \<le> x \<Longrightarrow> 0 \<le> y \<Longrightarrow> 0 \<le> fmul x y"
  by (simp add: fmul_def fl_nonneg)

lemma fadd_nonneg [fl_simps]: "0 \<le> x \<Longrightarrow> 0 \<le> y \<Longrightarrow> 0 \<le> fadd x y"
  by (simp add: fadd_def fl_nonneg)

lemma fmul_mono: "x \<le> x' \<Longrightarrow> y \<le> y' \<Longrightarrow> 0 \<le> y \<Longrightarrow> 0 \<le> x' \<Longrightarrow> fmul x y \<le> fmul x' y'"
  unfolding fmul_def by (intro fl_mono mult_mono)

lemma lit_nonneg [fl_simps]: "0 \<le> m \<Longrightarrow> 0 \<le> lit m n"
  by (simp add: lit_def fl_nonneg)

lemma fsub_nonneg [fl_simps]: "y \<le> x \<Longrightarrow> 0 \<le> fsub x y"
  by (simp add: fsub_def fl_nonneg)

text \<open>Rounding to \<open>n\<close> decimals moves a value by at most half a unit of the last one,
  and the conversion back by at most one part in \<open>2 ^ 53\<close>.\<close>

lemma decimal_round_error: "\<bar>of_int (round_half_even (x * 10 ^ n)) / 10 ^ n - x\<bar> \<le> 1 / (2 * 10 ^ n)"
proof -
  have "of_int (round_half_even (x * 10 ^ n)) / 10 ^ n - x
    = (of_int (round_half_even (x * 10 ^ n)) - x * 10 ^ n) / 10 ^ n"
    by (simp add: diff_divide_distrib)
  then have "\<bar>of_int (round_half_even (x * 10 ^ n)) / 10 ^ n - x\<bar>
    = \<bar>of_int (round_half_even (x * 10 ^ n)) - x * 10 ^ n\<bar> / 10 ^ n"
    by (simp add: abs_divide)
  also have "\<dots> \<le> (1/2) / 10 ^ n"
    by (intro divide_right_mono round_half_even_error) simp
  finally show ?thesis by simp
qed

text \<open>\<open>f"{x:.2f}"\<close>.\<close>

definition fmt2 :: "pyfloat \<Rightarrow> string" where
  "fmt2 x = (let c = round_half_even (x * 100); a = nat \<bar>c\<bar> in
     (if x < 0 then ''-'' else '''') @ str_of_nat (a div 100) @ ''.'' @ pad0 2 (str_of_nat (a mod 100)))"


text \<open>The rules by which \<open>simp\<close> evaluates float expressions on numerals.\<close>

lemmas fl_eval = fl_def fl_exp_def flog2_def pow2_numeral round_half_even_def Let_def
  lit_def fmul_def fadd_def fsub_def fdiv_def py_round_def

lemma fl_bound:
  assumes "\<bar>x\<bar> \<le> pow2 k" and "- 1022 \<le> k"
  shows "\<bar>fl x - x\<bar> \<le> pow2 (k - 53)"
proof (cases "x = 0")
  case False
  then have "pow2 (flog2 \<bar>x\<bar>) \<le> \<bar>x\<bar>" by (intro flog2_bounds) simp
  then have "pow2 (flog2 \<bar>x\<bar>) < pow2 (k + 1)"
    using assms(1) pow2_strict_mono [of k "k + 1"] by linarith
  then have "flog2 \<bar>x\<bar> \<le> k" using pow2_less_cancel by fastforce
  then have "fl_exp x \<le> k - 52" using assms(2) by (simp add: fl_exp_def)
  then have "pow2 (fl_exp x) / 2 \<le> pow2 (k - 52) / 2" by (intro divide_right_mono pow2_mono) simp_all
  also have "\<dots> = pow2 (k - 53)" using pow2_add [of "k - 53" 1] by (simp add: pow2_numeral)
  finally show ?thesis using fl_error [OF False] by linarith
qed (simp add: less_imp_le)

text \<open>A rounded amount in cents: within half a cent and two float roundings of the exact
  value.\<close>

lemma py_round_error:
  assumes "\<bar>x\<bar> \<le> pow2 k" and "0 \<le> k"
  shows "\<bar>py_round x n - x\<bar> \<le> 1 / (2 * 10 ^ n) + pow2 (k - 52)"
proof -
  let ?q = "of_int (round_half_even (x * 10 ^ n)) / 10 ^ n :: rat"
  have d: "\<bar>?q - x\<bar> \<le> 1 / (2 * 10 ^ n)" by (rule decimal_round_error)
  have "(1 :: rat) \<le> 10 ^ n" by simp
  then have "(1 :: rat) \<le> 2 * 10 ^ n" by linarith
  then have "(1 :: rat) / (2 * 10 ^ n) \<le> 1" by (simp add: divide_le_eq)
  moreover have "1 \<le> pow2 k" using pow2_mono [of 0 k] assms(2) by simp
  moreover have "pow2 (k + 1) = 2 * pow2 k" by (simp add: pow2_add pow2_numeral)
  ultimately have "\<bar>?q\<bar> \<le> pow2 (k + 1)" using d assms(1) by linarith
  then have "\<bar>fl ?q - ?q\<bar> \<le> pow2 (k + 1 - 53)" using assms(2) by (intro fl_bound) simp_all
  then show ?thesis using d by (simp add: py_round_def)
qed

lemma money_product_error:
  assumes "0 \<le> r" and "r \<le> 1" and "0 \<le> n" and "n \<le> 2 ^ 31"
  shows "\<bar>py_round (fmul r (of_int n)) 2 - r * of_int n\<bar> \<le> 1 / 200 + 1 / 500000"
proof -
  have n: "(of_int n :: rat) \<le> 2147483648" using assms(4) by simp
  have "r * of_int n \<le> 1 * of_int n" using assms by (intro mult_right_mono) auto
  then have x: "r * of_int n \<le> 2147483648" using n by linarith
  have x0: "0 \<le> r * of_int n" using assms by simp
  have e1: "\<bar>fmul r (of_int n) - r * of_int n\<bar> \<le> 1 / 4194304"
    using fl_bound [of "r * of_int n" 31] x x0 by (simp add: fmul_def pow2_numeral)
  have "fmul r (of_int n) - r * of_int n \<le> 1 / 4194304" using abs_ge_self e1 by (rule order_trans)
  then have "fmul r (of_int n) \<le> 4294967296" "0 \<le> fmul r (of_int n)"
    using x fl_nonneg [OF x0] by (simp_all add: fmul_def)
  then have "\<bar>py_round (fmul r (of_int n)) 2 - fmul r (of_int n)\<bar> \<le> 1 / 200 + pow2 (32 - 52)"
    using py_round_error [of "fmul r (of_int n)" 32 2] by (simp add: pow2_numeral)
  moreover have "pow2 (32 - 52) = 1 / 1048576" by (simp add: pow2_numeral)
  ultimately show ?thesis using e1 by linarith
qed

end
