(* ===== verification/Calendar.thy ===== *)
theory Calendar
  imports Prelude
begin

text \<open>
  The calendar of Python's \<open>datetime\<close>: dates of the proleptic Gregorian calendar
  with their ordinal (the day count that \<open>date\<close> subtraction uses), their order and
  ISO text; date-times with an optional UTC offset; and the ISO parser
  \<open>datetime.fromisoformat\<close>. The main result is that the lexicographic order of
  valid dates is the order of their ordinals, so that \<open>(a - b).days\<close> has the sign
  of the comparison.
\<close>

section \<open>Dates\<close>

datatype date = Date (year: int) (month: int) (day: int)

instantiation date :: linorder
begin

definition less_eq_date :: "date \<Rightarrow> date \<Rightarrow> bool" where
  "less_eq_date a b = (year a < year b \<or> (year a = year b \<and> (month a < month b \<or>
    (month a = month b \<and> day a \<le> day b))))"

definition less_date :: "date \<Rightarrow> date \<Rightarrow> bool" where
  "less_date a b = (a \<le> b \<and> \<not> b \<le> (a :: date))"

instance
proof
  fix a b c :: date
  show "a < b \<longleftrightarrow> a \<le> b \<and> \<not> b \<le> a" by (simp add: less_date_def)
  show "a \<le> a" by (simp add: less_eq_date_def)
  show "a \<le> b \<Longrightarrow> b \<le> c \<Longrightarrow> a \<le> c" by (auto simp: less_eq_date_def)
  show "a \<le> b \<Longrightarrow> b \<le> a \<Longrightarrow> a = b" by (cases a; cases b) (auto simp: less_eq_date_def)
  show "a \<le> b \<or> b \<le> a" by (auto simp: less_eq_date_def)
qed

end

definition is_leap :: "int \<Rightarrow> bool" where
  "is_leap y = (y mod 4 = 0 \<and> (y mod 100 \<noteq> 0 \<or> y mod 400 = 0))"

definition days_before_year :: "int \<Rightarrow> int" where
  "days_before_year y = (y - 1) * 365 + (y - 1) div 4 - (y - 1) div 100 + (y - 1) div 400"

fun days_in_month :: "int \<Rightarrow> int \<Rightarrow> int" where
  "days_in_month y m = (if m = 2 then (if is_leap y then 29 else 28)
    else if m \<in> {4, 6, 9, 11} then 30 else 31)"

text \<open>Days of the year before the first of the month, as the library's table
  \<open>_DAYS_BEFORE_MONTH\<close> with the leap day added after February.\<close>

definition days_before_month :: "int \<Rightarrow> int \<Rightarrow> int" where
  "days_before_month y m =
    [0, 31, 59, 90, 120, 151, 181, 212, 243, 273, 304, 334] ! nat (m - 1) +
    (if 2 < m \<and> is_leap y then 1 else 0)"

definition valid_date :: "date \<Rightarrow> bool" where
  "valid_date d = (1 \<le> year d \<and> year d \<le> 9999 \<and> 1 \<le> month d \<and> month d \<le> 12 \<and>
    1 \<le> day d \<and> day d \<le> days_in_month (year d) (month d))"

definition toordinal :: "date \<Rightarrow> int" where
  "toordinal d = days_before_year (year d) + days_before_month (year d) (month d) + day d"

text \<open>\<open>(a - b).days\<close> for two dates.\<close>

definition days_between :: "date \<Rightarrow> date \<Rightarrow> int" where
  "days_between a b = toordinal a - toordinal b"

lemma year_length: "days_before_year (y + 1) = days_before_year y + (if is_leap y then 366 else 365)"
proof -
  have step: "(x :: int) div n = (x - 1) div n + (if x mod n = 0 then 1 else 0)" if "0 < n" for x n
  proof (cases "x mod n = 0")
    case True
    have "n * (x div n) = x" using mult_div_mod_eq [of n x] by (simp only: True add_0_right)
    then have "x - 1 = n * (x div n - 1) + (n - 1)" by (simp add: right_diff_distrib)
    then have "(x - 1) div n = x div n - 1"
      by (rule int_div_pos_eq) (use that in auto)
    then show ?thesis using True by simp
  next
    case False
    then have "0 < x mod n" using that by (metis less_le pos_mod_sign)
    moreover have "x - 1 = n * (x div n) + (x mod n - 1)" by simp
    moreover have "x mod n < n" using that by simp
    ultimately have "(x - 1) div n = x div n"
      by (intro int_div_pos_eq [where r = "x mod n - 1"]) simp_all
    then show ?thesis using False by simp
  qed
  define a b c where "a = (y - 1) div 4" and "b = (y - 1) div 100" and "c = (y - 1) div 400"
  define p q r where "p = (y mod 4 = 0)" and "q = (y mod 100 = 0)" and "r = (y mod 400 = 0)"
  have d: "y div 4 = a + (if p then 1 else 0)" "y div 100 = b + (if q then 1 else 0)"
    "y div 400 = c + (if r then 1 else 0)"
    unfolding a_def b_def c_def p_def q_def r_def by (rule step; simp)+
  have i: "q \<Longrightarrow> p" "r \<Longrightarrow> q" unfolding p_def q_def r_def
    by (auto simp flip: dvd_eq_mod_eq_0 intro: dvd_trans [of 4 100] dvd_trans [of 100 400])
  have "days_before_year (y + 1) = y * 365 + (a + (if p then 1 else 0)) - (b + (if q then 1 else 0)) +
      (c + (if r then 1 else 0))"
    unfolding days_before_year_def add_diff_cancel_right' d ..
  moreover have "days_before_year y = (y - 1) * 365 + a - b + c"
    unfolding days_before_year_def a_def b_def c_def ..
  moreover have "is_leap y \<longleftrightarrow> p \<and> (\<not> q \<or> r)"
    unfolding is_leap_def p_def q_def r_def by blast
  ultimately show ?thesis using i by (cases p; cases q; cases r) simp_all
qed

lemma year_length_bounds:
  "365 + days_before_year y \<le> days_before_year (y + 1)"
  by (simp add: year_length)

lemma days_before_year_mono: "y \<le> z \<Longrightarrow> days_before_year y \<le> days_before_year z"
proof (induction z rule: int_ge_induct)
  case (step z)
  then show ?case using year_length_bounds [of z] by linarith
qed simp

text \<open>A day of a month lies before the first of the next one, and within its year.\<close>

lemma month_cases:
  assumes "1 \<le> m" and "m \<le> 12"
  obtains "m = 1" | "m = 2" | "m = 3" | "m = 4" | "m = 5" | "m = 6" | "m = 7" | "m = 8"
    | "m = 9" | "m = 10" | "m = 11" | "m = (12 :: int)"
proof -
  have "m = 1 \<or> m = 2 \<or> m = 3 \<or> m = 4 \<or> m = 5 \<or> m = 6 \<or> m = 7 \<or> m = 8 \<or> m = 9 \<or> m = 10 \<or> m = 11 \<or> m = 12"
    using assms by presburger
  then show ?thesis using that by blast
qed

lemma month_step:
  assumes "1 \<le> m" and "m < 12"
  shows "days_before_month y m + days_in_month y m = days_before_month y (m + 1)"
proof -
  from assms have "1 \<le> m" "m \<le> 12" by simp_all
  then show ?thesis
    by (cases rule: month_cases) (use assms in \<open>auto simp: days_before_month_def\<close>)
qed

lemma days_in_month_pos: "28 \<le> days_in_month y m"
  by simp

lemma days_before_month_mono:
  assumes "1 \<le> m" and "m < n" and "n \<le> 12"
  shows "days_before_month y m + days_in_month y m \<le> days_before_month y n"
  using \<open>m < n\<close> \<open>n \<le> 12\<close>
proof (induction n rule: int_gr_induct)
  case base
  then show ?case using month_step [of m y] assms by simp
next
  case (step n)
  then show ?case using month_step [of n y] assms days_in_month_pos [of y n] by simp
qed

lemma year_day_bounds:
  assumes "1 \<le> m" and "m \<le> 12" and "1 \<le> d" and "d \<le> days_in_month y m"
  shows "0 < days_before_month y m + d" and "days_before_month y m + d \<le> (if is_leap y then 366 else 365)"
proof -
  have "0 \<le> days_before_month y m"
    using assms(1,2) by (cases rule: month_cases) (auto simp: days_before_month_def)
  then show "0 < days_before_month y m + d" using assms by simp
  have "days_before_month y m + days_in_month y m \<le> days_before_month y 12 + 31"
    using days_before_month_mono [of m 12 y] assms by (cases "m = 12") auto
  then show "days_before_month y m + d \<le> (if is_leap y then 366 else 365)"
    using assms by (auto simp: days_before_month_def)
qed

lemma toordinal_strict_mono:
  assumes "valid_date a" and "valid_date b" and "a < b"
  shows "toordinal a < toordinal b"
proof -
  from assms have va: "1 \<le> month a" "month a \<le> 12" "1 \<le> day a" "day a \<le> days_in_month (year a) (month a)"
    and vb: "1 \<le> month b" "month b \<le> 12" "1 \<le> day b" "day b \<le> days_in_month (year b) (month b)"
    by (auto simp: valid_date_def)
  have ab: "year a < year b \<or> (year a = year b \<and> (month a < month b \<or> (month a = month b \<and> day a < day b)))"
    using assms(3) by (auto simp: less_date_def less_eq_date_def)
  then consider (year) "year a < year b" | (month) "year a = year b" "month a < month b"
    | (day) "year a = year b" "month a = month b" "day a < day b" by blast
  then show ?thesis
  proof cases
    case year
    have "days_before_year (year a + 1) \<le> days_before_year (year b)"
      using year by (intro days_before_year_mono) simp
    then show ?thesis
      using year_day_bounds [OF va] year_day_bounds [OF vb] by (simp add: toordinal_def year_length)
  next
    case month
    then have "days_before_month (year a) (month a) + days_in_month (year a) (month a)
        \<le> days_before_month (year a) (month b)"
      using va vb by (intro days_before_month_mono) auto
    then show ?thesis using month va vb by (simp add: toordinal_def)
  next
    case day
    then show ?thesis by (simp add: toordinal_def)
  qed
qed

theorem toordinal_less_iff:
  assumes "valid_date a" and "valid_date b"
  shows "toordinal a < toordinal b \<longleftrightarrow> a < b"
  using toordinal_strict_mono [of a b] toordinal_strict_mono [of b a] assms
  by (metis less_asym neqE order.strict_iff_not)

lemma toordinal_le_iff:
  assumes "valid_date a" and "valid_date b"
  shows "toordinal a \<le> toordinal b \<longleftrightarrow> a \<le> b"
  using toordinal_less_iff [OF assms(2,1)] by (simp flip: linorder_not_less)

lemma days_between_sign:
  assumes "valid_date a" and "valid_date b"
  shows "0 < days_between a b \<longleftrightarrow> b < a" and "days_between a b < 0 \<longleftrightarrow> a < b"
    and "days_between a b \<le> 0 \<longleftrightarrow> a \<le> b"
  using toordinal_less_iff [OF assms] toordinal_less_iff [OF assms(2,1)] toordinal_le_iff [OF assms]
  by (auto simp: days_between_def)

section \<open>ISO text\<close>

definition nat_str2 :: "int \<Rightarrow> string" where
  "nat_str2 i = pad0 2 (str_of_nat (nat i))"

text \<open>\<open>date.isoformat()\<close>: \<open>YYYY-MM-DD\<close>.\<close>

definition isoformat :: "date \<Rightarrow> string" where
  "isoformat d = pad0 4 (str_of_nat (nat (year d))) @ ''-'' @ nat_str2 (month d) @ ''-'' @ nat_str2 (day d)"

section \<open>Date-times\<close>

text \<open>A \<open>datetime\<close> is a date, the microseconds since its midnight, and the UTC offset
  in microseconds when it is aware. Instants (the clock readings of the program, always
  UTC) are plain \<open>int\<close> microseconds elsewhere in the development.\<close>

datatype datetime = DateTime (dt_date: date) (dt_micros: int) (dt_offset: "int option")

definition hms :: "int \<Rightarrow> string" where
  "hms us = (let s = us div 1000000 in
     nat_str2 (s div 3600) @ '':'' @ nat_str2 ((s div 60) mod 60) @ '':'' @ nat_str2 (s mod 60) @
     (if us mod 1000000 = 0 then '''' else ''.'' @ pad0 6 (str_of_nat (nat (us mod 1000000)))))"

text \<open>The offset suffix: \<open>+HH:MM\<close>, with seconds and microseconds only when present.\<close>

definition offset_str :: "int \<Rightarrow> string" where
  "offset_str off = (let a = \<bar>off\<bar>; s = a div 1000000 in
     (if off < 0 then ''-'' else ''+'') @ nat_str2 (s div 3600) @ '':'' @ nat_str2 ((s div 60) mod 60) @
     (if a mod 60000000 = 0 then ''''
      else '':'' @ nat_str2 (s mod 60) @
        (if a mod 1000000 = 0 then '''' else ''.'' @ pad0 6 (str_of_nat (nat (a mod 1000000))))))"

definition dt_isoformat :: "datetime \<Rightarrow> string" where
  "dt_isoformat t = isoformat (dt_date t) @ ''T'' @ hms (dt_micros t) @
     (case dt_offset t of None \<Rightarrow> '''' | Some off \<Rightarrow> offset_str off)"

text \<open>The parser of \<open>datetime.fromisoformat\<close>. Its helpers follow the C implementation:
  \<open>parse_digits\<close> reads exactly \<open>n\<close> digits, \<open>parse_hms\<close> reads
  \<open>HH[:MM[:SS[.f+]]]\<close> (or the same without colons) up to the end of its slice, with the
  digits of the fraction beyond the sixth ignored. The date part is the
  extended form \<open>YYYY-MM-DD\<close>, which is what \<open>isoformat\<close> writes and what the program
  stores; the basic form and the ISO week forms, which Python accepts as well, are
  rejected here.\<close>

definition parse_digits :: "nat \<Rightarrow> string \<Rightarrow> (nat \<times> string) option" where
  "parse_digits n s = (let d = take n s in
     if length d = n \<and> list_all is_digit d then Some (nat_of_digits d, drop n s) else None)"

definition parse_fraction :: "string \<Rightarrow> int option" where
  "parse_fraction s = (let d = take 6 s in
     if d \<noteq> [] \<and> list_all is_digit s
     then Some (int (nat_of_digits d) * 10 ^ (6 - length d)) else None)"

fun parse_hms :: "string \<Rightarrow> (int \<times> int \<times> int \<times> int) option" where
  "parse_hms s = (case parse_digits 2 s of None \<Rightarrow> None | Some (h, r1) \<Rightarrow>
     (case r1 of [] \<Rightarrow> Some (int h, 0, 0, 0) | c1 # t1 \<Rightarrow>
       if c1 = CHR ''.'' \<or> c1 = CHR '','' then map_option (\<lambda>f. (int h, 0, 0, f)) (parse_fraction t1) else
       let sep = (c1 = CHR '':''); r1' = (if sep then t1 else r1) in
       (case parse_digits 2 r1' of None \<Rightarrow> None | Some (m, r2) \<Rightarrow>
         (case r2 of [] \<Rightarrow> Some (int h, int m, 0, 0) | c2 # t2 \<Rightarrow>
           if c2 = CHR ''.'' \<or> c2 = CHR '','' then map_option (\<lambda>f. (int h, int m, 0, f)) (parse_fraction t2)
           else if sep \<and> c2 \<noteq> CHR '':'' then None else
           let r2' = (if sep then t2 else r2) in
           (case parse_digits 2 r2' of None \<Rightarrow> None | Some (sec, r3) \<Rightarrow>
             (case r3 of [] \<Rightarrow> Some (int h, int m, int sec, 0) | c3 # t3 \<Rightarrow>
               if c3 = CHR ''.'' \<or> c3 = CHR '',''
               then map_option (\<lambda>f. (int h, int m, int sec, f)) (parse_fraction t3) else None))))))"

declare parse_hms.simps [simp del]

definition is_tz_mark :: "char \<Rightarrow> bool" where
  "is_tz_mark c = (c = CHR ''+'' \<or> c = CHR ''-'' \<or> c = CHR ''Z'')"

definition micros_of :: "int \<times> int \<times> int \<times> int \<Rightarrow> int" where
  "micros_of = (\<lambda>(h, m, s, f). ((h * 60 + m) * 60 + s) * 1000000 + f)"

definition parse_time :: "string \<Rightarrow> (int \<times> int option) option" where
  "parse_time s = (let main = takeWhile (\<lambda>c. \<not> is_tz_mark c) s; rest = dropWhile (\<lambda>c. \<not> is_tz_mark c) s in
     case parse_hms main of None \<Rightarrow> None
     | Some (h, m, sec, f) \<Rightarrow>
       if 23 < h \<or> 59 < m \<or> 59 < sec then None else
       (case rest of [] \<Rightarrow> Some (micros_of (h, m, sec, f), None)
        | z # zs \<Rightarrow>
          if z = CHR ''Z'' then (if zs = [] then Some (micros_of (h, m, sec, f), Some 0) else None)
          else (case parse_hms zs of None \<Rightarrow> None
            | Some q \<Rightarrow> let off = (if z = CHR ''-'' then - micros_of q else micros_of q) in
                if \<bar>off\<bar> < 86400000000 then Some (micros_of (h, m, sec, f), Some off) else None)))"

definition parse_iso_date :: "string \<Rightarrow> date option" where
  "parse_iso_date s =
    (case parse_digits 4 s of None \<Rightarrow> None | Some (y, r1) \<Rightarrow>
     (case r1 of [] \<Rightarrow> None | c1 # r1' \<Rightarrow> if c1 \<noteq> CHR ''-'' then None else
     (case parse_digits 2 r1' of None \<Rightarrow> None | Some (m, r2) \<Rightarrow>
     (case r2 of [] \<Rightarrow> None | c2 # r2' \<Rightarrow> if c2 \<noteq> CHR ''-'' then None else
     (case parse_digits 2 r2' of None \<Rightarrow> None | Some (d, r3) \<Rightarrow>
       if r3 = [] \<and> valid_date (Date (int y) (int m) (int d))
       then Some (Date (int y) (int m) (int d)) else None)))))"

text \<open>\<open>date.fromisoformat\<close> and \<open>datetime.fromisoformat\<close>. Any one character separates the
  date from the time, and a separator with nothing behind it is accepted.\<close>

definition date_fromisoformat :: "string \<Rightarrow> date res" where
  "date_fromisoformat s = (case parse_iso_date s of None \<Rightarrow> Inl ValueError | Some d \<Rightarrow> Inr d)"

definition fromisoformat :: "string \<Rightarrow> datetime res" where
  "fromisoformat s = (case parse_iso_date (take 10 s) of None \<Rightarrow> Inl ValueError
     | Some d \<Rightarrow> if length s \<le> 11 then Inr (DateTime d 0 None)
       else (case parse_time (drop 11 s) of None \<Rightarrow> Inl ValueError
         | Some (us, off) \<Rightarrow> Inr (DateTime d us off)))"

lemma parse_digits_padded:
  assumes "0 \<le> i" and "i < 10 ^ w" and "0 < w"
  shows "parse_digits w (pad0 w (str_of_nat (nat i)) @ r) = Some (nat i, r)"
proof -
  obtain k where k: "w = Suc k" using assms(3) by (cases w) auto
  have "nat i < 10 ^ w" using assms by (simp add: nat_less_iff)
  then have "length (pad0 w (str_of_nat (nat i))) = w"
    using length_str_of_nat [of "nat i" k] by (simp add: k length_pad0)
  then show ?thesis by (simp add: parse_digits_def Let_def str_of_nat_digits)
qed

lemma length_isoformat: "valid_date d \<Longrightarrow> length (isoformat d) = 10"
proof -
  assume v: "valid_date d"
  then have b: "nat (year d) < 10 ^ Suc 3" "nat (month d) < 10 ^ Suc 1" "nat (day d) < 10 ^ Suc 1"
    by (auto simp: valid_date_def split: if_splits)
  show ?thesis
    using b [THEN length_str_of_nat] by (simp add: isoformat_def nat_str2_def length_pad0)
qed

theorem parse_isoformat:
  assumes "valid_date d"
  shows "parse_iso_date (isoformat d) = Some d"
proof -
  have y: "0 \<le> year d" "year d < 10 ^ 4" and m: "0 \<le> month d" "month d < 10 ^ 2"
    and d: "0 \<le> day d" "day d < 10 ^ 2"
    using assms by (auto simp: valid_date_def split: if_splits)
  note p = parse_digits_padded [OF y] parse_digits_padded [OF m] parse_digits_padded [OF d]
  show ?thesis
    using p(3) [of "[]"] y m d assms
    by (simp add: parse_iso_date_def isoformat_def nat_str2_def p)
qed

text \<open>The date that comes back from a stored timestamp is the one that was written.\<close>

theorem fromisoformat_date:
  assumes "valid_date d" and "fromisoformat (isoformat d @ ''T'' @ s) = Inr t"
  shows "dt_date t = d"
proof -
  have "take 10 (isoformat d @ ''T'' @ s) = isoformat d" using length_isoformat [OF assms(1)] by simp
  then show ?thesis using assms(2) parse_isoformat [OF assms(1)]
    by (auto simp: fromisoformat_def split: option.splits if_splits)
qed

end
