(* ===== verification/PyVal.thy ===== *)
theory PyVal
  imports PyFloat Calendar
begin

text \<open>
  The dynamically typed values that travel through the program: fact values, insight
  payloads and the items of the AWS API. A JSON column holds the constructors
  below except \<open>PDateTime\<close>, which only raw API items contain. The conversions
  \<open>int\<close>, \<open>str\<close>, \<open>bool\<close> and the use of a value as a dictionary key are the ones of the
  language, with their exceptions.
\<close>

datatype pyval =
    PNone
  | PBool bool
  | PInt int
  | PFloat pyfloat
  | PStr string
  | PList "pyval list"
  | PDict "(string \<times> pyval) list"
  | PDateTime datetime

type_synonym payload = "(string, pyval) dict"

text \<open>\<open>bool(v)\<close>.\<close>

fun truthy :: "pyval \<Rightarrow> bool" where
  "truthy PNone = False"
| "truthy (PBool b) = b"
| "truthy (PInt i) = (i \<noteq> 0)"
| "truthy (PFloat x) = (x \<noteq> 0)"
| "truthy (PStr s) = (s \<noteq> [])"
| "truthy (PList vs) = (vs \<noteq> [])"
| "truthy (PDict d) = (d \<noteq> [])"
| "truthy (PDateTime t) = True"

section \<open>\<open>int(v)\<close>\<close>

definition is_space :: "char \<Rightarrow> bool" where
  "is_space c = (let n = (of_char c :: nat) in n = 32 \<or> (9 \<le> n \<and> n \<le> 13) \<or> (28 \<le> n \<and> n \<le> 31))"

definition str_strip :: "string \<Rightarrow> string" where
  "str_strip s = rev (dropWhile is_space (rev (dropWhile is_space s)))"

text \<open>A decimal literal: an optional sign, then groups of digits separated by single
  underscores. More than 4300 digits raise, as since Python 3.11.\<close>

definition parse_unsigned :: "string \<Rightarrow> nat option" where
  "parse_unsigned s = (let gs = split_on CHR ''_'' s; ds = concat gs in
     if list_all str_isdigit gs \<and> length ds \<le> 4300 then Some (nat_of_digits ds) else None)"

definition parse_int :: "string \<Rightarrow> int option" where
  "parse_int raw = (case str_strip raw of
      [] \<Rightarrow> None
    | c # cs \<Rightarrow>
      if c = CHR ''-'' then map_option (\<lambda>n. - int n) (parse_unsigned cs)
      else if c = CHR ''+'' then map_option int (parse_unsigned cs)
      else map_option int (parse_unsigned (c # cs)))"

fun py_int :: "pyval \<Rightarrow> int res" where
  "py_int (PBool b) = Inr (if b then 1 else 0)"
| "py_int (PInt i) = Inr i"
| "py_int (PFloat x) = Inr (if 0 \<le> x then \<lfloor>x\<rfloor> else \<lceil>x\<rceil>)"
| "py_int (PStr s) = (case parse_int s of None \<Rightarrow> Inl ValueError | Some i \<Rightarrow> Inr i)"
| "py_int v = Inl TypeError"

lemma py_int_error: "py_int v = Inl e \<Longrightarrow> e = TypeError \<or> e = ValueError"
  by (cases v) (auto split: option.splits)

section \<open>\<open>str(v)\<close>\<close>

text \<open>\<open>repr\<close> of a float: the shortest decimal that reads back as the same float. \<open>dec_exp\<close>
  is the exponent of its leading digit; \<open>shortest\<close> tries 1 to 17 digits.\<close>

definition dec_exp :: "rat \<Rightarrow> int" where
  "dec_exp x = (if 1 \<le> x then int (length (str_of_nat (nat \<lfloor>x\<rfloor>))) - 1
     else - int (length (str_of_nat (nat (\<lceil>1 / x\<rceil> - 1)))))"

definition pow10 :: "int \<Rightarrow> rat" where
  "pow10 e = (if 0 \<le> e then 10 ^ nat e else 1 / 10 ^ nat (- e))"

definition shortest :: "rat \<Rightarrow> int \<times> nat" where
  "shortest x = (let e = dec_exp x;
      try = (\<lambda>k. let s = pow10 (int k - 1 - e); m = round_half_even (x * s) in
               map_option (\<lambda>m. (m, k)) (find (\<lambda>m. fl (of_int m / s) = x) [m, \<lfloor>x * s\<rfloor>, \<lfloor>x * s\<rfloor> + 1]))
    in case find (\<lambda>k. try k \<noteq> None) [1..<18] of
         Some k \<Rightarrow> the (try k) | None \<Rightarrow> (0, 1))"

definition float_repr :: "pyfloat \<Rightarrow> string" where
  "float_repr x = (if x = 0 then ''0.0'' else
     let (m, k) = shortest \<bar>x\<bar>; ds = str_of_nat (nat m); n = int (length ds); p = dec_exp \<bar>x\<bar> + 1;
       body = (if - 4 < p \<and> p \<le> 16 then
           (if p \<le> 0 then ''0.'' @ replicate (nat (- p)) CHR ''0'' @ ds
            else if n \<le> p then ds @ replicate (nat (p - n)) CHR ''0'' @ ''.0''
            else take (nat p) ds @ ''.'' @ drop (nat p) ds)
         else hd ds # (if tl ds = [] then [] else CHR ''.'' # tl ds) @ ''e'' @
           (if p - 1 < 0 then ''-'' else ''+'') @ pad0 2 (str_of_nat (nat \<bar>p - 1\<bar>)))
     in (if x < 0 then CHR ''-'' # body else body))"

definition hex_digit :: "nat \<Rightarrow> char" where
  "hex_digit n = ''0123456789abcdef'' ! n"

definition repr_char :: "char \<Rightarrow> char \<Rightarrow> string" where
  "repr_char q c = (let n = (of_char c :: nat) in
     if c = q \<or> n = 92 then [char_of (92 :: nat), c]
     else if n = 10 then char_of (92 :: nat) # ''n''
     else if n = 13 then char_of (92 :: nat) # ''r''
     else if n = 9 then char_of (92 :: nat) # ''t''
     else if n < 32 \<or> n = 127 then char_of (92 :: nat) # ''x'' @ [hex_digit (n div 16), hex_digit (n mod 16)]
     else [c])"

definition str_repr :: "string \<Rightarrow> string" where
  "str_repr s = (let sq = char_of (39 :: nat); dq = char_of (34 :: nat);
     q = (if sq \<in> set s \<and> dq \<notin> set s then dq else sq) in
     q # concat (map (repr_char q) s) @ [q])"

fun py_repr :: "pyval \<Rightarrow> string" where
  "py_repr PNone = ''None''"
| "py_repr (PBool b) = (if b then ''True'' else ''False'')"
| "py_repr (PInt i) = str_of_int i"
| "py_repr (PFloat x) = float_repr x"
| "py_repr (PStr s) = str_repr s"
| "py_repr (PList vs) = ''['' @ str_join '', '' (map py_repr vs) @ '']''"
| "py_repr (PDict d) = ''{'' @ str_join '', '' (map (\<lambda>(k, v). str_repr k @ '': '' @ py_repr v) d) @ ''}''"
| "py_repr (PDateTime t) = dt_isoformat t"

fun py_str :: "pyval \<Rightarrow> string" where
  "py_str (PStr s) = s"
| "py_str v = py_repr v"

section \<open>A value as a dictionary key\<close>

text \<open>\<open>d.get(v)\<close> on a dictionary with string keys: a list or a dictionary is not
  hashable, any other value that is not a string is simply absent.\<close>

fun get_by_value :: "(string, 'a) dict \<Rightarrow> pyval \<Rightarrow> 'a option res" where
  "get_by_value d (PStr s) = Inr (dict_get d s)"
| "get_by_value d (PList _) = Inl TypeError"
| "get_by_value d (PDict _) = Inl TypeError"
| "get_by_value d _ = Inr None"

definition pstr_opt :: "string option \<Rightarrow> pyval" where
  "pstr_opt s = (case s of None \<Rightarrow> PNone | Some s \<Rightarrow> PStr s)"

definition pget :: "payload \<Rightarrow> string \<Rightarrow> pyval" where
  "pget d k = get_default d k PNone"

lemma pget_set [simp]: "pget (dict_set k v d) k' = (if k' = k then v else pget d k')"
  by (simp add: pget_def get_default_def)

lemma pget_Nil [simp]: "pget [] k = PNone"
  by (simp add: pget_def get_default_def)

lemma pget_Cons [simp]: "pget ((k, v) # d) k' = (if k' = k then v else pget d k')"
  by (simp add: pget_def get_default_def)

text \<open>A decimal integer prints and reads back.\<close>

lemma digit_not_space: "is_digit c \<Longrightarrow> \<not> is_space c"
  by (auto simp: is_digit_def is_space_def less_eq_char_def Let_def)

lemma digit_not_sign: "is_digit c \<Longrightarrow> c \<noteq> CHR ''-'' \<and> c \<noteq> CHR ''+'' \<and> c \<noteq> CHR ''_''"
  by (auto simp: is_digit_def less_eq_char_def)

end
