(* ===== verification/Json.thy ===== *)
theory Json
  imports PyVal
begin

text \<open>
  \<open>json.loads\<close> of the standard library, on text as UTF-8 bytes.

  The parser follows the C scanner: white space is space, tab, newline and carriage
  return; strings are strict (no control characters) and their \<open>\u\<close> escapes join surrogate
  pairs; a number with a fraction or an exponent is a float, any other an int of at most
  4300 digits; a repeated key keeps its first position and its last value. The literals
  \<open>NaN\<close>, \<open>Infinity\<close> and \<open>-Infinity\<close> and floats beyond the binary64 range, which
  Python reads as special floats, have no value here and are refused. The fuel bounds the
  nesting and is the length of the text.
\<close>

definition json_ws :: "string \<Rightarrow> string" where
  "json_ws s = dropWhile (\<lambda>c. c = CHR '' '' \<or> c = CHR 0x09 \<or> c = CHR 0x0A \<or> c = CHR 0x0D) s"

definition hex_val :: "char \<Rightarrow> nat option" where
  "hex_val c = (let n = (of_char c :: nat) in
     if 48 \<le> n \<and> n \<le> 57 then Some (n - 48) else if 65 \<le> n \<and> n \<le> 70 then Some (n - 55)
     else if 97 \<le> n \<and> n \<le> 102 then Some (n - 87) else None)"

definition hex4 :: "string \<Rightarrow> nat option" where
  "hex4 s = (if length s < 4 then None else
     foldl (\<lambda>acc c. case (acc, hex_val c) of (Some n, Some d) \<Rightarrow> Some (16 * n + d) | _ \<Rightarrow> None) (Some 0) (take 4 s))"

definition utf8 :: "nat \<Rightarrow> string" where
  "utf8 n = map char_of
    (if n < 128 then [n]
     else if n < 2048 then [192 + n div 64, 128 + n mod 64]
     else if n < 65536 then [224 + n div 4096, 128 + (n div 64) mod 64, 128 + n mod 64]
     else [240 + n div 262144, 128 + (n div 4096) mod 64, 128 + (n div 64) mod 64, 128 + n mod 64])"

text \<open>The code point of an escape and the text behind it: a high surrogate takes a
  following low one with it.\<close>

definition json_escape_u :: "string \<Rightarrow> (string \<times> string) option" where
  "json_escape_u s = (case hex4 s of None \<Rightarrow> None
     | Some hi \<Rightarrow> let r = drop 4 s in
        if 55296 \<le> hi \<and> hi \<le> 56319 \<and> take 2 r = [CHR 0x5C, CHR ''u''] then
          (case hex4 (drop 2 r) of
             None \<Rightarrow> None
           | Some lo \<Rightarrow> if 56320 \<le> lo \<and> lo \<le> 57343
               then Some (utf8 (65536 + (hi - 55296) * 1024 + (lo - 56320)), drop 6 r)
               else Some (utf8 hi, r))
        else Some (utf8 hi, r))"

definition json_simple_escape :: "char \<Rightarrow> char option" where
  "json_simple_escape c = map_of [(CHR 0x22, CHR 0x22), (CHR 0x5C, CHR 0x5C), (CHR ''/'', CHR ''/''),
     (CHR ''b'', CHR 0x08), (CHR ''f'', CHR 0x0C), (CHR ''n'', CHR 0x0A), (CHR ''r'', CHR 0x0D), (CHR ''t'', CHR 0x09)] c"

text \<open>The rest of a string, behind its opening quote.\<close>

fun json_string :: "nat \<Rightarrow> string \<Rightarrow> (string \<times> string) option" where
  "json_string 0 s = None"
| "json_string (Suc n) s = (case s of [] \<Rightarrow> None
    | c # cs \<Rightarrow>
      if c = CHR 0x22 then Some ([], cs)
      else if (of_char c :: nat) < 32 then None
      else if c = CHR 0x5C then
        (case cs of [] \<Rightarrow> None
         | e # es \<Rightarrow>
           (case (if e = CHR ''u'' then json_escape_u es else map_option (\<lambda>d. ([d], es)) (json_simple_escape e)) of
              None \<Rightarrow> None
            | Some (d, r) \<Rightarrow> map_option (\<lambda>(t, r'). (d @ t, r')) (json_string n r)))
      else map_option (\<lambda>(t, r). (c # t, r)) (json_string n cs))"

definition json_number :: "string \<Rightarrow> (pyval \<times> string) option" where
  "json_number s =
    (let (neg, s1) = (case s of [] \<Rightarrow> (False, []) | c # cs \<Rightarrow> if c = CHR ''-'' then (True, cs) else (False, s));
         ip = (case s1 of [] \<Rightarrow> [] | c # cs \<Rightarrow> if c = CHR ''0'' then [c] else takeWhile is_digit s1);
         r1 = drop (length ip) s1;
         fp = (case r1 of [] \<Rightarrow> [] | c # cs \<Rightarrow> if c = CHR ''.'' then takeWhile is_digit cs else []);
         r2 = (if fp = [] then r1 else drop (Suc (length fp)) r1);
         (es, r3) = (case r2 of [] \<Rightarrow> (None, r2)
            | c # cs \<Rightarrow> if c = CHR ''e'' \<or> c = CHR ''E'' then
                (let (sg, ds) = (case cs of [] \<Rightarrow> (1, []) | d # ds \<Rightarrow>
                       if d = CHR ''-'' then (- 1, ds) else if d = CHR ''+'' then (1, ds) else (1, cs));
                     e = takeWhile is_digit ds
                 in if e = [] then (None, r2) else (Some (sg * int (nat_of_digits e)), drop (length e) ds))
              else (None, r2));
         sgn = (if neg then - 1 else 1)
     in if ip = [] then None
        else if fp = [] \<and> es = None then
          (if 4300 < length ip then None else Some (PInt (sgn * int (nat_of_digits ip)), r3))
        else (let x = fl (of_int sgn * of_nat (nat_of_digits (ip @ fp)) *
                    pow10 ((case es of None \<Rightarrow> 0 | Some e \<Rightarrow> e) - int (length fp)))
              in if \<bar>x\<bar> < pow2 1024 then Some (PFloat x, r3) else None))"

fun json_value :: "nat \<Rightarrow> string \<Rightarrow> (pyval \<times> string) option"
  and json_items :: "nat \<Rightarrow> string \<Rightarrow> (pyval list \<times> string) option"
  and json_pairs :: "nat \<Rightarrow> string \<Rightarrow> ((string \<times> pyval) list \<times> string) option" where
  "json_value 0 s = None"
| "json_value (Suc n) s =
    (if is_prefix_of ''null'' s then Some (PNone, drop 4 s)
     else if is_prefix_of ''true'' s then Some (PBool True, drop 4 s)
     else if is_prefix_of ''false'' s then Some (PBool False, drop 5 s)
     else (case s of [] \<Rightarrow> None
       | c # cs \<Rightarrow>
         if c = CHR 0x22 then map_option (\<lambda>(t, r). (PStr t, r)) (json_string (length cs) cs)
         else if c = CHR ''['' then
           (let r = json_ws cs in
            if r \<noteq> [] \<and> hd r = CHR '']'' then Some (PList [], tl r)
            else map_option (\<lambda>(vs, r'). (PList vs, r')) (json_items n r))
         else if c = CHR ''{'' then
           (let r = json_ws cs in
            if r \<noteq> [] \<and> hd r = CHR ''}'' then Some (PDict [], tl r)
            else map_option (\<lambda>(ps, r'). (PDict (dict_of ps), r')) (json_pairs n r))
         else json_number s))"
| "json_items 0 s = None"
| "json_items (Suc n) s = (case json_value n s of None \<Rightarrow> None
    | Some (v, r) \<Rightarrow> (case json_ws r of [] \<Rightarrow> None
      | c # cs \<Rightarrow>
        if c = CHR '']'' then Some ([v], cs)
        else if c = CHR '','' then map_option (\<lambda>(vs, r'). (v # vs, r')) (json_items n (json_ws cs))
        else None))"
| "json_pairs 0 s = None"
| "json_pairs (Suc n) s = (case s of [] \<Rightarrow> None
    | q # qs \<Rightarrow> if q \<noteq> CHR 0x22 then None else
      (case json_string (length qs) qs of None \<Rightarrow> None
       | Some (k, r0) \<Rightarrow> (case json_ws r0 of [] \<Rightarrow> None
         | c # cs \<Rightarrow> if c \<noteq> CHR '':'' then None else
           (case json_value n (json_ws cs) of None \<Rightarrow> None
            | Some (v, r) \<Rightarrow> (case json_ws r of [] \<Rightarrow> None
              | d # ds \<Rightarrow>
                if d = CHR ''}'' then Some ([(k, v)], ds)
                else if d = CHR '','' then map_option (\<lambda>(ps, r'). ((k, v) # ps, r')) (json_pairs n (json_ws ds))
                else None)))))"

definition json_loads :: "string \<Rightarrow> pyval res" where
  "json_loads s = (case json_value (Suc (length s)) (json_ws s) of
      None \<Rightarrow> Inl ValueError
    | Some (v, r) \<Rightarrow> if json_ws r = [] then Inr v else Inl ValueError)"

end
