(* ===== verification/Models.thy ===== *)
theory Models
  imports PyVal "HOL-Library.Word"
begin

text \<open>
  The core data models (\<open>constat_core/models.py\<close>, \<open>namespaces.py\<close>) and the monetary
  registry (\<open>monetary.py\<close>). Identifiers are UUIDs, 128-bit words with their canonical
  text; instants are UTC microseconds. A generated \<open>id\<close> and a \<open>computed_at\<close> stamp default
  to \<open>None\<close> here and are assigned by the store that inserts the row.
\<close>

section \<open>Identifiers and instants\<close>

type_synonym uuid = "128 word"
type_synonym instant = int

definition hex_of :: "nat \<Rightarrow> nat \<Rightarrow> string" where
  "hex_of k n = map (\<lambda>i. hex_digit ((n div 16 ^ (k - 1 - i)) mod 16)) [0..<k]"

text \<open>\<open>str(u)\<close>: 8-4-4-4-12 hexadecimal digits.\<close>

definition uuid_str :: "uuid \<Rightarrow> string" where
  "uuid_str u = (let h = hex_of 32 (unat u) in
     take 8 h @ ''-'' @ take 4 (drop 8 h) @ ''-'' @ take 4 (drop 12 h) @ ''-'' @ take 4 (drop 16 h) @ ''-'' @ drop 20 h)"

lemma hex_digit_inj: "m < 16 \<Longrightarrow> n < 16 \<Longrightarrow> hex_digit m = hex_digit n \<Longrightarrow> m = n"
proof -
  have "distinct ''0123456789abcdef''" by code_simp
  then show "m < 16 \<Longrightarrow> n < 16 \<Longrightarrow> hex_digit m = hex_digit n \<Longrightarrow> m = n"
    by (simp add: hex_digit_def nth_eq_iff_index_eq)
qed

lemma hex_of_inj:
  assumes "m < 16 ^ k" and "n < 16 ^ k" and "hex_of k m = hex_of k n"
  shows "m = n"
proof -
  have step: "m div 16 ^ j mod 16 = n div 16 ^ j mod 16" if "j < k" for j
  proof -
    have "hex_of k m ! (k - 1 - j) = hex_of k n ! (k - 1 - j)" using assms(3) by simp
    then have "hex_digit (m div 16 ^ j mod 16) = hex_digit (n div 16 ^ j mod 16)"
      using that by (simp add: hex_of_def)
    then show ?thesis by (intro hex_digit_inj) simp_all
  qed
  have "m div 16 ^ (k - i) = n div 16 ^ (k - i)" if "i \<le> k" for i
    using that
  proof (induction i)
    case 0
    then show ?case using assms by simp
  next
    case (Suc i)
    let ?j = "k - Suc i"
    have j: "k - i = Suc ?j" using Suc.prems by simp
    have d: "x div 16 ^ ?j = x div 16 ^ Suc ?j * 16 + x div 16 ^ ?j mod 16" for x :: nat
    proof -
      have "x div 16 ^ Suc ?j = x div 16 ^ ?j div 16" by (simp only: power_Suc2 div_mult2_eq)
      then show ?thesis by simp
    qed
    show ?case using Suc step [of ?j] d [of m] d [of n] j by simp
  qed
  from this [of k] show ?thesis by simp
qed

lemma length_hex_of [simp]: "length (hex_of k n) = k"
  by (simp add: hex_of_def)

lemma uuid_str_inj: "uuid_str u = uuid_str v \<longleftrightarrow> u = v"
proof
  assume e: "uuid_str u = uuid_str v"
  let ?h = "hex_of 32 (unat u)" and ?g = "hex_of 32 (unat v)"
  have s: "h = take 8 h @ take 4 (drop 8 h) @ take 4 (drop 12 h) @ take 4 (drop 16 h) @ drop 20 h" for h :: string
    using append_take_drop_id [of 8 h] append_take_drop_id [of 4 "drop 8 h"]
      append_take_drop_id [of 4 "drop 12 h"] append_take_drop_id [of 4 "drop 16 h"] by simp
  have "take 8 ?h = take 8 ?g \<and> take 4 (drop 8 ?h) = take 4 (drop 8 ?g) \<and>
      take 4 (drop 12 ?h) = take 4 (drop 12 ?g) \<and> take 4 (drop 16 ?h) = take 4 (drop 16 ?g) \<and>
      drop 20 ?h = drop 20 ?g"
    using e by (simp add: uuid_str_def Let_def)
  then have "?h = ?g" using s [of ?h] s [of ?g] by metis
  moreover have "unat u < 16 ^ 32" "unat v < 16 ^ 32"
    using unsigned_less [of u, where ?'a = nat] unsigned_less [of v, where ?'a = nat] by simp_all
  ultimately have "unat u = unat v" by (intro hex_of_inj)
  then show "u = v" by (simp add: word_unat_eq_iff)
qed simp

section \<open>Facts, insights and inconclusive records\<close>

datatype value_state = KNOWN | UNKNOWN | STALE | ERROR

datatype severity = INFO | WARNING | CRITICAL

fun severity_str :: "severity \<Rightarrow> string" where
  "severity_str INFO = ''info''"
| "severity_str WARNING = ''warning''"
| "severity_str CRITICAL = ''critical''"

text \<open>The severities in increasing order, as the thresholds assign them.\<close>

fun severity_rank :: "severity \<Rightarrow> nat" where
  "severity_rank INFO = 0"
| "severity_rank WARNING = 1"
| "severity_rank CRITICAL = 2"

instantiation severity :: linorder
begin

definition less_eq_severity :: "severity \<Rightarrow> severity \<Rightarrow> bool" where
  "less_eq_severity a b = (severity_rank a \<le> severity_rank b)"

definition less_severity :: "severity \<Rightarrow> severity \<Rightarrow> bool" where
  "less_severity a b = (severity_rank a < severity_rank b)"

instance
proof
  fix a b c :: severity
  show "a \<le> b \<Longrightarrow> b \<le> a \<Longrightarrow> a = b" by (cases a; cases b) (auto simp: less_eq_severity_def)
qed (auto simp: less_eq_severity_def less_severity_def)

end

record resource =
  res_id :: uuid
  res_account :: string
  res_region :: string
  res_type :: string
  res_native_id :: string
  res_first_seen :: instant
  res_last_seen :: instant
  res_retired :: "instant option"

record observation =
  obs_resource :: uuid
  obs_source :: string
  obs_observed_at :: instant
  obs_payload :: payload

record fact =
  fact_resource :: "uuid option"
  fact_account :: "string option"
  fact_namespace :: string
  fact_key :: string
  fact_value :: pyval
  fact_state :: value_state
  fact_source :: string
  fact_observed_at :: instant

record insight =
  ins_rule :: string
  ins_resource :: "uuid option"
  ins_account :: "string option"
  ins_severity :: severity
  ins_title :: string
  ins_payload :: payload

record inconclusive =
  inc_rule :: string
  inc_resource :: "uuid option"
  inc_account :: "string option"
  inc_missing :: "string list"
  inc_reason :: "string option"

section \<open>The outcome of a rule on one resource\<close>

text \<open>\<open>EolInsightResult\<close>, \<open>StorageInsightResult\<close> and the \<open>InsightResult\<close> of
  \<open>ec2_stopped_with_storage\<close> have the same two fields.\<close>

record outcome =
  insights :: "insight list"
  inconclusive_reasons :: "string list"

definition is_conclusive :: "outcome \<Rightarrow> bool" where
  "is_conclusive r = (inconclusive_reasons r = [])"

definition has_gap :: "outcome \<Rightarrow> bool" where
  "has_gap r = (insights r \<noteq> [])"

abbreviation no_match :: outcome where
  "no_match \<equiv> \<lparr>insights = [], inconclusive_reasons = []\<rparr>"

abbreviation unsure :: "string list \<Rightarrow> outcome" where
  "unsure rs \<equiv> \<lparr>insights = [], inconclusive_reasons = rs\<rparr>"

abbreviation found :: "insight \<Rightarrow> outcome" where
  "found i \<equiv> \<lparr>insights = [i], inconclusive_reasons = []\<rparr>"

text \<open>A rule never says both "there is a gap" and "we do not know", and says the first
  at most once.\<close>

definition outcome_ok :: "outcome \<Rightarrow> bool" where
  "outcome_ok r = (length (insights r) \<le> 1 \<and> (insights r = [] \<or> inconclusive_reasons r = []))"

lemma outcome_ok_simps [simp]:
  "outcome_ok no_match" "outcome_ok (unsure rs)" "outcome_ok (found i)"
  by (simp_all add: outcome_ok_def)

section \<open>The fact index\<close>

text \<open>\<open>_index_facts\<close>: a later fact of the same key replaces the earlier one.\<close>

type_synonym fact_index = "(string, fact) dict"

definition dotted :: "fact \<Rightarrow> string" where
  "dotted f = fact_namespace f @ ''.'' @ fact_key f"

definition index_facts :: "fact list \<Rightarrow> fact_index" where
  "index_facts fs = dict_of (map (\<lambda>f. (dotted f, f)) fs)"

text \<open>A fact that is present and \<open>KNOWN\<close>.\<close>

definition known :: "fact_index \<Rightarrow> string \<Rightarrow> bool" where
  "known idx k = (case dict_get idx k of None \<Rightarrow> False | Some f \<Rightarrow> fact_state f = KNOWN)"

definition fact_val :: "fact_index \<Rightarrow> string \<Rightarrow> pyval" where
  "fact_val idx k = (case dict_get idx k of None \<Rightarrow> PNone | Some f \<Rightarrow> fact_value f)"

lemma index_facts_get: "dict_get (index_facts fs) k = find (\<lambda>f. dotted f = k) (rev fs)"
proof -
  have "dict_get (map (\<lambda>f. (dotted f, f)) gs) k = find (\<lambda>f. dotted f = k) gs" for gs
    by (induction gs) auto
  then show ?thesis by (simp add: index_facts_def dict_get_of rev_map)
qed

lemma known_iff: "known idx k \<longleftrightarrow> (\<exists>f. dict_get idx k = Some f \<and> fact_state f = KNOWN)"
  by (auto simp: known_def split: option.splits)

section \<open>Building facts\<close>

text \<open>\<open>make_fact_builder\<close> of \<open>constat_core/collectors/aws.py\<close>: the closure stamps namespace,
  source, account and observation time; the caller gives the rest.\<close>

definition make_fact_builder ::
    "string \<Rightarrow> string \<Rightarrow> string \<Rightarrow> instant \<Rightarrow> uuid \<Rightarrow> string \<Rightarrow> pyval \<Rightarrow> value_state \<Rightarrow> fact" where
  "make_fact_builder namespace source account_id observed_at rid key value state =
    \<lparr>fact_resource = Some rid, fact_account = Some account_id, fact_namespace = namespace,
     fact_key = key, fact_value = value, fact_state = state, fact_source = source,
     fact_observed_at = observed_at\<rparr>"

fun known_or_unknown :: "pyval \<Rightarrow> value_state" where
  "known_or_unknown PNone = UNKNOWN"
| "known_or_unknown (PStr s) = (if s = [] then UNKNOWN else KNOWN)"
| "known_or_unknown (PList vs) = (if vs = [] then UNKNOWN else KNOWN)"
| "known_or_unknown (PDict d) = (if d = [] then UNKNOWN else KNOWN)"
| "known_or_unknown _ = KNOWN"

lemma make_fact_builder_simps [simp]:
  "fact_namespace (make_fact_builder ns src acct t rid k v st) = ns"
  "fact_key (make_fact_builder ns src acct t rid k v st) = k"
  "fact_value (make_fact_builder ns src acct t rid k v st) = v"
  "fact_state (make_fact_builder ns src acct t rid k v st) = st"
  "fact_account (make_fact_builder ns src acct t rid k v st) = Some acct"
  "fact_resource (make_fact_builder ns src acct t rid k v st) = Some rid"
  "fact_source (make_fact_builder ns src acct t rid k v st) = src"
  "fact_observed_at (make_fact_builder ns src acct t rid k v st) = t"
  by (simp_all add: make_fact_builder_def)

end
