(* ===== verification/JsonDump.thy ===== *)
theory JsonDump
  imports Json Models
begin

text \<open>
  \<open>json.dumps\<close> of the standard library with its default arguments, and its round trip
  through \<open>json_loads\<close>.

  The separators are a comma and a colon, each followed by a space; everything outside
  the printable ASCII characters is escaped, beyond the basic plane as a surrogate pair. A
  string is the UTF-8 bytes of its code points; a byte sequence that is no such text does
  not come from a Python string, and \<open>utf8_text\<close> excludes it in the theorems.
\<close>

definition utf8_more :: "nat \<Rightarrow> nat" where
  "utf8_more n = (if n < 128 then 0 else if n < 224 then 1 else if n < 240 then 2 else 3)"

definition utf8_lead :: "nat \<Rightarrow> nat" where
  "utf8_lead n = (if n < 128 then n else if n < 224 then n mod 32 else if n < 240 then n mod 16 else n mod 8)"

fun utf8_points :: "string \<Rightarrow> nat list" where
  "utf8_points [] = []"
| "utf8_points (c # cs) = (let n = of_char c; k = utf8_more n in
     foldl (\<lambda>a d. a * 64 + of_char d mod 64) (utf8_lead n) (take k cs) # utf8_points (drop k cs))"

definition scalar :: "nat \<Rightarrow> bool" where
  "scalar p = (p < 55296 \<or> 57344 \<le> p \<and> p < 1114112)"

definition utf8_text :: "string \<Rightarrow> bool" where
  "utf8_text s = (concat (map utf8 (utf8_points s)) = s \<and> list_all scalar (utf8_points s))"

definition json_u :: "nat \<Rightarrow> string" where
  "json_u n = CHR 0x5C # CHR ''u'' # hex_of 4 n"

definition json_escape :: "nat \<Rightarrow> string" where
  "json_escape p =
    (if p = 0x22 then [CHR 0x5C, CHR 0x22] else if p = 0x5C then [CHR 0x5C, CHR 0x5C]
     else if p = 0x0A then [CHR 0x5C, CHR ''n''] else if p = 0x0D then [CHR 0x5C, CHR ''r'']
     else if p = 0x09 then [CHR 0x5C, CHR ''t''] else if p = 0x0C then [CHR 0x5C, CHR ''f'']
     else if p = 0x08 then [CHR 0x5C, CHR ''b''] else if 32 \<le> p \<and> p \<le> 126 then [char_of p]
     else if p < 65536 then json_u p
     else json_u (55296 + (p - 65536) div 1024) @ json_u (56320 + (p - 65536) mod 1024))"

definition json_str :: "string \<Rightarrow> string" where
  "json_str s = CHR 0x22 # concat (map json_escape (utf8_points s)) @ [CHR 0x22]"

lemma mapM_cong [fundef_cong]:
  "xs = ys \<Longrightarrow> (\<And>x. x \<in> set ys \<Longrightarrow> f x = g x) \<Longrightarrow> mapM f xs = mapM g ys"
proof (induction xs arbitrary: ys)
  case (Cons x xs)
  then show ?case by (cases ys) auto
qed simp

fun json_dumps :: "pyval \<Rightarrow> string res" where
  "json_dumps PNone = Inr ''null''"
| "json_dumps (PBool b) = Inr (if b then ''true'' else ''false'')"
| "json_dumps (PInt i) = Inr (str_of_int i)"
| "json_dumps (PFloat x) = Inr (float_repr x)"
| "json_dumps (PStr s) = Inr (json_str s)"
| "json_dumps (PList vs) = rmap (\<lambda>ts. ''['' @ str_join '', '' ts @ '']'') (mapM json_dumps vs)"
| "json_dumps (PDict d) = rmap (\<lambda>ts. ''{'' @ str_join '', '' ts @ ''}'')
     (mapM (\<lambda>(k, v). rmap (\<lambda>t. json_str k @ '': '' @ t) (json_dumps v)) d)"
| "json_dumps (PDateTime t) = Inl TypeError"

section \<open>The round trip\<close>

subsection \<open>Escapes and strings\<close>

lemma hex_val_digit: "m < 16 \<Longrightarrow> hex_val (hex_digit m) = Some m"
proof -
  have "list_all (\<lambda>m. hex_val (hex_digit m) = Some m) [0..<16]" by code_simp
  then show "m < 16 \<Longrightarrow> hex_val (hex_digit m) = Some m" by (simp add: list_all_iff)
qed

lemma hex_of_4: "hex_of 4 n = [hex_digit (n div 4096 mod 16), hex_digit (n div 256 mod 16), hex_digit (n div 16 mod 16), hex_digit (n mod 16)]"
proof -
  have "[0..<4] = [0, 1, 2, 3::nat]" by code_simp
  then show ?thesis by (simp add: hex_of_def)
qed

lemma hex4_of:
  assumes "n < 65536"
  shows "hex4 (hex_of 4 n @ r) = Some n"
proof -
  have e: "n div 256 = n div 16 div 16" "n div 4096 = n div 16 div 16 div 16" by (simp_all flip: div_mult2_eq)
  have "n div 16 div 16 div 16 < 16" using assms by (simp flip: div_mult2_eq)
  then have m: "n div 16 div 16 div 16 mod 16 = n div 16 div 16 div 16" by simp
  have s: "16 * (x div 16) + x mod 16 = x" for x :: nat by simp
  have "hex4 (hex_of 4 n @ r) = Some (16 * (16 * (16 * (n div 16 div 16 div 16) + n div 16 div 16 mod 16) + n div 16 mod 16) + n mod 16)"
    unfolding hex_of_4 hex4_def e m using \<open>n div 16 div 16 div 16 < 16\<close> by (simp add: hex_val_digit)
  then show ?thesis by simp
qed


lemma json_escape_u_bmp:
  assumes "p < 65536" and "scalar p"
  shows "json_escape_u (hex_of 4 p @ r) = Some (utf8 p, r)"
proof -
  have "\<not> (55296 \<le> p \<and> p \<le> 56319)" using assms(2) by (auto simp: scalar_def)
  then show ?thesis using assms(1) by (auto simp: json_escape_u_def hex4_of)
qed

lemma json_escape_u_pair:
  assumes "d < 1024" and "m < 1024"
  shows "json_escape_u (hex_of 4 (55296 + d) @ json_u (56320 + m) @ r) = Some (utf8 (65536 + d * 1024 + m), r)"
proof -
  have lo: "hex4 (hex_of 4 (56320 + m) @ r) = Some (56320 + m)" by (intro hex4_of) (use assms in linarith)
  have hi: "hex4 (hex_of 4 (55296 + d) @ x) = Some (55296 + d)" for x by (intro hex4_of) (use assms in linarith)
  show ?thesis using assms lo by (simp add: json_escape_u_def hi json_u_def Let_def)
qed

lemma escaped_chars:
  "char_of (0x22 :: nat) = CHR 0x22" "char_of (0x5C :: nat) = CHR 0x5C" "char_of (0x0A :: nat) = CHR 0x0A"
  "char_of (0x0D :: nat) = CHR 0x0D" "char_of (0x09 :: nat) = CHR 0x09" "char_of (0x0C :: nat) = CHR 0x0C"
  "char_of (0x08 :: nat) = CHR 0x08"
  by (rule of_char_eq_iff [where ?'a = nat, THEN iffD1], simp)+

lemma json_string_escape:
  assumes "scalar p"
  shows "json_string (Suc n) (json_escape p @ t) = map_option (\<lambda>(u, r). (utf8 p @ u, r)) (json_string n t)"
proof -
  consider "p = 0x22 \<or> p = 0x5C \<or> p = 0x0A \<or> p = 0x0D \<or> p = 0x09 \<or> p = 0x0C \<or> p = 0x08"
    | "32 \<le> p \<and> p \<le> 126 \<and> p \<noteq> 0x22 \<and> p \<noteq> 0x5C"
    | "p < 65536 \<and> \<not> (p = 0x22 \<or> p = 0x5C \<or> p = 0x0A \<or> p = 0x0D \<or> p = 0x09 \<or> p = 0x0C \<or> p = 0x08) \<and>
        \<not> (32 \<le> p \<and> p \<le> 126)"
    | "65536 \<le> p" by (meson not_le)
  then show ?thesis
  proof cases
    case 1
    then show ?thesis
      by (elim disjE) (simp_all add: json_escape_def utf8_def json_simple_escape_def escaped_chars)
  next
    case 2
    then have e: "json_escape p = [char_of p]" by (auto simp: json_escape_def)
    have n: "of_char (char_of p :: char) = p" using 2 by simp
    have "(char_of p :: char) \<noteq> char_of (0x22 :: nat)" "(char_of p :: char) \<noteq> char_of (0x5C :: nat)"
      using 2 by simp_all
    then have "(char_of p :: char) \<noteq> CHR 0x22" "(char_of p :: char) \<noteq> CHR 0x5C" unfolding escaped_chars by simp_all
    then show ?thesis using 2 by (simp add: e n utf8_def Let_def)
  next
    case 3
    then have "json_escape p = json_u p" unfolding json_escape_def by auto
    then show ?thesis using 3 assms by (simp add: json_u_def json_escape_u_bmp)
  next
    case 4
    then have e: "json_escape p = json_u (55296 + (p - 65536) div 1024) @ json_u (56320 + (p - 65536) mod 1024)"
      by (simp add: json_escape_def)
    have p: "p < 1114112" using assms 4 by (auto simp: scalar_def)
    define d m where "d = (p - 65536) div 1024" and "m = (p - 65536) mod 1024"
    have dm: "d < 1024" "m < 1024" "65536 + d * 1024 + m = p" using p 4 by (auto simp: d_def m_def less_mult_imp_div_less)
    show ?thesis using json_escape_u_pair [OF dm(1,2), of t]
      unfolding e d_def [symmetric] m_def [symmetric] by (simp add: json_u_def [of "55296 + d"] dm(3))
  qed
qed

lemma json_string_points:
  "list_all scalar ps \<Longrightarrow> length ps < n \<Longrightarrow>
   json_string n (concat (map json_escape ps) @ CHR 0x22 # r) = Some (concat (map utf8 ps), r)"
proof (induction ps arbitrary: n)
  case Nil
  then show ?case by (cases n) auto
next
  case (Cons p ps)
  then obtain m where n: "n = Suc m" by (cases n) auto
  show ?case using Cons by (simp add: n json_string_escape del: json_string.simps)
qed

lemma json_escape_nonempty: "json_escape p \<noteq> []"
  by (simp add: json_escape_def json_u_def)

lemma length_escapes: "length ps \<le> length (concat (map json_escape ps))"
proof (induction ps)
  case (Cons p ps)
  have "1 \<le> length (json_escape p)" using json_escape_nonempty [of p] by (cases "json_escape p") auto
  then show ?case using Cons by simp
qed simp

lemma json_string_str:
  assumes "utf8_text s" and "length (json_str s) \<le> Suc n"
  shows "json_string n (tl (json_str s) @ r) = Some (s, r)"
proof -
  have "length (utf8_points s) < n" using assms(2) length_escapes [of "utf8_points s"] by (simp add: json_str_def)
  then show ?thesis using assms(1) json_string_points [of "utf8_points s" n r]
    by (simp add: json_str_def utf8_text_def)
qed


subsection \<open>Values\<close>

text \<open>The values without floats and instants, with text for strings, ints within the digit
  limit and no repeated key.\<close>

fun dumpable :: "pyval \<Rightarrow> bool" where
  "dumpable (PInt i) = (length (str_of_nat (nat \<bar>i\<bar>)) \<le> 4300)"
| "dumpable (PStr s) = utf8_text s"
| "dumpable (PList vs) = list_all dumpable vs"
| "dumpable (PDict d) = (distinct (map fst d) \<and> list_all (\<lambda>(k, v). utf8_text k \<and> dumpable v) d)"
| "dumpable (PFloat x) = False"
| "dumpable (PDateTime t) = False"
| "dumpable v = True"

text \<open>What may stand behind a value, and how its text begins.\<close>

definition json_stop :: "string \<Rightarrow> bool" where
  "json_stop r = (r = [] \<or> hd r \<in> set '',]}'')"

definition json_start :: "string \<Rightarrow> bool" where
  "json_start t = (t \<noteq> [] \<and> json_ws t = t \<and> hd t \<notin> set '',]}'')"

lemma json_ws_Cons: "json_ws (c # cs) = c # cs" if "c \<notin> {CHR '' '', CHR 0x09, CHR 0x0A, CHR 0x0D}"
  using that by (simp add: json_ws_def)

lemma str_of_nat_head:
  obtains c cs where "str_of_nat n = c # cs" and "is_digit c" and "list_all is_digit cs" and "c = CHR ''0'' \<Longrightarrow> cs = []"
proof -
  have z: "c \<noteq> CHR ''0''" if "str_of_nat n = c # cs" "10 \<le> n" for c cs n
    using that
  proof (induction n arbitrary: c cs rule: str_of_nat.induct)
    case (1 n)
    show ?case
    proof (cases "n div 10 < 10")
      case True
      have "list_all (\<lambda>d. d = 0 \<or> digit_char d \<noteq> CHR ''0'') [0..<10]" by code_simp
      then have "\<forall>d\<in>set [0..<10]. d = 0 \<or> digit_char d \<noteq> CHR ''0''" by (simp only: list_all_iff)
      then have "digit_char d \<noteq> CHR ''0''" if "d < 10" "d \<noteq> 0" for d
        using that by (metis atLeast_upt lessThan_iff)
      moreover have "n div 10 \<noteq> 0" using 1(3) by simp
      ultimately have "digit_char (n div 10) \<noteq> CHR ''0''" using True by blast
      moreover have "str_of_nat (n div 10) = [digit_char (n div 10)]" using True by (subst str_of_nat.simps) simp
      ultimately show ?thesis using 1 by (simp add: str_of_nat.simps [of n])
    next
      case False
      obtain c' cs' where s: "str_of_nat (n div 10) = c' # cs'" using str_of_nat_not_Nil [of "n div 10"] by (cases "str_of_nat (n div 10)") auto
      then show ?thesis using 1 False by (auto simp: str_of_nat.simps [of n] not_less)
    qed
  qed
  obtain c cs where s: "str_of_nat n = c # cs" using str_of_nat_not_Nil [of n] by (cases "str_of_nat n") auto
  have "cs = []" if "c = CHR ''0''"
  proof (cases "n < 10")
    case True
    then show ?thesis using s by (simp add: str_of_nat.simps [of n])
  next
    case False
    then show ?thesis using z [OF s] that by simp
  qed
  then show ?thesis using that s str_of_nat_digits [of n] by auto
qed

lemma json_number_int:
  assumes "json_stop r" and "length (str_of_nat (nat \<bar>i\<bar>)) \<le> 4300"
  shows "json_number (str_of_int i @ r) = Some (PInt i, r)"
proof -
  obtain c cs where s: "str_of_nat (nat \<bar>i\<bar>) = c # cs" "is_digit c" "list_all is_digit cs" "c = CHR ''0'' \<Longrightarrow> cs = []"
    using str_of_nat_head by blast
  have nd: "\<not> is_digit c \<and> c \<noteq> CHR ''.'' \<and> c \<noteq> CHR ''e'' \<and> c \<noteq> CHR ''E''" if "c \<in> set '',]}''" for c
    using that by (auto simp: is_digit_def)
  have stop: "takeWhile is_digit r = []"
    "r = [] \<or> (\<exists>d ds. r = d # ds \<and> \<not> is_digit d \<and> d \<noteq> CHR ''.'' \<and> d \<noteq> CHR ''e'' \<and> d \<noteq> CHR ''E'')"
    using assms(1) nd by (cases r; auto simp: json_stop_def)+
  have tw: "takeWhile is_digit (cs @ r) = cs" using s(3) stop(1) by (simp add: takeWhile_append list_all_iff)
  have m: "c \<noteq> CHR ''-''" using s(2) by (auto simp: is_digit_def)
  have v: "nat_of_digits (c # cs) = nat \<bar>i\<bar>" using nat_of_str_of_nat [of "nat \<bar>i\<bar>"] s(1) by simp
  have len: "length (c # cs) \<le> 4300" using assms(2) s(1) by simp
  have e: "str_of_int i = (if i < 0 then CHR ''-'' # c # cs else c # cs)"
    using s(1) by (cases "i < 0") (simp_all add: str_of_int_def)
  consider "r = []" | d ds where "r = d # ds" "\<not> is_digit d" "d \<noteq> CHR ''.''" "d \<noteq> CHR ''e''" "d \<noteq> CHR ''E''"
    using stop(2) by blast
  then show ?thesis
  proof cases
    case 1
    show ?thesis
      by (cases "i < 0"; cases "c = CHR ''0''")
        (use s(2,4) len v m 1 in \<open>simp_all add: json_number_def e Let_def tw [unfolded 1 append_Nil2]\<close>)
  next
    case 2
    show ?thesis
      by (cases "i < 0"; cases "c = CHR ''0''")
        (use s(2,4) len v m 2 in \<open>simp_all add: json_number_def e Let_def tw [unfolded 2(1)]\<close>)
  qed
qed


lemma json_str_start: "json_start (json_str s @ r)"
  by (simp add: json_start_def json_str_def json_ws_def)

lemma json_dumps_start: "json_dumps v = Inr t \<Longrightarrow> dumpable v \<Longrightarrow> json_start (t @ r)"
proof (cases v)
  case (PInt i)
  assume "json_dumps v = Inr t"
  then have t: "t = str_of_int i" using PInt by simp
  obtain c cs where s: "str_of_nat (nat \<bar>i\<bar>) = c # cs" "is_digit c" using str_of_nat_head by blast
  then have "c \<notin> set '',]} ''" "c \<notin> {CHR 0x09, CHR 0x0A, CHR 0x0D}" "c \<noteq> CHR ''-''" by (auto simp: is_digit_def)
  moreover have "t = (if i < 0 then CHR ''-'' # c # cs else c # cs)"
    using s(1) by (cases "i < 0") (simp_all add: t str_of_int_def)
  ultimately show ?thesis by (auto simp: json_start_def json_ws_def)
qed (auto simp: json_start_def json_ws_def json_str_def rmap_Inr_iff split: if_splits)

definition json_reads :: "pyval \<Rightarrow> string \<Rightarrow> bool" where
  "json_reads v t = (\<forall>n r. length t \<le> n \<longrightarrow> json_stop r \<longrightarrow> json_value n (t @ r) = Some (v, r))"

lemma json_items_read:
  assumes "list_all2 json_reads vs ts" and "vs \<noteq> []" and "\<forall>t\<in>set ts. \<forall>r. json_start (t @ r)"
    and "length (str_join '', '' ts) < n"
  shows "json_items n (str_join '', '' ts @ CHR '']'' # r) = Some (vs, r)"
  using assms
proof (induction vs arbitrary: ts n)
  case (Cons v vs)
  obtain t ts' where ts: "ts = t # ts'" "json_reads v t" "list_all2 json_reads vs ts'"
    using Cons.prems(1) by (cases ts) auto
  obtain m where n: "n = Suc m" using Cons.prems(4) by (cases n) auto
  show ?case
  proof (cases "vs = []")
    case True
    then have "json_value m (t @ CHR '']'' # r) = Some (v, CHR '']'' # r)"
      using ts Cons.prems(4) n by (auto simp: json_reads_def json_stop_def)
    then show ?thesis using True ts n by (simp add: json_ws_def)
  next
    case False
    then obtain t' ts'' where ts': "ts' = t' # ts''" using ts(3) by (cases ts') auto
    have j: "str_join '', '' ts = t @ '', '' @ str_join '', '' ts'" using ts ts' by simp
    have len: "length t \<le> m" "length (str_join '', '' ts') < m" using Cons.prems(4) n j by auto
    let ?rest = "str_join '', '' ts' @ CHR '']'' # r"
    have v: "json_value m (t @ '', '' @ ?rest) = Some (v, '', '' @ ?rest)"
      using ts(2) len(1) unfolding json_reads_def by (simp add: json_stop_def)
    have st: "json_start (str_join '', '' ts' @ x)" for x
      using Cons.prems(3) ts(1) ts' by (cases ts'') auto
    have "json_ws (CHR '' '' # ?rest) = ?rest" using st [of "CHR '']'' # r"] by (simp add: json_ws_def json_start_def)
    moreover have "json_items m ?rest = Some (vs, r)"
      using Cons.IH [OF ts(3) False _ len(2)] Cons.prems(3) ts(1) by auto
    ultimately show ?thesis using v by (simp add: j n json_ws_Cons)
  qed
qed simp

definition json_pair_text :: "string \<times> pyval \<Rightarrow> string \<Rightarrow> bool" where
  "json_pair_text kv u = (utf8_text (fst kv) \<and> (\<exists>t. u = json_str (fst kv) @ '': '' @ t \<and> json_reads (snd kv) t \<and> (\<forall>r. json_start (t @ r))))"

lemma json_pairs_read:
  assumes "list_all2 json_pair_text d ts" and "d \<noteq> []" and "length (str_join '', '' ts) < n"
  shows "json_pairs n (str_join '', '' ts @ CHR ''}'' # r) = Some (d, r)"
  using assms
proof (induction d arbitrary: ts n)
  case (Cons kv d)
  obtain u ts' where ts: "ts = u # ts'" "json_pair_text kv u" "list_all2 json_pair_text d ts'"
    using Cons.prems(1) by (cases ts) auto
  obtain k v where kv: "kv = (k, v)" by (cases kv)
  obtain t where t: "u = json_str k @ '': '' @ t" "json_reads v t" "\<And>r. json_start (t @ r)" "utf8_text k"
    using ts(2) kv by (auto simp: json_pair_text_def)
  obtain m where n: "n = Suc m" using Cons.prems(3) by (cases n) auto
  have q: "json_str k = CHR 0x22 # tl (json_str k)" by (simp add: json_str_def)
  have key: "json_string (length (tl (json_str k) @ x)) (tl (json_str k) @ x) = Some (k, x)" for x
    using json_string_str [OF t(4), of "length (tl (json_str k) @ x)" x] by simp
  have colon: "json_ws (CHR '':'' # x) = CHR '':'' # x" for x by (simp add: json_ws_def)
  have ws: "json_ws (CHR '' '' # t @ x) = t @ x" for x using t(3) [of x] by (simp add: json_ws_def json_start_def)
  have lenu: "length t < length u" using t(1) by (simp add: json_str_def)
  show ?case
  proof (cases "d = []")
    case True
    then have e: "str_join '', '' ts = u" using ts by simp
    have "json_value m (t @ CHR ''}'' # r) = Some (v, CHR ''}'' # r)"
      using t(2) Cons.prems(3) n lenu unfolding json_reads_def e by (simp add: json_stop_def)
    then show ?thesis using True key [of "'': '' @ t @ CHR ''}'' # r"]
      unfolding e t(1) n by (subst q) (simp add: colon ws kv json_ws_def [of "CHR ''}'' # r"])
  next
    case False
    then obtain u' ts'' where ts': "ts' = u' # ts''" using ts(3) by (cases ts') auto
    have j: "str_join '', '' ts = u @ '', '' @ str_join '', '' ts'" using ts ts' by simp
    have len: "length t \<le> m" "length (str_join '', '' ts') < m" using Cons.prems(3) n j lenu by auto
    let ?rest = "str_join '', '' ts' @ CHR ''}'' # r"
    have v: "json_value m (t @ '', '' @ ?rest) = Some (v, '', '' @ ?rest)"
      using t(2) len(1) unfolding json_reads_def by (simp add: json_stop_def)
    have "json_start (str_join '', '' ts' @ x)" for x
    proof -
      obtain k' t' where "u' = json_str k' @ t'" using ts(3) ts' by (cases d) (auto simp: json_pair_text_def)
      then show ?thesis using ts' json_str_start by (cases ts'') auto
    qed
    then have "json_ws (CHR '' '' # ?rest) = ?rest" by (simp add: json_ws_def json_start_def)
    moreover have "json_pairs m ?rest = Some (d, r)" by (rule Cons.IH [OF ts(3) False len(2)])
    ultimately show ?thesis using v key [of "'': '' @ t @ '', '' @ ?rest"]
      unfolding j t(1) n by (subst q) (simp add: colon ws kv json_ws_Cons)
  qed
qed simp


lemma dict_of_distinct: "distinct (map fst d) \<Longrightarrow> dict_of d = d"
proof -
  have set_new: "dict_set k v d = d @ [(k, v)]" if "k \<notin> set (map fst d)" for k v and d :: "('a \<times> 'b) list"
    using that by (induction d) auto
  have "dict_update d e = d @ e" if "distinct (map fst (d @ e))" for d e :: "('a \<times> 'b) list"
    using that by (induction e arbitrary: d) (auto simp: dict_update_def set_new)
  then show "distinct (map fst d) \<Longrightarrow> dict_of d = d" by (simp add: dict_of_def)
qed

lemma json_dumps_reads: "dumpable v \<Longrightarrow> json_dumps v = Inr t \<Longrightarrow> json_reads v t"
proof (induction v arbitrary: t)
  case (PInt i)
  have t: "t = str_of_int i" using PInt.prems by simp
  obtain c cs where s: "str_of_nat (nat \<bar>i\<bar>) = c # cs" "is_digit c" using str_of_nat_head by blast
  have t': "t = (if i < 0 then CHR ''-'' # c # cs else c # cs)"
    using s(1) by (cases "i < 0") (simp_all add: t str_of_int_def)
  have c: "c \<noteq> CHR ''n''" "c \<noteq> CHR ''t''" "c \<noteq> CHR ''f''" "c \<noteq> CHR 0x22" "c \<noteq> CHR ''[''" "c \<noteq> CHR ''{''"
    using s(2) by (auto simp: is_digit_def)
  show ?case unfolding json_reads_def
  proof (intro allI impI)
    fix n r assume a: "length t \<le> n" "json_stop r"
    then obtain m where n: "n = Suc m" using t' by (cases n) (auto split: if_splits)
    have "json_value n (t @ r) = json_number (t @ r)" unfolding n t' using c by simp
    then show "json_value n (t @ r) = Some (PInt i, r)" using json_number_int [OF a(2)] PInt.prems t by simp
  qed
next
  case (PStr s)
  then have t: "t = json_str s" and s: "utf8_text s" by auto
  have q: "json_str s = CHR 0x22 # tl (json_str s)" by (simp add: json_str_def)
  show ?case unfolding json_reads_def
  proof (intro allI impI)
    fix n r assume a: "length t \<le> n"
    then obtain m where n: "n = Suc m" using q t by (cases n) auto
    show "json_value n (t @ r) = Some (PStr s, r)"
      using json_string_str [OF s, of "length (tl (json_str s) @ r)" r] unfolding t n by (subst q) simp
  qed
next
  case (PList vs)
  obtain ts where ts: "mapM json_dumps vs = Inr ts" "t = ''['' @ str_join '', '' ts @ '']''"
    using PList.prems(2) by (auto simp: rmap_Inr_iff)
  have l: "list_all2 (\<lambda>v u. json_dumps v = Inr u) vs ts" using ts(1) by (simp add: mapM_list_all2)
  have d: "\<forall>v\<in>set vs. dumpable v" using PList.prems(1) by (simp add: list_all_iff)
  have reads: "list_all2 json_reads vs ts"
    using l PList.IH d by (auto simp: list_all2_conv_all_nth)
  have starts: "\<forall>u\<in>set ts. \<forall>r. json_start (u @ r)"
    using l d json_dumps_start by (fastforce simp: list_all2_conv_all_nth in_set_conv_nth)
  show ?case unfolding json_reads_def
  proof (intro allI impI)
    fix n r assume a: "length t \<le> n"
    then obtain m where n: "n = Suc m" using ts(2) by (cases n) auto
    show "json_value n (t @ r) = Some (PList vs, r)"
    proof (cases "vs = []")
      case True
      then show ?thesis using l by (simp add: ts(2) n json_ws_def)
    next
      case False
      let ?rest = "str_join '', '' ts @ CHR '']'' # r"
      obtain u us where u: "ts = u # us" using l False by (cases ts) auto
      then have "json_start ?rest" using starts by (cases us) auto
      then have w: "json_ws ?rest = ?rest" "\<not> (?rest \<noteq> [] \<and> hd ?rest = CHR '']'')" by (auto simp: json_start_def)
      have "json_items m ?rest = Some (vs, r)" using a ts(2) n by (intro json_items_read reads False starts) simp
      then show ?thesis using w by (simp add: ts(2) n Let_def)
    qed
  qed
next
  case (PDict d)
  let ?dump = "\<lambda>(k, v). rmap (\<lambda>t. json_str k @ '': '' @ t) (json_dumps v)"
  obtain ts where ts: "mapM ?dump d = Inr ts" "t = ''{'' @ str_join '', '' ts @ ''}''"
    using PDict.prems(2) by (auto simp: rmap_Inr_iff)
  have l: "list_all2 (\<lambda>kv u. ?dump kv = Inr u) d ts" using ts(1) by (simp add: mapM_list_all2)
  have dd: "\<forall>(k, v)\<in>set d. utf8_text k \<and> dumpable v" "distinct (map fst d)" using PDict.prems(1) by (simp_all add: list_all_iff)
  have "json_pair_text kv u" if kvd: "kv \<in> set d" and u: "?dump kv = Inr u" for kv u
  proof -
    obtain k v where kv: "kv = (k, v)" by (cases kv)
    obtain t' where t': "json_dumps v = Inr t'" "u = json_str k @ '': '' @ t'" using u kv by (auto simp: rmap_Inr_iff)
    have v: "utf8_text k" "dumpable v" using dd(1) kvd kv by auto
    have "json_reads v t'" using PDict.IH [of kv v] kvd kv v(2) t'(1) by simp
    then show ?thesis using t' v json_dumps_start by (auto simp: json_pair_text_def kv)
  qed
  then have reads: "list_all2 json_pair_text d ts"
    using l by (auto simp: list_all2_conv_all_nth)
  show ?case unfolding json_reads_def
  proof (intro allI impI)
    fix n r assume a: "length t \<le> n"
    then obtain m where n: "n = Suc m" using ts(2) by (cases n) auto
    show "json_value n (t @ r) = Some (PDict d, r)"
    proof (cases "d = []")
      case True
      then show ?thesis using l by (simp add: ts(2) n json_ws_def)
    next
      case False
      let ?rest = "str_join '', '' ts @ CHR ''}'' # r"
      obtain kv d' u us where u: "ts = u # us" "d = kv # d'" "json_pair_text kv u" using reads False by (cases ts; cases d) auto
      then have "json_start ?rest" using json_str_start by (cases us) (auto simp: json_pair_text_def)
      then have w: "json_ws ?rest = ?rest" "\<not> (?rest \<noteq> [] \<and> hd ?rest = CHR ''}'')" by (auto simp: json_start_def)
      have "json_pairs m ?rest = Some (d, r)" using a ts(2) n by (intro json_pairs_read reads False) simp
      then show ?thesis using w dict_of_distinct [OF dd(2)] by (simp add: ts(2) n Let_def)
    qed
  qed
next
  case (PNone)
  then show ?case unfolding json_reads_def by (auto simp: gr0_conv_Suc Suc_le_eq dest!: less_imp_Suc_add)
next
  case (PBool b)
  show ?case unfolding json_reads_def
  proof (intro allI impI)
    fix n r assume a: "length t \<le> n"
    then obtain m where n: "n = Suc m" using PBool by (cases n) (auto split: if_splits)
    show "json_value n (t @ r) = Some (PBool b, r)" using PBool by (cases b) (auto simp: n)
  qed
qed auto

text \<open>What is written is read back.\<close>

lemma json_loads_dumps: "dumpable v \<Longrightarrow> json_dumps v = Inr t \<Longrightarrow> json_loads t = Inr v"
proof -
  assume v: "dumpable v" "json_dumps v = Inr t"
  have "json_ws t = t" using json_dumps_start [OF v(2,1), of "[]"] by (simp add: json_start_def)
  moreover have "json_value (Suc (length t)) (t @ []) = Some (v, [])"
    using json_dumps_reads [OF v, unfolded json_reads_def, rule_format, of "Suc (length t)" "[]"]
    by (simp add: json_stop_def del: json_value.simps)
  ultimately show ?thesis by (simp add: json_loads_def json_ws_def)
qed

end
