(* ===== verification/CollectQueue.thy ===== *)
theory CollectQueue
  imports JsonDump "HOL-Library.Multiset"
begin

text \<open>
  The work queue of asynchronous collection (\<open>apps/api/src/constat_api/collect_queue.py\<close>).

  A \<open>work_item\<close> is one AWS account and region. The in-process queue keeps three lists:
  ready items, delayed items with the time before which they stay hidden, and the items in
  flight by receipt. Every operation holds the queue's lock, so an operation is one atomic
  step; times are readings of the monotonic clock in seconds and receipts are the fresh
  random identifiers of the caller. The contract that the worker relies on is the locale
  \<open>work_queue\<close>: it follows where every item is, as multisets.

  \<open>SQSQueue\<close> translates the same operations to calls of an SQS client, which is a
  parameter; a message body stands for the JSON value of its text.
\<close>

section \<open>Work items\<close>

record work_item =
  wi_job :: uuid
  wi_account :: string
  wi_region :: string
  wi_role_arn :: "string option"
  wi_external_id :: "string option"
  wi_name :: "string option"
  wi_types :: "string list option"
  wi_force :: bool
  wi_dry_run :: bool

definition item_to_dict :: "work_item \<Rightarrow> payload" where
  "item_to_dict i = [
    (''job_id'', PStr (uuid_str (wi_job i))),
    (''aws_account_id'', PStr (wi_account i)),
    (''region'', PStr (wi_region i)),
    (''role_arn'', pstr_opt (wi_role_arn i)),
    (''external_id'', pstr_opt (wi_external_id i)),
    (''name'', pstr_opt (wi_name i)),
    (''resource_types'', case wi_types i of None \<Rightarrow> PNone
       | Some ts \<Rightarrow> if ts = [] then PNone else PList (map PStr ts)),
    (''force'', PBool (wi_force i)),
    (''dry_run'', PBool (wi_dry_run i))]"

text \<open>\<open>UUID(s)\<close>: the prefixes \<open>urn:\<close> and \<open>uuid:\<close>, braces around and all hyphens are
  ignored; 32 hexadecimal digits remain. The underscores, signs and blanks that \<open>int(s, 16)\<close>
  would still accept among them are not read here.\<close>

fun str_remove :: "string \<Rightarrow> nat \<Rightarrow> string \<Rightarrow> string" where
  "str_remove sub k [] = []"
| "str_remove sub (Suc k) (c # cs) = str_remove sub k cs"
| "str_remove sub 0 (c # cs) = (if sub \<noteq> [] \<and> is_prefix_of sub (c # cs)
     then str_remove sub (length sub - 1) cs else c # str_remove sub 0 cs)"

definition strip_braces :: "string \<Rightarrow> string" where
  "strip_braces s = (let f = dropWhile (\<lambda>c. c = CHR ''{'' \<or> c = CHR ''}'') in rev (f (rev (f s))))"

definition nat_of_hex :: "string \<Rightarrow> nat option" where
  "nat_of_hex s = (if list_all (\<lambda>c. hex_val c \<noteq> None) s
     then Some (foldl (\<lambda>n c. 16 * n + the (hex_val c)) 0 s) else None)"

definition uuid_of_str :: "string \<Rightarrow> uuid res" where
  "uuid_of_str s =
    (let h = filter (\<lambda>c. c \<noteq> CHR ''-'') (strip_braces (str_remove ''uuid:'' 0 (str_remove ''urn:'' 0 s))) in
     if length h \<noteq> 32 then Inl ValueError
     else (case nat_of_hex h of None \<Rightarrow> Inl ValueError | Some n \<Rightarrow> Inr (of_nat n)))"

text \<open>\<open>from_dict\<close> on the messages that \<open>to_dict\<close> can write; a field of another JSON type,
  which the code passes on unchecked, stops the model with \<open>TypeError\<close>.\<close>

fun str_field :: "pyval \<Rightarrow> string res" where
  "str_field (PStr s) = Inr s"
| "str_field _ = Inl TypeError"

fun opt_field :: "pyval \<Rightarrow> string option res" where
  "opt_field PNone = Inr None"
| "opt_field (PStr s) = Inr (Some s)"
| "opt_field _ = Inl TypeError"

fun types_field :: "pyval \<Rightarrow> string list option res" where
  "types_field (PList vs) = (if vs = [] then Inr None else rmap Some (mapM str_field vs))"
| "types_field v = (if truthy v then Inl TypeError else Inr None)"

definition required :: "payload \<Rightarrow> string \<Rightarrow> pyval res" where
  "required d k = (case dict_get d k of None \<Rightarrow> Inl (KeyError k) | Some v \<Rightarrow> Inr v)"

definition uuid_field :: "pyval \<Rightarrow> uuid res" where
  "uuid_field v = (case v of PStr s \<Rightarrow> uuid_of_str s | _ \<Rightarrow> Inl AttributeError)"

definition item_from_dict :: "payload \<Rightarrow> work_item res" where
  "item_from_dict d =
    rbind (rbind (required d ''job_id'') uuid_field) (\<lambda>job.
    rbind (rbind (required d ''aws_account_id'') str_field) (\<lambda>account.
    rbind (rbind (required d ''region'') str_field) (\<lambda>region.
    rbind (opt_field (pget d ''role_arn'')) (\<lambda>role.
    rbind (opt_field (pget d ''external_id'')) (\<lambda>ext.
    rbind (opt_field (pget d ''name'')) (\<lambda>name.
    rbind (types_field (pget d ''resource_types'')) (\<lambda>types.
    Inr \<lparr>wi_job = job, wi_account = account, wi_region = region, wi_role_arn = role, wi_external_id = ext,
      wi_name = name, wi_types = types,
      wi_force = truthy (get_default d ''force'' (PBool False)),
      wi_dry_run = truthy (get_default d ''dry_run'' (PBool False))\<rparr>)))))))"

section \<open>The in-process queue\<close>

type_synonym receipt = string
type_synonym seconds = rat

record received =
  rc_receipt :: receipt
  rc_item :: work_item
  rc_attempts :: nat

record in_process_queue =
  q_maxsize :: nat
  q_ready :: "(receipt \<times> work_item \<times> nat) list"
  q_delayed :: "(seconds \<times> receipt \<times> work_item \<times> nat) list"
  q_in_flight :: "(receipt, work_item \<times> nat) dict"

definition new_queue :: "nat \<Rightarrow> in_process_queue" where
  "new_queue maxsize = \<lparr>q_maxsize = maxsize, q_ready = [], q_delayed = [], q_in_flight = []\<rparr>"

definition pending_count :: "in_process_queue \<Rightarrow> nat" where
  "pending_count q = length (q_ready q) + length (q_delayed q) + length (q_in_flight q)"

text \<open>\<open>send\<close>: all items or none. \<open>QueueFullError\<close> is backpressure. The receipts are the
  identifiers drawn for the items.\<close>

definition send :: "(receipt \<times> work_item) list \<Rightarrow> in_process_queue \<Rightarrow> in_process_queue res" where
  "send items q =
    (if items = [] then Inr q
     else if q_maxsize q < pending_count q + length items then Inl (RuntimeError ''QueueFullError'')
     else Inr (q\<lparr>q_ready := q_ready q @ map (\<lambda>(r, i). (r, i, 0)) items\<rparr>))"

text \<open>\<open>_promote_due\<close>: the delayed list is sorted by time.\<close>

definition promote_due :: "seconds \<Rightarrow> in_process_queue \<Rightarrow> in_process_queue" where
  "promote_due now q =
    (let due = takeWhile (\<lambda>(t, _). t \<le> now) (q_delayed q) in
     q\<lparr>q_ready := q_ready q @ map snd due, q_delayed := dropWhile (\<lambda>(t, _). t \<le> now) (q_delayed q)\<rparr>)"

definition deliver :: "receipt \<times> work_item \<times> nat \<Rightarrow> received" where
  "deliver = (\<lambda>(r, i, n). \<lparr>rc_receipt = r, rc_item = i, rc_attempts = n + 1\<rparr>)"

text \<open>One pass of the loop of \<open>receive\<close>: promote, then take up to \<open>max_items\<close>.\<close>

definition take_ready :: "nat \<Rightarrow> in_process_queue \<Rightarrow> received list \<times> in_process_queue" where
  "take_ready max_items q =
    (let out = map deliver (take max_items (q_ready q)) in
     (out, q\<lparr>q_ready := drop max_items (q_ready q),
        q_in_flight := foldl (\<lambda>d r. dict_set (rc_receipt r) (rc_item r, rc_attempts r) d) (q_in_flight q) out\<rparr>))"

definition poll :: "nat \<Rightarrow> seconds \<Rightarrow> in_process_queue \<Rightarrow> received list \<times> in_process_queue" where
  "poll max_items now q = take_ready max_items (promote_due now q)"

text \<open>\<open>receive\<close>: passes until something is ready or the deadline is over. Every pass reads
  the clock twice, to promote and to compare with the deadline; between two passes the
  lock is released and \<open>others\<close> is what other threads do to the queue. \<open>None\<close> means that
  the given clock readings are used up before the call returns.\<close>

fun receive ::
    "nat \<Rightarrow> seconds \<Rightarrow> (seconds \<times> seconds \<times> (in_process_queue \<Rightarrow> in_process_queue)) list \<Rightarrow>
     in_process_queue \<Rightarrow> (received list \<times> in_process_queue) option" where
  "receive max_items deadline [] q = None"
| "receive max_items deadline ((t1, t2, others) # passes) q =
    (let (out, q') = poll max_items t1 q in
     if out \<noteq> [] \<or> deadline \<le> t2 then Some (out, q')
     else receive max_items deadline passes (others q'))"

definition dict_pop :: "'k \<Rightarrow> ('k, 'v) dict \<Rightarrow> ('k, 'v) dict" where
  "dict_pop k d = filter (\<lambda>(k', _). k' \<noteq> k) d"

definition ack :: "receipt \<Rightarrow> in_process_queue \<Rightarrow> in_process_queue" where
  "ack receipt q = q\<lparr>q_in_flight := dict_pop receipt (q_in_flight q)\<rparr>"

text \<open>\<open>list.append\<close> and a stable \<open>sort\<close> by time: the new entry goes behind the equal ones.\<close>

fun insert_delayed :: "seconds \<times> 'a \<Rightarrow> (seconds \<times> 'a) list \<Rightarrow> (seconds \<times> 'a) list" where
  "insert_delayed e [] = [e]"
| "insert_delayed e (x # xs) = (if fst e < fst x then e # x # xs else x # insert_delayed e xs)"

definition nack :: "receipt \<Rightarrow> seconds \<Rightarrow> seconds \<Rightarrow> in_process_queue \<Rightarrow> in_process_queue" where
  "nack receipt delay now q = (case dict_get (q_in_flight q) receipt of
     None \<Rightarrow> q
   | Some (item, attempts) \<Rightarrow>
       q\<lparr>q_in_flight := dict_pop receipt (q_in_flight q),
         q_delayed := insert_delayed (now + max delay 0, receipt, item, attempts) (q_delayed q)\<rparr>)"

section \<open>The contract of a work queue\<close>

text \<open>\<open>owed q\<close> is the multiset of the items that the queue still owes a worker, in flight or
  not; \<open>flying q\<close> gives the item and the number of deliveries behind a receipt.\<close>

locale work_queue =
  fixes ok :: "'q \<Rightarrow> bool"
    and owed :: "'q \<Rightarrow> work_item multiset"
    and flying :: "'q \<Rightarrow> receipt \<Rightarrow> (work_item \<times> nat) option"
    and q_take :: "nat \<Rightarrow> seconds \<Rightarrow> 'q \<Rightarrow> received list \<times> 'q"
    and q_ack :: "receipt \<Rightarrow> 'q \<Rightarrow> 'q"
    and q_nack :: "receipt \<Rightarrow> seconds \<Rightarrow> seconds \<Rightarrow> 'q \<Rightarrow> 'q"
  assumes take_ok: "ok q \<Longrightarrow> q_take n t q = (out, q') \<Longrightarrow> ok q' \<and> owed q' = owed q"
    and take_flying: "ok q \<Longrightarrow> q_take n t q = (out, q') \<Longrightarrow>
      flying q' = flying q ++ map_of (map (\<lambda>r. (rc_receipt r, (rc_item r, rc_attempts r))) out)"
    and take_fresh: "ok q \<Longrightarrow> q_take n t q = (out, q') \<Longrightarrow>
      distinct (map rc_receipt out) \<and> (\<forall>r\<in>set out. flying q (rc_receipt r) = None)"
    and ack_flying: "ok q \<Longrightarrow> flying q r = Some (i, k) \<Longrightarrow>
      ok (q_ack r q) \<and> owed q = add_mset i (owed (q_ack r q)) \<and> flying (q_ack r q) = (flying q)(r := None)"
    and nack_flying: "ok q \<Longrightarrow> flying q r = Some (i, k) \<Longrightarrow>
      ok (q_nack r d t q) \<and> owed (q_nack r d t q) = owed q \<and> flying (q_nack r d t q) = (flying q)(r := None)"
begin

text \<open>Settling a batch: every received item is acked or nacked, each once.\<close>

fun settle :: "(received \<times> (seconds \<times> seconds) option) list \<Rightarrow> 'q \<Rightarrow> 'q" where
  "settle [] q = q"
| "settle ((r, None) # ds) q = settle ds (q_ack (rc_receipt r) q)"
| "settle ((r, Some (d, t)) # ds) q = settle ds (q_nack (rc_receipt r) d t q)"

definition acked_of :: "(received \<times> (seconds \<times> seconds) option) list \<Rightarrow> work_item multiset" where
  "acked_of ds = mset (map (\<lambda>(r, _). rc_item r) (filter (\<lambda>(r, d). d = None) ds))"

lemma settle_flying:
  assumes "ok q" and "distinct (map (\<lambda>(r, _). rc_receipt r) ds)"
    and "\<And>r d. (r, d) \<in> set ds \<Longrightarrow> flying q (rc_receipt r) = Some (rc_item r, rc_attempts r)"
  shows "ok (settle ds q) \<and> owed q = acked_of ds + owed (settle ds q) \<and>
    flying (settle ds q) = flying q |` (- set (map (\<lambda>(r, _). rc_receipt r) ds))"
  using assms
proof (induction ds arbitrary: q)
  case Nil
  then show ?case by (simp add: acked_of_def)
next
  case (Cons x ds)
  obtain r d where x: "x = (r, d)" by (cases x)
  let ?q = "case d of None \<Rightarrow> q_ack (rc_receipt r) q | Some (d, t) \<Rightarrow> q_nack (rc_receipt r) d t q"
  have f: "flying q (rc_receipt r) = Some (rc_item r, rc_attempts r)" using Cons.prems(3) x by auto
  have s: "settle ((r, d) # ds) q = settle ds ?q" by (cases d) auto
  have q: "ok ?q" "flying ?q = (flying q)(rc_receipt r := None)"
    "owed q = (if d = None then {#rc_item r#} else {#}) + owed ?q"
    using ack_flying [OF Cons.prems(1) f] nack_flying [OF Cons.prems(1) f] by (auto split: option.splits prod.splits)
  have rest: "flying ?q (rc_receipt r') = Some (rc_item r', rc_attempts r')" if "(r', d') \<in> set ds" for r' d'
  proof -
    have "rc_receipt r' \<noteq> rc_receipt r" using that Cons.prems(2) x by force
    then show ?thesis using that Cons.prems(3) [of r' d'] q(2) by simp
  qed
  have ih: "ok (settle ds ?q)" "owed ?q = acked_of ds + owed (settle ds ?q)"
    "flying (settle ds ?q) = flying ?q |` (- set (map (\<lambda>(r, _). rc_receipt r) ds))"
    using Cons.IH [OF q(1) _ rest] Cons.prems(2) x by auto
  have "acked_of (x # ds) = (if d = None then {#rc_item r#} else {#}) + acked_of ds"
    by (simp add: acked_of_def x)
  then show ?case using ih q by (simp add: s x ac_simps restrict_map_def fun_eq_iff)
qed

text \<open>A batch that is received and settled leaves nothing of it in flight, and the queue
  owes what it owed before less the acked items.\<close>

lemma take_settle:
  assumes "ok q" and "q_take n t q = (out, q')" and "map fst ds = out"
  shows "ok (settle ds q')" and "owed q = acked_of ds + owed (settle ds q')" and "flying (settle ds q') = flying q"
proof -
  let ?kv = "map (\<lambda>r. (rc_receipt r, (rc_item r, rc_attempts r))) out"
  note t = take_ok [OF assms(1,2)] take_flying [OF assms(1,2)] take_fresh [OF assms(1,2)]
  have keys: "map (\<lambda>(r, _). rc_receipt r) ds = map rc_receipt out"
    using assms(3) by (auto simp: comp_def case_prod_unfold)
  have d: "distinct (map fst ?kv)" using t(3) by (simp add: comp_def)
  have fl: "flying q' (rc_receipt r) = Some (rc_item r, rc_attempts r)" if "(r, x) \<in> set ds" for r x
  proof -
    have "r \<in> set out" using that assms(3) by force
    then have "map_of ?kv (rc_receipt r) = Some (rc_item r, rc_attempts r)"
      using d by (auto intro!: map_of_is_SomeI)
    then show ?thesis using t(2) by (simp add: map_add_Some_iff)
  qed
  have s: "ok (settle ds q') \<and> owed q' = acked_of ds + owed (settle ds q') \<and>
      flying (settle ds q') = flying q' |` (- set (map (\<lambda>(r, _). rc_receipt r) ds))"
    using t(1,3) keys by (intro settle_flying) (auto intro: fl)
  show "ok (settle ds q')" and "owed q = acked_of ds + owed (settle ds q')" using s t(1) by simp_all
  have dom: "dom (map_of ?kv) = set (map rc_receipt out)" by (force simp: dom_map_of_conv_image_fst)
  show "flying (settle ds q') = flying q"
  proof
    fix r
    show "flying (settle ds q') r = flying q r"
    proof (cases "r \<in> set (map rc_receipt out)")
      case True
      then show ?thesis using s keys t(3) by (auto simp: restrict_map_def)
    next
      case False
      then have "map_of ?kv r = None" using dom by auto
      then show ?thesis using s keys t(2) False by (simp add: restrict_map_def map_add_def)
    qed
  qed
qed

end

section \<open>The in-process queue fulfils it\<close>

definition receipts :: "in_process_queue \<Rightarrow> receipt list" where
  "receipts q = map fst (q_ready q) @ map (fst \<circ> snd) (q_delayed q) @ dict_keys (q_in_flight q)"

definition queue_ok :: "in_process_queue \<Rightarrow> bool" where
  "queue_ok q = (distinct (receipts q) \<and> sorted (map fst (q_delayed q)) \<and> pending_count q \<le> q_maxsize q)"

definition owed_items :: "in_process_queue \<Rightarrow> work_item multiset" where
  "owed_items q = mset (map (\<lambda>(r, i, n). i) (q_ready q)) + mset (map (\<lambda>(t, r, i, n). i) (q_delayed q)) +
     mset (map (\<lambda>(r, i, n). i) (q_in_flight q))"

definition flying_item :: "in_process_queue \<Rightarrow> receipt \<Rightarrow> (work_item \<times> nat) option" where
  "flying_item q r = dict_get (q_in_flight q) r"

lemma promote_due_facts:
  "receipts (promote_due now q) = map fst (q_ready q) @ map (fst \<circ> snd) (q_delayed q) @ dict_keys (q_in_flight q)"
  "owed_items (promote_due now q) = owed_items q" "pending_count (promote_due now q) = pending_count q"
  "q_in_flight (promote_due now q) = q_in_flight q" "q_maxsize (promote_due now q) = q_maxsize q"
proof -
  let ?P = "\<lambda>(t, _ :: receipt \<times> work_item \<times> nat). t \<le> now"
  have d: "takeWhile ?P (q_delayed q) @ dropWhile ?P (q_delayed q) = q_delayed q" by simp
  have m: "map f (takeWhile ?P (q_delayed q)) @ map f (dropWhile ?P (q_delayed q)) = map f (q_delayed q)" for f :: "_ \<Rightarrow> 'x"
    by (metis d map_append)
  show "receipts (promote_due now q) = map fst (q_ready q) @ map (fst \<circ> snd) (q_delayed q) @ dict_keys (q_in_flight q)"
    using m [of "fst \<circ> snd"] by (simp add: receipts_def promote_due_def)
  show "owed_items (promote_due now q) = owed_items q"
    using arg_cong [where f = mset, OF m [of "\<lambda>(t, r, i, n). i"]]
    by (simp add: owed_items_def promote_due_def comp_def case_prod_unfold)
  show "pending_count (promote_due now q) = pending_count q"
  proof -
    have "length (takeWhile ?P (q_delayed q)) + length (dropWhile ?P (q_delayed q)) = length (q_delayed q)"
      by (metis d length_append)
    then show ?thesis by (simp add: pending_count_def promote_due_def)
  qed
qed (simp_all add: promote_due_def)

lemma queue_ok_promote: "queue_ok q \<Longrightarrow> queue_ok (promote_due now q)"
proof -
  assume q: "queue_ok q"
  have "receipts (promote_due now q) = receipts q" by (simp only: promote_due_facts(1)) (simp only: receipts_def)
  moreover have "sorted (map fst (q_delayed (promote_due now q)))"
    using q by (auto simp: queue_ok_def promote_due_def dropWhile_eq_drop drop_map [symmetric] intro!: sorted_wrt_drop)
  ultimately show ?thesis using q by (simp add: queue_ok_def promote_due_facts)
qed

lemma foldl_dict_set_fresh:
  "distinct (dict_keys d @ map fst xs) \<Longrightarrow> foldl (\<lambda>d (k, v). dict_set k v d) d xs = d @ xs"
proof (induction xs arbitrary: d)
  case (Cons x xs)
  have app: "dict_set k v d = d @ [(k, v)]" if "k \<notin> set (dict_keys d)" for k v and d :: "('a, 'b) dict"
    using that by (induction d) (auto simp: dict_keys_def)
  show ?case using Cons by (cases x) (auto simp: app dict_keys_def)
qed simp

lemma take_ready_in_flight:
  assumes "distinct (receipts q)"
  shows "q_in_flight (snd (take_ready n q)) = q_in_flight q @ map (\<lambda>(r, i, k). (r, i, k + 1)) (take n (q_ready q))"
proof -
  let ?xs = "map (\<lambda>(r, i, k). (r, i, k + 1)) (take n (q_ready q))"
  have fst: "map fst ?xs = take n (map fst (q_ready q))" by (simp add: take_map comp_def case_prod_unfold)
  have "distinct (map fst (q_ready q))" "set (map fst (q_ready q)) \<inter> set (dict_keys (q_in_flight q)) = {}"
    "distinct (dict_keys (q_in_flight q))" using assms by (auto simp: receipts_def)
  then have "distinct (dict_keys (q_in_flight q) @ map fst ?xs)"
    unfolding fst by (auto simp: disjoint_iff dest: in_set_takeD)
  then have "foldl (\<lambda>d (k, v). dict_set k v d) (q_in_flight q) ?xs = q_in_flight q @ ?xs" by (rule foldl_dict_set_fresh)
  moreover have "foldl (\<lambda>d (k, v). dict_set k v d) d (map (\<lambda>(r, i, k). (r, i, k + 1)) ys) =
      foldl (\<lambda>d r. dict_set (rc_receipt r) (rc_item r, rc_attempts r) d) d (map deliver ys)" for d ys
    by (induction ys arbitrary: d) (auto simp: deliver_def)
  ultimately show ?thesis by (simp add: take_ready_def Let_def)
qed

lemma mset_take_drop: "mset (map f (take n xs)) + mset (map f (drop n xs)) = mset (map f xs)"
  by (metis append_take_drop_id map_append mset_append)

lemma take_ready_facts:
  assumes "queue_ok q" and "take_ready n q = (out, q')"
  shows "queue_ok q'" and "owed_items q' = owed_items q"
    and "q_in_flight q' = q_in_flight q @ map (\<lambda>r. (rc_receipt r, (rc_item r, rc_attempts r))) out"
    and "distinct (map rc_receipt out)" and "\<forall>r\<in>set out. flying_item q (rc_receipt r) = None"
    and "out = map deliver (take n (q_ready q))" and "q_ready q' = drop n (q_ready q)" and "q_maxsize q' = q_maxsize q"
    and "q_delayed q' = q_delayed q"
proof -
  have dist: "distinct (receipts q)" using assms(1) by (simp add: queue_ok_def)
  show out: "out = map deliver (take n (q_ready q))" and ready: "q_ready q' = drop n (q_ready q)"
    and delayed: "q_delayed q' = q_delayed q" and mx: "q_maxsize q' = q_maxsize q"
    using assms(2) by (auto simp: take_ready_def Let_def)
  have "map (\<lambda>r. (rc_receipt r, (rc_item r, rc_attempts r))) out = map (\<lambda>(r, i, k). (r, i, k + 1)) (take n (q_ready q))"
    by (auto simp: out deliver_def)
  then show fl: "q_in_flight q' = q_in_flight q @ map (\<lambda>r. (rc_receipt r, (rc_item r, rc_attempts r))) out"
    using take_ready_in_flight [OF dist, of n] assms(2) by simp
  have rc: "map rc_receipt out = take n (map fst (q_ready q))" by (auto simp: out deliver_def take_map)
  show "distinct (map rc_receipt out)" using dist unfolding rc by (simp add: receipts_def)
  show "\<forall>r\<in>set out. flying_item q (rc_receipt r) = None"
  proof
    fix r assume "r \<in> set out"
    then have "rc_receipt r \<in> set (take n (map fst (q_ready q)))" unfolding rc [symmetric] by simp
    then have "rc_receipt r \<in> set (map fst (q_ready q))" by (rule in_set_takeD)
    then have "rc_receipt r \<notin> set (dict_keys (q_in_flight q))" using dist by (auto simp: receipts_def)
    then show "flying_item q (rc_receipt r) = None"
      using dict_keys_iff [of "rc_receipt r" "q_in_flight q"]
      by (cases "dict_get (q_in_flight q) (rc_receipt r)") (auto simp: flying_item_def)
  qed
  have keys: "dict_keys (q_in_flight q') = dict_keys (q_in_flight q) @ take n (map fst (q_ready q))"
    unfolding fl by (simp add: dict_keys_def comp_def flip: rc)
  have "mset (receipts q') = mset (receipts q)"
    using mset_take_drop [of fst n "q_ready q"]
    by (simp add: receipts_def ready delayed keys take_map drop_map ac_simps)
  then have "distinct (receipts q')" using dist by (metis mset_eq_imp_distinct_iff)
  moreover have "pending_count q' = pending_count q"
  proof -
    have "length (q_in_flight q') = length (q_in_flight q) + min n (length (q_ready q))"
      unfolding fl out by (simp add: min.commute)
    then show ?thesis by (simp add: pending_count_def ready delayed)
  qed
  ultimately show "queue_ok q'" using assms(1) by (simp add: queue_ok_def delayed mx)
  have "mset (map (\<lambda>(r, i, n). i) (map (\<lambda>r. (rc_receipt r, (rc_item r, rc_attempts r))) out)) =
      mset (map (\<lambda>(r, i, n). i) (take n (q_ready q)))"
    by (simp add: out deliver_def comp_def case_prod_unfold)
  then show "owed_items q' = owed_items q"
    using mset_take_drop [of "\<lambda>(r, i, n). i" n "q_ready q"]
    by (simp add: owed_items_def ready delayed fl ac_simps del: map_map)
qed

lemma poll_facts:
  assumes "queue_ok q" and "poll n t q = (out, q')"
  shows "queue_ok q' \<and> owed_items q' = owed_items q"
    and "flying_item q' = flying_item q ++ map_of (map (\<lambda>r. (rc_receipt r, (rc_item r, rc_attempts r))) out)"
    and "distinct (map rc_receipt out) \<and> (\<forall>r\<in>set out. flying_item q (rc_receipt r) = None)"
proof -
  let ?p = "promote_due t q"
  have p: "queue_ok ?p" by (rule queue_ok_promote [OF assms(1)])
  have e: "take_ready n ?p = (out, q')" using assms(2) by (simp add: poll_def)
  note f = take_ready_facts [OF p e]
  show "queue_ok q' \<and> owed_items q' = owed_items q" using f(1,2) by (simp add: promote_due_facts)
  show dn: "distinct (map rc_receipt out) \<and> (\<forall>r\<in>set out. flying_item q (rc_receipt r) = None)"
    using f(4,5) by (simp add: flying_item_def promote_due_facts)
  let ?kv = "map (\<lambda>r. (rc_receipt r, (rc_item r, rc_attempts r))) out"
  show "flying_item q' = flying_item q ++ map_of ?kv"
  proof
    fix r
    have "flying_item q r = None" if "map_of ?kv r = Some v" for v
      using dn map_of_SomeD [OF that] by auto
    then show "flying_item q' r = (flying_item q ++ map_of ?kv) r"
      by (cases "map_of ?kv r"; cases "flying_item q r")
        (auto simp: flying_item_def f(3) promote_due_facts map_add_def)
  qed
qed

lemma dict_pop_facts:
  assumes "dict_wf d" and "dict_get d r = Some v"
  shows "dict_wf (dict_pop r d)" and "dict_get (dict_pop r d) = (dict_get d)(r := None)"
    and "mset (map f d) = add_mset (f (r, v)) (mset (map f (dict_pop r d)))"
    and "length d = Suc (length (dict_pop r d))"
    and "mset (dict_keys d) = add_mset r (mset (dict_keys (dict_pop r d)))"
proof -
  show "dict_get (dict_pop r d) = (dict_get d)(r := None)"
    by (induction d) (auto simp: dict_pop_def fun_eq_iff)
  have m: "mset d = add_mset (r, v) (mset (dict_pop r d))" if "dict_wf d" "dict_get d r = Some v" for d
    using that
  proof (induction d)
    case (Cons x d)
    obtain k w where x: "x = (k, w)" by (cases x)
    show ?case
    proof (cases "k = r")
      case True
      then have "filter (\<lambda>(k', _). k' \<noteq> r) d = d"
        using Cons.prems(1) x by (intro filter_True) (auto simp: image_iff)
      then show ?thesis using Cons.prems x True by (simp add: dict_pop_def)
    next
      case False
      then show ?thesis using Cons x by (auto simp: dict_pop_def add_mset_commute)
    qed
  qed simp
  have e: "mset (map f d) = add_mset (f (r, v)) (mset (map f (dict_pop r d)))" for f :: "_ \<Rightarrow> 'x"
    using m [OF assms] by simp
  show "mset (map f d) = add_mset (f (r, v)) (mset (map f (dict_pop r d)))" by (rule e)
  show k: "mset (dict_keys d) = add_mset r (mset (dict_keys (dict_pop r d)))"
    using e [of fst] by (simp add: dict_keys_def)
  show "length d = Suc (length (dict_pop r d))"
    using arg_cong [where f = size, OF m [OF assms]] by simp
  have "distinct (dict_keys (dict_pop r d))"
    using assms(1) by (auto simp: dict_wf_def dict_keys_def dict_pop_def distinct_map_filter)
  then show "dict_wf (dict_pop r d)" by (simp add: dict_wf_def)
qed

lemma insert_delayed_mset: "mset (map f (insert_delayed e xs)) = add_mset (f e) (mset (map f xs))"
  by (induction xs) (auto simp: add_mset_commute)

lemma insert_delayed_sorted: "sorted (map fst xs) \<Longrightarrow> sorted (map fst (insert_delayed e xs))"
proof (induction xs)
  case (Cons x xs)
  have "set (map fst (insert_delayed e xs)) = insert (fst e) (set (map fst xs))"
    using arg_cong [where f = set_mset, OF insert_delayed_mset [of fst e xs]] by simp
  then show ?case using Cons by (auto simp del: set_map)
qed simp

lemma in_flight_wf: "queue_ok q \<Longrightarrow> dict_wf (q_in_flight q)"
  by (simp add: queue_ok_def receipts_def dict_wf_def)

lemma ack_facts:
  assumes "queue_ok q" and "flying_item q r = Some (i, k)"
  shows "queue_ok (ack r q) \<and> owed_items q = add_mset i (owed_items (ack r q)) \<and>
    flying_item (ack r q) = (flying_item q)(r := None)"
proof -
  note d = dict_pop_facts [OF in_flight_wf [OF assms(1)] assms(2) [unfolded flying_item_def]]
  have "distinct (receipts (ack r q))"
  proof -
    have "mset (receipts q) = add_mset r (mset (receipts (ack r q)))"
      using d(5) by (simp add: receipts_def ack_def)
    then show ?thesis using assms(1) unfolding queue_ok_def
      by (metis distinct.simps(2) mset.simps(2) mset_eq_imp_distinct_iff)
  qed
  moreover have "pending_count (ack r q) \<le> q_maxsize (ack r q)"
    using assms(1) d(4) by (simp add: queue_ok_def pending_count_def ack_def)
  ultimately have "queue_ok (ack r q)" using assms(1) by (simp add: queue_ok_def ack_def)
  moreover have "owed_items q = add_mset i (owed_items (ack r q))"
    using d(3) [of "\<lambda>(r, i, n). i"] by (simp add: owed_items_def ack_def)
  moreover have "flying_item (ack r q) = (flying_item q)(r := None)"
    using d(2) by (simp add: flying_item_def ack_def fun_eq_iff)
  ultimately show ?thesis by blast
qed

lemma nack_facts:
  assumes "queue_ok q" and "flying_item q r = Some (i, k)"
  shows "queue_ok (nack r delay now q) \<and> owed_items (nack r delay now q) = owed_items q \<and>
    flying_item (nack r delay now q) = (flying_item q)(r := None)"
proof -
  note d = dict_pop_facts [OF in_flight_wf [OF assms(1)] assms(2) [unfolded flying_item_def]]
  let ?e = "(now + max delay 0, r, i, k)"
  have n: "nack r delay now q = q\<lparr>q_in_flight := dict_pop r (q_in_flight q), q_delayed := insert_delayed ?e (q_delayed q)\<rparr>"
    using assms(2) by (simp add: nack_def flying_item_def)
  have "mset (receipts (nack r delay now q)) = mset (receipts q)"
    using d(5) insert_delayed_mset [of "fst \<circ> snd" ?e "q_delayed q"] by (simp add: receipts_def n)
  then have "distinct (receipts (nack r delay now q))"
    using assms(1) unfolding queue_ok_def by (metis mset_eq_imp_distinct_iff)
  moreover have "length (insert_delayed ?e (q_delayed q)) = Suc (length (q_delayed q))"
    using arg_cong [where f = size, OF insert_delayed_mset [of id ?e "q_delayed q"]] by simp
  then have "pending_count (nack r delay now q) \<le> q_maxsize (nack r delay now q)"
    using assms(1) d(4) by (simp add: queue_ok_def pending_count_def n)
  ultimately have "queue_ok (nack r delay now q)"
    using assms(1) insert_delayed_sorted [of "q_delayed q" ?e] by (simp add: queue_ok_def n)
  moreover have "owed_items (nack r delay now q) = owed_items q"
    using d(3) [of "\<lambda>(r, i, n). i"] insert_delayed_mset [of "\<lambda>(t, r, i, n). i" ?e "q_delayed q"]
    by (simp add: owed_items_def n)
  moreover have "flying_item (nack r delay now q) = (flying_item q)(r := None)"
    using d(2) by (simp add: flying_item_def n fun_eq_iff)
  ultimately show ?thesis by blast
qed

interpretation ipq: work_queue queue_ok owed_items flying_item poll ack nack
proof
  fix q q' n t out
  assume q: "queue_ok q" "poll n t q = (out, q')"
  show "queue_ok q' \<and> owed_items q' = owed_items q" by (rule poll_facts(1) [OF q])
  show "flying_item q' = flying_item q ++ map_of (map (\<lambda>r. (rc_receipt r, rc_item r, rc_attempts r)) out)"
    by (rule poll_facts(2) [OF q])
  show "distinct (map rc_receipt out) \<and> (\<forall>r\<in>set out. flying_item q (rc_receipt r) = None)"
    by (rule poll_facts(3) [OF q])
next
  fix q r i k
  assume q: "queue_ok q" "flying_item q r = Some (i, k)"
  show "queue_ok (ack r q) \<and> owed_items q = add_mset i (owed_items (ack r q)) \<and> flying_item (ack r q) = (flying_item q)(r := None)"
    by (rule ack_facts [OF q])
  show "queue_ok (nack r d t q) \<and> owed_items (nack r d t q) = owed_items q \<and> flying_item (nack r d t q) = (flying_item q)(r := None)" for d t
    by (rule nack_facts [OF q])
qed

section \<open>All that a queue can go through\<close>

text \<open>A run of the queue: the capacity, its state, the items accepted by \<open>send\<close>, the items
  acked, and the receipts delivered, latest first. Receipts of \<open>send\<close> are fresh, and a second
  ack or a nack of a receipt that is not in flight is a no-op.\<close>

inductive queue_run :: "nat \<Rightarrow> in_process_queue \<Rightarrow> work_item multiset \<Rightarrow> work_item multiset \<Rightarrow> receipt list \<Rightarrow> bool" where
  start: "queue_run m (new_queue m) {#} {#} []"
| run_send: "queue_run m q sent acked hist \<Longrightarrow> distinct (map fst items) \<Longrightarrow>
    set (map fst items) \<inter> (set (receipts q) \<union> set hist) = {} \<Longrightarrow> send items q = Inr q' \<Longrightarrow>
    queue_run m q' (sent + mset (map snd items)) acked hist"
| run_poll: "queue_run m q sent acked hist \<Longrightarrow> poll n t q = (out, q') \<Longrightarrow>
    queue_run m q' sent acked (rev (map rc_receipt out) @ hist)"
| run_ack: "queue_run m q sent acked hist \<Longrightarrow> 
    queue_run m (ack r q) sent (case flying_item q r of None \<Rightarrow> acked | Some (i, _) \<Rightarrow> add_mset i acked) hist"
| run_nack: "queue_run m q sent acked hist \<Longrightarrow> queue_run m (nack r delay now q) sent acked hist"

inductive_cases queue_runE: "queue_run m q sent acked hist"

definition entries :: "in_process_queue \<Rightarrow> (receipt \<times> work_item \<times> nat) multiset" where
  "entries q = mset (q_ready q) + mset (map snd (q_delayed q)) + mset (q_in_flight q)"

definition attempts_ok :: "receipt list \<Rightarrow> in_process_queue \<Rightarrow> bool" where
  "attempts_ok hist q = (\<forall>(r, i, n)\<in>#entries q. n = count_list hist r)"

lemma mset_receipts: "mset (receipts q) = image_mset fst (entries q)"
  by (simp add: receipts_def entries_def dict_keys_def image_mset.compositionality comp_def)

lemma owed_entries: "owed_items q = image_mset (fst \<circ> snd) (entries q)"
  by (simp add: owed_items_def entries_def image_mset.compositionality comp_def case_prod_unfold)

lemma ack_unknown: "flying_item q r = None \<Longrightarrow> ack r q = q"
proof -
  assume "flying_item q r = None"
  then have "r \<notin> set (dict_keys (q_in_flight q))" by (simp add: flying_item_def dict_keys_iff)
  then have "dict_pop r (q_in_flight q) = q_in_flight q"
    unfolding dict_pop_def by (intro filter_True) (force simp: dict_keys_def)
  then show ?thesis by (simp add: ack_def)
qed

lemma nack_unknown: "flying_item q r = None \<Longrightarrow> nack r d t q = q"
  by (simp add: nack_def flying_item_def)

lemma send_facts:
  assumes "queue_ok q" and "distinct (map fst items)" and "set (map fst items) \<inter> set (receipts q) = {}"
    and "send items q = Inr q'"
  shows "queue_ok q'" and "entries q' = entries q + mset (map (\<lambda>(r, i). (r, i, 0)) items)"
    and "owed_items q' = owed_items q + mset (map snd items)" and "q_maxsize q' = q_maxsize q"
proof -
  show e: "entries q' = entries q + mset (map (\<lambda>(r, i). (r, i, 0)) items)" and mx: "q_maxsize q' = q_maxsize q"
    using assms(4) by (auto simp: send_def entries_def split: if_splits)
  show "owed_items q' = owed_items q + mset (map snd items)"
    unfolding owed_entries e by (simp add: image_mset.compositionality comp_def case_prod_unfold)
  have "mset (receipts q') = mset (receipts q @ map fst items)"
    unfolding mset_append mset_receipts e by (simp add: image_mset.compositionality comp_def case_prod_unfold)
  moreover have "distinct (receipts q @ map fst items)" using assms(1-3) by (auto simp: queue_ok_def)
  ultimately have "distinct (receipts q')" by (metis mset_eq_imp_distinct_iff)
  moreover have "pending_count q' \<le> q_maxsize q'" "q_delayed q' = q_delayed q"
    using assms(1,4) by (auto simp: send_def queue_ok_def pending_count_def split: if_splits)
  ultimately show "queue_ok q'" using assms(1) by (simp add: queue_ok_def)
qed

lemma promote_entries: "entries (promote_due t q) = entries q"
proof -
  let ?P = "\<lambda>(t', _ :: receipt \<times> work_item \<times> nat). t' \<le> t"
  have "mset (map snd (takeWhile ?P (q_delayed q))) + mset (map snd (dropWhile ?P (q_delayed q))) = mset (map snd (q_delayed q))"
    by (metis takeWhile_dropWhile_id map_append mset_append)
  then show ?thesis by (simp add: entries_def promote_due_def ac_simps)
qed

lemma count_rev_distinct: "distinct xs \<Longrightarrow> x \<in> set xs \<Longrightarrow> count_list (rev xs) x = 1"
  by (induction xs) (auto simp: count_list_0_iff)

lemma poll_attempts:
  assumes "queue_ok q" and "poll n t q = (out, q')" and "attempts_ok hist q"
  shows "attempts_ok (rev (map rc_receipt out) @ hist) q'"
proof -
  let ?p = "promote_due t q" and ?inc = "map (\<lambda>(r, i, k). (r, i, k + 1))"
  let ?tk = "take n (q_ready ?p)"
  have p: "queue_ok ?p" by (rule queue_ok_promote [OF assms(1)])
  have e: "take_ready n ?p = (out, q')" using assms(2) by (simp add: poll_def)
  note f = take_ready_facts [OF p e]
  have "map (\<lambda>r. (rc_receipt r, rc_item r, rc_attempts r)) out = ?inc ?tk" unfolding f(6) by (auto simp: deliver_def)
  then have fl: "q_in_flight q' = q_in_flight ?p @ ?inc ?tk" using f(3) by simp
  have rc: "map rc_receipt out = map fst ?tk" by (simp add: f(6) deliver_def comp_def case_prod_unfold)
  let ?rest = "mset (drop n (q_ready ?p)) + mset (map snd (q_delayed ?p)) + mset (q_in_flight ?p)"
  have spl: "mset ?tk + mset (drop n (q_ready ?p)) = mset (q_ready ?p)"
    by (metis append_take_drop_id mset_append)
  have old: "entries q = mset ?tk + ?rest" using spl promote_entries [of t q] by (simp add: entries_def ac_simps)
  have new: "entries q' = mset (?inc ?tk) + ?rest" by (simp add: entries_def f(7,9) fl)
  have d: "distinct (map fst ?tk)" using f(4) by (simp add: rc)
  have dd: "distinct (receipts q)" using assms(1) by (simp add: queue_ok_def)
  have dj: "r \<notin> fst ` set ?tk" if "(r, i, k) \<in># ?rest" for r i k
  proof
    assume "r \<in> fst ` set ?tk"
    then have "count (image_mset fst (mset ?tk)) r > 0" by simp
    moreover have "count (image_mset fst ?rest) r > 0"
      using that by (metis count_greater_zero_iff fst_conv imageI set_image_mset)
    moreover have "count (mset (receipts q)) r = count (image_mset fst (mset ?tk)) r + count (image_mset fst ?rest) r"
      by (simp only: mset_receipts old image_mset_union count_union)
    ultimately have "count (mset (receipts q)) r \<ge> 2" by linarith
    then show False using dd by (simp add: distinct_count_atmost_1 split: if_splits)
  qed
  show ?thesis unfolding attempts_ok_def
  proof clarify
    fix r i k assume m: "(r, i, k) \<in># entries q'"
    have in_old: "j = count_list hist r" if "(r, i, j) \<in># entries q" for j using that assms(3) by (auto simp: attempts_ok_def)
    show "k = count_list (rev (map rc_receipt out) @ hist) r"
    proof (cases "(r, i, k) \<in># ?rest")
      case True
      then have "r \<notin> fst ` set ?tk" and "k = count_list hist r" using dj in_old old by auto
      then show ?thesis by (simp add: rc)
    next
      case False
      then have "(r, i, k) \<in> set (?inc ?tk)" using m new by auto
      then obtain j where j: "(r, i, j) \<in> set ?tk" "k = j + 1" by auto
      then have "j = count_list hist r" using in_old old by auto
      moreover have "count_list (rev (map fst ?tk)) r = 1" using j(1) by (intro count_rev_distinct d) force
      ultimately show ?thesis using j(2) by (simp add: rc)
    qed
  qed
qed

lemma pop_entries:
  assumes "queue_ok q" and "flying_item q r = Some (i, k)"
  shows "entries q = add_mset (r, i, k) (entries (ack r q))" and "entries (nack r d t q) = entries q"
proof -
  note p = dict_pop_facts(3) [OF in_flight_wf [OF assms(1)] assms(2) [unfolded flying_item_def], where f = id]
  show "entries q = add_mset (r, i, k) (entries (ack r q))" using p by (simp add: entries_def ack_def)
  show "entries (nack r d t q) = entries q"
    using p assms(2) insert_delayed_mset [of snd "(t + max d 0, r, i, k)" "q_delayed q"]
    by (simp add: entries_def nack_def flying_item_def)
qed

lemma queue_run_inv:
  assumes "queue_run m q sent acked hist"
  shows "queue_ok q \<and> q_maxsize q = m \<and> sent = owed_items q + acked \<and> attempts_ok hist q"
  using assms
proof induction
  case (start m)
  show ?case by (simp add: queue_ok_def new_queue_def receipts_def dict_keys_def pending_count_def owed_items_def attempts_ok_def entries_def)
next
  case (run_send m q sent acked hist items q')
  have d: "set (map fst items) \<inter> set (receipts q) = {}" using run_send.hyps by blast
  note f = send_facts [OF _ run_send.hyps(2) d run_send.hyps(4)]
  have "attempts_ok hist q'"
  proof -
    have "count_list hist r = 0" if "(r, i) \<in> set items" for r i
      using that run_send.hyps(3) by (force simp: count_list_0_iff)
    then show ?thesis using run_send.IH f(2) by (auto simp: attempts_ok_def)
  qed
  then show ?case using run_send.IH f by (simp add: ac_simps)
next
  case (run_poll m q sent acked hist n t out q')
  have "q_maxsize q' = q_maxsize q" using run_poll.hyps(2) by (auto simp: poll_def take_ready_def promote_due_def Let_def)
  then show ?case using run_poll poll_facts(1) poll_attempts by metis
next
  case (run_ack m q sent acked hist r)
  then show ?case
  proof (cases "flying_item q r")
    case None
    then show ?thesis using run_ack by (simp add: ack_unknown)
  next
    case (Some x)
    obtain i k where x: "x = (i, k)" by (cases x)
    have q: "queue_ok q" using run_ack by simp
    have "q_maxsize (ack r q) = q_maxsize q" by (simp add: ack_def)
    then show ?thesis using run_ack.IH Some x ack_facts [OF q, of r i k] pop_entries(1) [OF q, of r i k]
      by (auto simp: attempts_ok_def)
  qed
next
  case (run_nack m q sent acked hist r delay now)
  then show ?case
  proof (cases "flying_item q r")
    case None
    then show ?thesis using run_nack by (simp add: nack_unknown)
  next
    case (Some x)
    obtain i k where x: "x = (i, k)" by (cases x)
    have q: "queue_ok q" using run_nack by simp
    have "q_maxsize (nack r delay now q) = q_maxsize q" by (simp add: nack_def split: option.splits)
    then show ?thesis using run_nack.IH Some x nack_facts [OF q, of r i k] pop_entries(2) [OF q, of r i k]
      by (simp add: attempts_ok_def)
  qed
qed

section \<open>Delivery and waiting\<close>

lemma takeWhile_sorted_due:
  assumes "sorted (map fst xs)" and "x \<in> set xs"
  shows "x \<in> set (takeWhile (\<lambda>(t', _). t' \<le> t) xs) \<longleftrightarrow> fst x \<le> (t :: rat)"
  using assms
proof (induction xs)
  case (Cons y ys)
  show ?case
  proof (cases "fst y \<le> t")
    case True
    then show ?thesis using Cons by (cases y) auto
  next
    case False
    then have "\<not> fst x \<le> t" using Cons.prems by fastforce
    then show ?thesis using False by (cases y) auto
  qed
qed simp

lemma entries_keys: "r \<in> set (receipts q) \<longleftrightarrow> (\<exists>i k. (r, i, k) \<in># entries q)"
proof -
  have "r \<in> set (receipts q) \<longleftrightarrow> r \<in># mset (receipts q)" by simp
  then show ?thesis unfolding mset_receipts by force
qed

lemma insert_delayed_set: "set (insert_delayed e xs) = insert e (set xs)"
proof -
  have "mset (insert_delayed e xs) = add_mset e (mset xs)" using insert_delayed_mset [of id e xs] by simp
  then show ?thesis by (metis set_mset_add_mset_insert set_mset_mset)
qed

lemma due_item_ready:
  assumes "queue_ok q" and "flying_item q r = Some (i, k)"
  shows "(\<exists>y. (r, y) \<in> set (q_ready (promote_due t' (nack r d t q)))) \<longleftrightarrow> t + max d 0 \<le> t'"
    and "t + max d 0 \<le> t' \<Longrightarrow> (r, i, k) \<in> set (q_ready (promote_due t' (nack r d t q)))"
proof -
  let ?e = "(t + max d 0, r, i, k)" and ?q = "nack r d t q"
  have q: "queue_ok ?q" using nack_facts [OF assms] by blast
  have del: "q_delayed ?q = insert_delayed ?e (q_delayed q)" and rd: "q_ready ?q = q_ready q"
    using assms(2) by (simp_all add: nack_def flying_item_def)
  have e: "?e \<in> set (q_delayed ?q)" by (simp add: del insert_delayed_set)
  have s: "sorted (map fst (q_delayed ?q))" using q by (simp add: queue_ok_def)
  have r: "q_ready (promote_due t' ?q) = q_ready ?q @ map snd (takeWhile (\<lambda>(u, _). u \<le> t') (q_delayed ?q))"
    by (simp add: promote_due_def)
  have due: "?e \<in> set (takeWhile (\<lambda>(u, _). u \<le> t') (q_delayed ?q)) \<longleftrightarrow> t + max d 0 \<le> t'"
    using takeWhile_sorted_due [OF s e, of t'] by simp
  then show "t + max d 0 \<le> t' \<Longrightarrow> (r, i, k) \<in> set (q_ready (promote_due t' ?q))"
    unfolding r by force
  have d: "distinct (receipts ?q)" using q by (simp add: queue_ok_def)
  have nr: "(r, y) \<notin> set (q_ready ?q)" for y
  proof
    assume "(r, y) \<in> set (q_ready ?q)"
    then have "r \<in> set (map fst (q_ready ?q))" by force
    moreover have "r \<in> set (map (fst \<circ> snd) (q_delayed ?q))" using e by force
    ultimately show False using d by (auto simp: receipts_def)
  qed
  have one: "x = ?e" if "x \<in> set (q_delayed ?q)" "fst (snd x) = r" for x
    using d e that unfolding receipts_def distinct_append distinct_map inj_on_def
    by (metis (no_types, lifting) comp_apply fst_conv snd_conv)
  show "(\<exists>y. (r, y) \<in> set (q_ready (promote_due t' ?q))) \<longleftrightarrow> t + max d 0 \<le> t'"
  proof
    assume "\<exists>y. (r, y) \<in> set (q_ready (promote_due t' ?q))"
    then obtain x where x: "x \<in> set (takeWhile (\<lambda>(u, _). u \<le> t') (q_delayed ?q))" "fst (snd x) = r"
      using nr unfolding r by auto
    then have "x = ?e" using one set_takeWhileD [OF x(1)] by blast
    then show "t + max d 0 \<le> t'" using due x(1) by simp
  next
    assume "t + max d 0 \<le> t'"
    then show "\<exists>y. (r, y) \<in> set (q_ready (promote_due t' ?q))" using due unfolding r by force
  qed
qed

text \<open>C28: A failed item comes back after its delay and not before: a receive that can take
  all items and looks at time \<open>t'\<close> delivers the nacked item, with one more attempt, if and
  only if the delay is over; no item waits behind a later one.\<close>

theorem nacked_item_returns:
  assumes "queue_ok q" and "flying_item q r = Some (i, k)" and "pending_count q \<le> n"
  shows "(t + max d 0 \<le> t' \<longrightarrow> \<lparr>rc_receipt = r, rc_item = i, rc_attempts = k + 1\<rparr> \<in> set (fst (poll n t' (nack r d t q)))) \<and>
    (t' < t + max d 0 \<longrightarrow> r \<notin> rc_receipt ` set (fst (poll n t' (nack r d t q))))"
proof -
  let ?q = "nack r d t q"
  let ?p = "promote_due t' ?q"
  note f = due_item_ready [OF assms(1,2), where t = t and t' = t' and d = d]
  have "size (owed_items ?q) = size (owed_items q)" using nack_facts [OF assms(1,2)] by simp
  then have "pending_count ?q = pending_count q" by (simp add: owed_items_def pending_count_def)
  then have "length (q_ready ?p) \<le> n" using assms(3) promote_due_facts(3) [of t' ?q] by (simp add: pending_count_def)
  then have out: "fst (poll n t' ?q) = map deliver (q_ready ?p)" by (simp add: poll_def take_ready_def Let_def)
  show ?thesis
  proof (intro conjI impI)
    assume "t + max d 0 \<le> t'"
    then have "deliver (r, i, k) \<in> set (fst (poll n t' ?q))" unfolding out using f(2) by simp
    then show "\<lparr>rc_receipt = r, rc_item = i, rc_attempts = k + 1\<rparr> \<in> set (fst (poll n t' ?q))" by (simp add: deliver_def)
  next
    assume "t' < t + max d 0"
    then have "(r, y) \<notin> set (q_ready ?p)" for y using f(1) by (metis not_le)
    then show "r \<notin> rc_receipt ` set (fst (poll n t' ?q))" unfolding out by (force simp: deliver_def)
  qed
qed

definition sample_item :: work_item where
  "sample_item = \<lparr>wi_job = 7, wi_account = ''123456789012'', wi_region = ''eu-west-1'', wi_role_arn = None,
     wi_external_id = None, wi_name = Some ''prod'', wi_types = Some [''rds''], wi_force = False, wi_dry_run = False\<rparr>"

definition sample_queue :: in_process_queue where
  "sample_queue = \<lparr>q_maxsize = 3, q_ready = [(''b'', sample_item, 0)], q_delayed = [], q_in_flight = [(''a'', sample_item, 1)]\<rparr>"

lemma sample_queue_ok: "queue_ok sample_queue"
  by (simp add: queue_ok_def sample_queue_def receipts_def dict_keys_def pending_count_def)

theorem nacked_item_returns_witness:
  "\<lparr>rc_receipt = ''a'', rc_item = sample_item, rc_attempts = 2\<rparr> \<in> set (fst (poll 2 31 (nack ''a'' 30 1 sample_queue)))"
  using nacked_item_returns [OF sample_queue_ok, of "''a''" sample_item 1 2 1 30 31]
  by (simp add: sample_queue_def flying_item_def pending_count_def numeral_2_eq_2)

text \<open>C5: What a queue can go through keeps the accounts: every accepted item is still owed
  or was acked, the capacity bounds ready, delayed and in-flight items together, no
  receipt is shared, and the attempts of an item count its deliveries.\<close>

theorem queue_run_accounts:
  assumes "queue_run m q sent acked hist"
  shows "sent = owed_items q + acked \<and> pending_count q \<le> m \<and> distinct (receipts q) \<and>
    (\<forall>(r, i, n)\<in>set (q_in_flight q). n = count_list hist r)"
  using queue_run_inv [OF assms] by (auto simp: queue_ok_def attempts_ok_def entries_def)

theorem queue_run_accounts_witness:
  "(\<lambda>q. size (owed_items q) \<le> 1 \<and> distinct (receipts q))
     (nack ''a'' 30 2 (snd (poll 1 0 \<lparr>q_maxsize = 1, q_ready = [(''a'', sample_item, 0)], q_delayed = [], q_in_flight = []\<rparr>)))"
proof -
  let ?q = "\<lparr>q_maxsize = 1, q_ready = [(''a'', sample_item, 0)], q_delayed = [], q_in_flight = []\<rparr>"
  have "queue_run 1 ?q ({#} + mset (map snd [(''a'', sample_item)])) {#} []"
    by (rule run_send [OF start]) (simp_all add: send_def new_queue_def receipts_def dict_keys_def pending_count_def)
  then have "queue_run 1 (nack ''a'' 30 2 (snd (poll 1 0 ?q))) ({#} + mset (map snd [(''a'', sample_item)])) {#}
      (rev (map rc_receipt (fst (poll 1 0 ?q))) @ [])"
    by (intro run_nack run_poll) simp_all
  from queue_run_accounts [OF this] show ?thesis by (auto simp: owed_items_def pending_count_def)
qed



lemma json_dumps_total: "dumpable v \<Longrightarrow> \<exists>t. json_dumps v = Inr t"
proof (induction v)
  case (PList vs)
  then have "\<exists>ts. mapM json_dumps vs = Inr ts" by (auto simp: mapM_Inr_iff list_all_iff)
  then show ?case by auto
next
  case (PDict d)
  have "\<exists>ts. mapM (\<lambda>(k, v). rmap (\<lambda>t. json_str k @ '': '' @ t) (json_dumps v)) d = Inr ts"
  unfolding mapM_Inr_iff
  proof
    fix kv assume kv: "kv \<in> set d"
    obtain k v where e: "kv = (k, v)" by (cases kv)
    have "dumpable v" using PDict.prems kv e by (auto simp: list_all_iff)
    then obtain t where "json_dumps v = Inr t" using PDict.IH [of kv v] kv e by auto
    then show "\<exists>y. (case kv of (k, v) \<Rightarrow> rmap (\<lambda>t. json_str k @ '': '' @ t) (json_dumps v)) = Inr y" by (simp add: e)
  qed
  then show ?case by auto
qed auto

section \<open>The wire format\<close>

definition item_body :: "work_item \<Rightarrow> string res" where
  "item_body i = json_dumps (PDict (item_to_dict i))"

text \<open>\<open>WorkItem.from_dict(json.loads(body))\<close>: subscripting a value that is no dictionary
  with a string raises \<open>TypeError\<close>.\<close>

definition item_of_body :: "string \<Rightarrow> work_item res" where
  "item_of_body b = rbind (json_loads b) (\<lambda>v. case v of PDict d \<Rightarrow> item_from_dict d | _ \<Rightarrow> Inl TypeError)"

lemma str_remove_none: "c \<in> set sub \<Longrightarrow> c \<notin> set s \<Longrightarrow> str_remove sub 0 s = s"
proof (induction s)
  case (Cons a s)
  have "\<not> is_prefix_of sub (a # s)"
  proof
    assume "is_prefix_of sub (a # s)"
    then obtain z where "a # s = sub @ z" by (auto simp: is_prefix_of_iff)
    then have "c \<in> set (a # s)" using Cons.prems(1) by (metis UnI1 set_append)
    then show False using Cons.prems(2) by simp
  qed
  then show ?case using Cons by simp
qed simp

lemma hex_digit_in: "m < 16 \<Longrightarrow> hex_digit m \<in> set ''0123456789abcdef''"
  by (simp only: hex_digit_def) (rule nth_mem, simp)

lemma hex_of_chars: "c \<in> set (hex_of k n) \<Longrightarrow> c \<in> set ''0123456789abcdef''"
  using hex_digit_in by (auto simp only: hex_of_def set_map image_iff mod_less_divisor zero_less_numeral)

lemma foldl_hex:
  assumes "n < 16 ^ k"
  shows "foldl (\<lambda>a c. 16 * a + the (hex_val c)) 0 (hex_of k n) = n"
proof -
  have "foldl (\<lambda>a c. 16 * a + the (hex_val c)) 0 (map (\<lambda>i. hex_digit (n div 16 ^ (k - 1 - i) mod 16)) [0..<j]) = n div 16 ^ (k - j)"
    if "j \<le> k" for j
    using that
  proof (induction j)
    case 0
    then show ?case using assms by simp
  next
    case (Suc j)
    define p where "p = k - Suc j"
    have e: "k - 1 - j = p" "k - j = Suc p" using Suc.prems by (simp_all add: p_def)
    have "n div 16 ^ Suc p = n div 16 ^ p div 16" by (simp only: power_Suc2 div_mult2_eq)
    then have d: "16 * (n div 16 ^ Suc p) + n div 16 ^ p mod 16 = n div 16 ^ p" by simp
    have "foldl (\<lambda>a c. 16 * a + the (hex_val c)) 0 (map (\<lambda>i. hex_digit (n div 16 ^ (k - 1 - i) mod 16)) [0..<j]) = n div 16 ^ Suc p"
      using Suc e(2) by simp
    moreover have "hex_val (hex_digit (n div 16 ^ p mod 16)) = Some (n div 16 ^ p mod 16)" by (rule hex_val_digit) simp
    ultimately show ?case using d by (simp only: upt_Suc_append [OF le0] map_append foldl_append list.map foldl.simps e p_def [symmetric] option.sel)
  qed
  from this [of k] show ?thesis by (simp add: hex_of_def)
qed

lemma uuid_str_chars: "set (uuid_str u) \<subseteq> insert CHR ''-'' (set (hex_of 32 (unat u)))"
proof -
  define h where "h = hex_of 32 (unat u)"
  have s: "set (take a (drop b h)) \<subseteq> set h" for a b by (meson set_take_subset set_drop_subset subset_trans)
  show ?thesis unfolding uuid_str_def h_def [symmetric] Let_def set_append
    by (simp add: s subset_insertI2 set_take_subset set_drop_subset)
qed

lemma uuid_of_uuid_str: "uuid_of_str (uuid_str u) = Inr u"
proof -
  let ?h = "hex_of 32 (unat u)"
  have h: "set ?h \<subseteq> set ''0123456789abcdef''" using hex_of_chars by blast
  note chars = uuid_str_chars [of u]
  have dis: "set '':{}-'' \<inter> set ''0123456789abcdef'' = {}" by simp
  have no: "c \<notin> set (uuid_str u)" if "c \<in> set '':{}''" for c
  proof
    assume "c \<in> set (uuid_str u)"
    then have "c = CHR ''-'' \<or> c \<in> set ''0123456789abcdef''" using chars h by blast
    then show False using that dis by auto
  qed
  have r: "str_remove sub 0 (uuid_str u) = uuid_str u" if "CHR '':'' \<in> set sub" for sub
    using that no [of "CHR '':''"] by (intro str_remove_none) auto
  have dw: "dropWhile (\<lambda>c. c = CHR ''{'' \<or> c = CHR ''}'') x = x" if "CHR ''{'' \<notin> set x" "CHR ''}'' \<notin> set x" for x
    using that by (cases x) auto
  have b: "strip_braces (uuid_str u) = uuid_str u"
    using no [of "CHR ''{''"] no [of "CHR ''}''"] by (simp add: strip_braces_def Let_def dw)
  have keep: "filter (\<lambda>c. c \<noteq> CHR ''-'') x = x" if "set x \<subseteq> set ?h" for x
    using that h dis by (intro filter_True ballI) auto
  have parts: "take 8 h @ take 4 (drop 8 h) @ take 4 (drop 12 h) @ take 4 (drop 16 h) @ drop 20 h = h" for h :: string
    using append_take_drop_id [of 8 h] append_take_drop_id [of 4 "drop 8 h"]
      append_take_drop_id [of 4 "drop 12 h"] append_take_drop_id [of 4 "drop 16 h"] by simp
  have k: "filter (\<lambda>c. c \<noteq> CHR ''-'') (take 8 ?h) = take 8 ?h"
    "filter (\<lambda>c. c \<noteq> CHR ''-'') (take a (drop j ?h)) = take a (drop j ?h)"
    "filter (\<lambda>c. c \<noteq> CHR ''-'') (drop j ?h) = drop j ?h" for a j
    by (rule keep; auto dest: in_set_takeD in_set_dropD)+
  have f: "filter (\<lambda>c. c \<noteq> CHR ''-'') (uuid_str u) = ?h"
    using parts [of ?h] by (simp add: uuid_str_def Let_def k)
  have all: "list_all (\<lambda>c. hex_val c \<noteq> None) ?h"
  proof -
    have "list_all (\<lambda>c. hex_val c \<noteq> None) ''0123456789abcdef''" by code_simp
    then show ?thesis using h unfolding list_all_iff by blast
  qed
  have "unat u < 16 ^ 32" using unsigned_less [of u, where ?'a = nat] by simp
  then have "nat_of_hex ?h = Some (unat u)" using all foldl_hex by (simp add: nat_of_hex_def)
  then show ?thesis by (simp add: uuid_of_str_def r b f Let_def)
qed

text \<open>The texts of an item, and the item without an empty type list.\<close>

definition item_text_ok :: "work_item \<Rightarrow> bool" where
  "item_text_ok i = (utf8_text (wi_account i) \<and> utf8_text (wi_region i) \<and>
     list_all (pred_option utf8_text) [wi_role_arn i, wi_external_id i, wi_name i] \<and>
     pred_option (list_all utf8_text) (wi_types i))"

definition item_plain :: "work_item \<Rightarrow> work_item" where
  "item_plain i = i\<lparr>wi_types := (if wi_types i = Some [] then None else wi_types i)\<rparr>"

lemma ascii_text:
  assumes "list_all (\<lambda>c. (of_char c :: nat) < 128) s"
  shows "utf8_text s"
proof -
  have "utf8_points s = map of_char s" using assms
    by (induction s) (auto simp: utf8_more_def utf8_lead_def)
  moreover have "concat (map utf8 (map of_char s)) = s" using assms
    by (induction s) (auto simp: utf8_def)
  ultimately show ?thesis using assms by (auto simp: utf8_text_def scalar_def list_all_iff)
qed

lemma utf8_uuid: "utf8_text (uuid_str u)"
proof -
  have "list_all (\<lambda>c. (of_char c :: nat) < 128) (uuid_str u)"
  proof -
    have h: "list_all (\<lambda>c. (of_char c :: nat) < 128) ''-0123456789abcdef''" by code_simp
    have "set (uuid_str u) \<subseteq> insert CHR ''-'' (set ''0123456789abcdef'')"
      using uuid_str_chars [of "u"] hex_of_chars by blast
    then have "set (uuid_str u) \<subseteq> set ''-0123456789abcdef''" by (simp only: list.set(2))
    then show ?thesis using h unfolding list_all_iff by blast
  qed
  then show ?thesis by (rule ascii_text)
qed

lemma item_to_dict_dumpable:
  assumes "item_text_ok i"
  shows "dumpable (PDict (item_to_dict i))"
proof -
  note u = utf8_uuid [of "wi_job i"]
  have keys: "list_all (\<lambda>(k, v). utf8_text k) (item_to_dict i)"
  proof -
    have "list_all (list_all (\<lambda>c. (of_char c :: nat) < 128)) [''job_id'', ''aws_account_id'', ''region'', ''role_arn'',
        ''external_id'', ''name'', ''resource_types'', ''force'', ''dry_run'']" by code_simp
    then have "list_all utf8_text [''job_id'', ''aws_account_id'', ''region'', ''role_arn'',
        ''external_id'', ''name'', ''resource_types'', ''force'', ''dry_run'']"
      by (rule list.pred_mono_strong) (rule ascii_text)
    moreover have "map fst (item_to_dict i) = [''job_id'', ''aws_account_id'', ''region'', ''role_arn'',
        ''external_id'', ''name'', ''resource_types'', ''force'', ''dry_run'']" by (simp add: item_to_dict_def)
    ultimately have "list_all utf8_text (map fst (item_to_dict i))" by simp
    then show ?thesis by (simp add: list_all_iff case_prod_unfold)
  qed
  have o: "dumpable (pstr_opt x)" if "\<And>s. x = Some s \<Longrightarrow> utf8_text s" for x
    using that by (cases x) (simp_all add: pstr_opt_def)
  have opts: "dumpable (pstr_opt (wi_role_arn i))" "dumpable (pstr_opt (wi_external_id i))" "dumpable (pstr_opt (wi_name i))"
    using assms by (auto intro!: o simp: item_text_ok_def)
  have types: "dumpable (case wi_types i of None \<Rightarrow> PNone | Some ts \<Rightarrow> if ts = [] then PNone else PList (map PStr ts))"
    using assms by (auto simp: item_text_ok_def list_all_iff split: option.splits)
  have "list_all (\<lambda>(k, v). dumpable v) (item_to_dict i)"
    using u opts types assms by (simp add: item_to_dict_def item_text_ok_def)
  moreover have "distinct (map fst (item_to_dict i))" by (simp add: item_to_dict_def)
  ultimately show ?thesis using keys by (simp add: list_all_iff case_prod_unfold)
qed

lemma item_from_to_dict: "item_from_dict (item_to_dict i) = Inr (item_plain i)"
proof -
  have o: "opt_field (pstr_opt x) = Inr x" for x by (cases x) (simp_all add: pstr_opt_def)
  have t: "types_field (case ts of None \<Rightarrow> PNone | Some ts \<Rightarrow> if ts = [] then PNone else PList (map PStr ts)) =
      Inr (if ts = Some [] then None else ts)" for ts
  proof (cases ts)
    case (Some xs)
    have "mapM str_field (map PStr xs) = Inr xs" by (induction xs) auto
    then show ?thesis using Some by auto
  qed simp
  show ?thesis
    unfolding item_from_dict_def
    by (simp add: required_def item_to_dict_def uuid_field_def uuid_of_uuid_str pget_def get_default_def o t item_plain_def)
qed

text \<open>C30: A work item survives the queue service: the message body that \<open>send\<close> writes is read
  back by \<open>receive\<close> as the same item (an empty list of resource types, which means the
  default as \<open>None\<close> does, comes back as \<open>None\<close>).\<close>

theorem work_item_roundtrip:
  assumes "item_text_ok i"
  shows "\<exists>body. item_body i = Inr body \<and> item_of_body body = Inr (item_plain i)"
proof -
  note d = item_to_dict_dumpable [OF assms]
  obtain b where b: "item_body i = Inr b" using json_dumps_total [OF d] by (auto simp: item_body_def)
  then have "json_loads b = Inr (PDict (item_to_dict i))"
    using json_loads_dumps [OF d] by (simp add: item_body_def)
  then show ?thesis using b by (auto simp: item_of_body_def item_from_to_dict)
qed


theorem work_item_roundtrip_witness:
  "\<exists>body. item_body sample_item = Inr body \<and> item_of_body body = Inr sample_item"
proof -
  have "list_all (list_all (\<lambda>c. (of_char c :: nat) < 128)) [''123456789012'', ''eu-west-1'', ''prod'', ''rds'']" by code_simp
  then have "item_text_ok sample_item" by (simp add: item_text_ok_def sample_item_def ascii_text)
  from work_item_roundtrip [OF this] show ?thesis by (simp add: item_plain_def sample_item_def)
qed

section \<open>The SQS queue\<close>

text \<open>The SQS client on a service of type \<open>'s\<close>; a call may raise. A message has its body, its
  receipt handle and the receive count of its attributes, if present.\<close>

record sqs_message =
  msg_body :: string
  msg_receipt :: receipt
  msg_count :: "string option"

record 's sqs_client =
  send_message :: "string \<Rightarrow> 's \<Rightarrow> unit res \<times> 's"
  receive_message :: "int \<Rightarrow> int \<Rightarrow> int \<Rightarrow> 's \<Rightarrow> sqs_message list res \<times> 's"
  delete_message :: "receipt \<Rightarrow> 's \<Rightarrow> unit res \<times> 's"
  change_visibility :: "receipt \<Rightarrow> int \<Rightarrow> 's \<Rightarrow> unit res \<times> 's"

definition send_error :: "work_item \<Rightarrow> exn" where
  "send_error i = RuntimeError (''SQS send failed at item '' @ wi_account i @ ''/'' @ wi_region i @
     '' (job '' @ uuid_str (wi_job i) @ ''); earlier items in this batch are already sent'')"

fun sqs_send :: "'s sqs_client \<Rightarrow> work_item list \<Rightarrow> 's \<Rightarrow> unit res \<times> 's" where
  "sqs_send c [] s = (Inr (), s)"
| "sqs_send c (i # is) s = (case item_body i of
      Inl e \<Rightarrow> (Inl (send_error i), s)
    | Inr body \<Rightarrow> (case send_message c body s of
        (Inl e, s') \<Rightarrow> (Inl (send_error i), s')
      | (Inr _, s') \<Rightarrow> sqs_send c is s'))"

definition malformed :: "exn \<Rightarrow> bool" where
  "malformed e = (case e of KeyError _ \<Rightarrow> True | ValueError \<Rightarrow> True | _ \<Rightarrow> False)"

text \<open>The loop over the messages of one response: a malformed message is deleted.\<close>

fun sqs_messages :: "'s sqs_client \<Rightarrow> sqs_message list \<Rightarrow> 's \<Rightarrow> received list res \<times> 's" where
  "sqs_messages c [] s = (Inr [], s)"
| "sqs_messages c (m # ms) s = (case item_of_body (msg_body m) of
      Inl e \<Rightarrow> if malformed e then
          (case delete_message c (msg_receipt m) s of
             (Inl e', s') \<Rightarrow> (Inl e', s')
           | (Inr _, s') \<Rightarrow> sqs_messages c ms s')
        else (Inl e, s)
    | Inr item \<Rightarrow>
        (case py_int (PStr (case msg_count m of None \<Rightarrow> ''1'' | Some k \<Rightarrow> k)) of
           Inl e \<Rightarrow> (Inl e, s)
         | Inr n \<Rightarrow> (case sqs_messages c ms s of
             (Inl e, s') \<Rightarrow> (Inl e, s')
           | (Inr out, s') \<Rightarrow>
              (Inr (\<lparr>rc_receipt = msg_receipt m, rc_item = item, rc_attempts = nat n\<rparr> # out), s'))))"

definition sqs_receive :: "'s sqs_client \<Rightarrow> int \<Rightarrow> int \<Rightarrow> int \<Rightarrow> 's \<Rightarrow> received list res \<times> 's" where
  "sqs_receive c visibility max_items wait s =
    (case receive_message c (max 1 (min max_items 10)) (max 0 (min wait 20)) visibility s of
       (Inl e, s') \<Rightarrow> (Inl e, s')
     | (Inr ms, s') \<Rightarrow> sqs_messages c ms s')"

definition sqs_ack :: "'s sqs_client \<Rightarrow> receipt \<Rightarrow> 's \<Rightarrow> unit res \<times> 's" where
  "sqs_ack c r s = delete_message c r s"

definition sqs_nack :: "'s sqs_client \<Rightarrow> receipt \<Rightarrow> seconds \<Rightarrow> 's \<Rightarrow> unit res \<times> 's" where
  "sqs_nack c r delay s = change_visibility c r (max 0 (min (if delay < 0 then \<lceil>delay\<rceil> else \<lfloor>delay\<rfloor>) 43200)) s"

datatype queue_choice = InProcess nat | Sqs string int

text \<open>\<open>build_queue\<close> on the settings.\<close>

definition build_queue :: "string \<Rightarrow> nat \<Rightarrow> string option \<Rightarrow> int \<Rightarrow> queue_choice res" where
  "build_queue mode maxsize url visibility =
    (if mode = ''inline'' then Inr (InProcess maxsize)
     else if mode = ''sqs'' then
       (case url of None \<Rightarrow> Inl ValueError | Some u \<Rightarrow> if u = [] then Inl ValueError else Inr (Sqs u visibility))
     else Inl ValueError)"

text \<open>One message whose body is a JSON value of the wrong shape stops the whole batch of an
  SQS receive with \<open>TypeError\<close>, and is not deleted: the items before it are not returned, whatever
  they are, and every later receive meets it again.\<close>

theorem sqs_wrong_shape_blocks_batch:
  assumes "list_all (\<lambda>m. \<exists>i. item_of_body (msg_body m) = Inr i \<and> msg_count m = None) ms"
    and "msg_body m \<in> {''null'', ''[]'', ''7''}"
  shows "sqs_messages c (ms @ m # ms') s = (Inl TypeError, s)"
  using assms(1)
proof (induction ms)
  case Nil
  have b: "item_of_body ''null'' = Inl TypeError" "item_of_body ''[]'' = Inl TypeError" "item_of_body ''7'' = Inl TypeError"
    by code_simp+
  have "item_of_body (msg_body m) = Inl TypeError" using assms(2) b by (elim insertE) simp_all
  then show ?case by (simp add: malformed_def)
next
  case (Cons a ms)
  have "py_int (PStr ''1'') = Inr 1" by code_simp
  then show ?case using Cons by auto
qed


theorem sqs_wrong_shape_blocks_batch_witness:
  "(\<lambda>c :: unit sqs_client. \<exists>b. item_body sample_item = Inr b \<and>
     sqs_messages c [\<lparr>msg_body = b, msg_receipt = ''r1'', msg_count = None\<rparr>, \<lparr>msg_body = ''null'', msg_receipt = ''r2'', msg_count = None\<rparr>] () =
       (Inl TypeError, ()))
   \<lparr>send_message = \<lambda>b s. (Inr (), s), receive_message = \<lambda>n w v s. (Inr [], s), delete_message = \<lambda>r s. (Inr (), s),
     change_visibility = \<lambda>r v s. (Inr (), s)\<rparr>"
proof -
  obtain b where b: "item_body sample_item = Inr b" "item_of_body b = Inr (item_plain sample_item)"
  proof -
    have "list_all (list_all (\<lambda>c. (of_char c :: nat) < 128)) [''123456789012'', ''eu-west-1'', ''prod'', ''rds'']" by code_simp
    then have "dumpable (PDict (item_to_dict sample_item))"
      by (intro item_to_dict_dumpable) (simp add: item_text_ok_def sample_item_def ascii_text)
    then have "\<exists>b. item_body sample_item = Inr b \<and> json_loads b = Inr (PDict (item_to_dict sample_item))"
      using json_dumps_total json_loads_dumps unfolding item_body_def by blast
    then show ?thesis using that by (auto simp: item_of_body_def item_from_to_dict)
  qed
  then show ?thesis
    using sqs_wrong_shape_blocks_batch [of "[\<lparr>msg_body = b, msg_receipt = ''r1'', msg_count = None\<rparr>]"
        "\<lparr>msg_body = ''null'', msg_receipt = ''r2'', msg_count = None\<rparr>" _ "[]" "()"] by simp
qed

end
