(* ===== verification/CatalogEbs.thy ===== *)
theory CatalogEbs
  imports Models
begin

text \<open>
  The EBS catalog (\<open>constat_core/catalog/ebs.py\<close>): storage and snapshot price grids per
  region and the lookups with their fallback to the default region. A volume type, a tier
  or a region is whatever value the fact holds, so the lookups take dynamic values: a list
  or a dictionary as a key raises.
\<close>

definition EBS_CATALOG_VERSION :: string where
  "EBS_CATALOG_VERSION = ''2026-07-19''"

definition DEFAULT_REGION :: string where
  "DEFAULT_REGION = ''us-east-1''"

text \<open>\<open>EbsPrice\<close> and \<open>EbsSnapshotPrice\<close>: \<open>price_of\<close> is the volume type or the tier.\<close>

record ebs_price =
  price_of :: string
  usd_per_gb_month :: pyfloat
  source_url :: string
  review_date :: string
  price_region :: string

definition REVIEW_DATE :: string where
  "REVIEW_DATE = ''2026-07-19''"

definition EBS_PRICING_URL :: string where
  "EBS_PRICING_URL = ''https://aws.amazon.com/ebs/pricing/''"

definition EBS_SNAPSHOT_PRICING_URL :: string where
  "EBS_SNAPSHOT_PRICING_URL = ''https://aws.amazon.com/ebs/pricing/#Snapshots''"

definition STORAGE_GRID_USD :: "(string, (string, pyfloat) dict) dict" where
  "STORAGE_GRID_USD =
    [(''us-east-1'', [(''gp2'', lit 10 2), (''gp3'', lit 8 2), (''io1'', lit 125 3), (''io2'', lit 125 3), (''st1'', lit 45 3), (''sc1'', lit 15 3), (''standard'', lit 5 2)]),
     (''eu-west-1'', [(''gp2'', lit 11 2), (''gp3'', lit 88 3), (''io1'', lit 138 3), (''io2'', lit 138 3), (''st1'', lit 5 2), (''sc1'', lit 168 4), (''standard'', lit 55 3)]),
     (''eu-west-3'', [(''gp2'', lit 116 3), (''gp3'', lit 928 4), (''io1'', lit 145 3), (''io2'', lit 145 3), (''st1'', lit 53 3), (''sc1'', lit 174 4), (''standard'', lit 58 3)])]"

definition SNAPSHOT_GRID_USD :: "(string, (string, pyfloat) dict) dict" where
  "SNAPSHOT_GRID_USD =
    [(''us-east-1'', [(''standard'', lit 5 2), (''archive'', lit 125 4)]),
     (''eu-west-1'', [(''standard'', lit 5 2), (''archive'', lit 125 4)]),
     (''eu-west-3'', [(''standard'', lit 53 3), (''archive'', lit 1325 5)])]"

definition price_rows :: "string \<Rightarrow> (string, (string, pyfloat) dict) dict \<Rightarrow> (string, (string, ebs_price) dict) dict" where
  "price_rows url grids = map (\<lambda>(region, grid). (region, map (\<lambda>(t, rate).
     (t, \<lparr>price_of = t, usd_per_gb_month = rate, source_url = url, review_date = REVIEW_DATE,
          price_region = region\<rparr>)) grid)) grids"

definition EBS_PRICING_BY_REGION :: "(string, (string, ebs_price) dict) dict" where
  "EBS_PRICING_BY_REGION = price_rows EBS_PRICING_URL STORAGE_GRID_USD"

definition EBS_SNAPSHOT_PRICING_BY_REGION :: "(string, (string, ebs_price) dict) dict" where
  "EBS_SNAPSHOT_PRICING_BY_REGION = price_rows EBS_SNAPSHOT_PRICING_URL SNAPSHOT_GRID_USD"

section \<open>Lookups\<close>

text \<open>Both price lookups have the same body over their own table: the requested region's row
  first, then the default region's.\<close>

definition lookup_price ::
    "(string, (string, ebs_price) dict) dict \<Rightarrow> pyval \<Rightarrow> pyval \<Rightarrow> ebs_price option res" where
  "lookup_price table key region =
    (let default_row = get_default table DEFAULT_REGION [] in
     if region \<noteq> PNone then
       rbind (get_by_value table region) (\<lambda>row.
       rbind (get_by_value (case row of None \<Rightarrow> [] | Some g \<Rightarrow> g) key) (\<lambda>price.
       case price of Some p \<Rightarrow> Inr (Some p) | None \<Rightarrow> get_by_value default_row key))
     else get_by_value default_row key)"

definition ebs_price_per_gb_month :: "pyval \<Rightarrow> pyval \<Rightarrow> ebs_price option res" where
  "ebs_price_per_gb_month volume_type region = lookup_price EBS_PRICING_BY_REGION volume_type region"

definition ebs_snapshot_price_per_gb_month :: "pyval \<Rightarrow> pyval \<Rightarrow> ebs_price option res" where
  "ebs_snapshot_price_per_gb_month tier region = lookup_price EBS_SNAPSHOT_PRICING_BY_REGION tier region"

definition price_region_exact :: "pyval \<Rightarrow> ebs_price \<Rightarrow> bool" where
  "price_region_exact requested price = (requested = PNone \<or> requested = PStr (price_region price))"

text \<open>\<open>round(usd_per_gb_month * size_gb, 2)\<close>, the multiplication every storage rule makes.\<close>

definition storage_amount :: "pyfloat \<Rightarrow> int \<Rightarrow> pyfloat res" where
  "storage_amount rate size_gb = rmap (\<lambda>s. py_round (fmul rate s) 2) (float_of_int size_gb)"

definition monthly_storage_cost :: "pyval \<Rightarrow> int option \<Rightarrow> pyval \<Rightarrow> pyfloat option res" where
  "monthly_storage_cost volume_type size_gb region =
    rbind (ebs_price_per_gb_month volume_type region) (\<lambda>price.
      case (price, size_gb) of
        (Some p, Some n) \<Rightarrow> rmap Some (storage_amount (usd_per_gb_month p) n)
      | _ \<Rightarrow> Inr None)"

section \<open>What the grids promise\<close>

definition grid_ok :: "(string, (string, pyfloat) dict) dict \<Rightarrow> bool" where
  "grid_ok g = (list_all (\<lambda>(r, row). list_all (\<lambda>(t, rate). 0 < rate) row) g)"

lemma lit_pos: "0 < m \<Longrightarrow> n \<le> 5 \<Longrightarrow> m < 10 ^ 10 \<Longrightarrow> 0 < lit m n"
proof -
  assume m: "0 < m" "n \<le> 5"
  have "(1 :: rat) / 10 ^ 5 \<le> of_int m / 10 ^ n"
    using m by (intro frac_le power_increasing) auto
  then have "fl (1 / 10 ^ 5) \<le> lit m n" unfolding lit_def by (rule fl_mono)
  moreover have "0 < fl (1 / 10 ^ 5)" by (simp add: fl_eval)
  ultimately show ?thesis by linarith
qed

lemma STORAGE_GRID_ok: "grid_ok STORAGE_GRID_USD"
  by (simp add: grid_ok_def STORAGE_GRID_USD_def lit_pos)

lemma SNAPSHOT_GRID_ok: "grid_ok SNAPSHOT_GRID_USD"
  by (simp add: grid_ok_def SNAPSHOT_GRID_USD_def lit_pos)

lemma map_of_mapped: "map_of (map (\<lambda>(k, v). (k, f k v)) xs) k = map_option (f k) (map_of xs k)"
  by (induction xs) auto

lemma price_rows_get:
  "dict_get (price_rows url g) r = map_option (\<lambda>row. map (\<lambda>(t, rate).
     (t, \<lparr>price_of = t, usd_per_gb_month = rate, source_url = url, review_date = REVIEW_DATE,
          price_region = r\<rparr>)) row) (dict_get g r)"
  unfolding price_rows_def by (rule map_of_mapped)

lemma price_row_get:
  "dict_get (map (\<lambda>(t, rate). (t, \<lparr>price_of = t, usd_per_gb_month = rate, source_url = url,
      review_date = REVIEW_DATE, price_region = r\<rparr>)) row) k = Some p \<longleftrightarrow>
    (\<exists>rate. dict_get row k = Some rate \<and> p = \<lparr>price_of = k, usd_per_gb_month = rate, source_url = url,
      review_date = REVIEW_DATE, price_region = r\<rparr>)"
  by (subst map_of_mapped) auto

lemma get_by_value_Some: "get_by_value d v = Inr (Some x) \<longleftrightarrow> (\<exists>k. v = PStr k \<and> dict_get d k = Some x)"
  by (cases v) auto

lemma get_by_value_Inl: "get_by_value d v = Inl e \<longleftrightarrow> e = TypeError \<and> (\<exists>vs. v = PList vs) \<or> e = TypeError \<and> (\<exists>m. v = PDict m)"
  by (cases v) auto

lemma grid_ok_pos: "grid_ok g \<Longrightarrow> dict_get g r = Some row \<Longrightarrow> dict_get row t = Some rate \<Longrightarrow> 0 < rate"
  by (fastforce simp: grid_ok_def list_all_iff dest: map_of_SomeD)

text \<open>A price that is returned is the catalogued one: of the key that was asked for, taken
  from the requested region's grid or from the default one, and positive.\<close>

lemma lookup_price_sound:
  assumes "lookup_price (price_rows url g) key region = Inr (Some p)" and "grid_ok g"
  shows "0 < usd_per_gb_month p" and "key = PStr (price_of p)"
    and "\<exists>row. dict_get g (price_region p) = Some row \<and> dict_get row (price_of p) = Some (usd_per_gb_month p)"
    and "region = PStr (price_region p) \<or> price_region p = DEFAULT_REGION"
proof -
  have "\<exists>r row t rate. dict_get g r = Some row \<and> dict_get row t = Some rate \<and> key = PStr t \<and>
      (region = PStr r \<or> r = DEFAULT_REGION) \<and> price_of p = t \<and> price_region p = r \<and> usd_per_gb_month p = rate"
    using assms(1)
    by (auto simp: lookup_price_def Let_def rbind_Inr_iff get_by_value_Some get_default_def price_rows_get
        price_row_get split: if_splits option.splits)
  then show "0 < usd_per_gb_month p" and "key = PStr (price_of p)"
    and "\<exists>row. dict_get g (price_region p) = Some row \<and> dict_get row (price_of p) = Some (usd_per_gb_month p)"
    and "region = PStr (price_region p) \<or> price_region p = DEFAULT_REGION"
    using grid_ok_pos [OF assms(2)] by auto
qed

text \<open>\<open>exact\<close> is honest: when it holds of a requested region, that region's own grid has the
  price.\<close>

lemma price_region_exact_honest:
  assumes "lookup_price (price_rows url g) key region = Inr (Some p)" and "grid_ok g"
  shows "price_region_exact region p \<longleftrightarrow>
    region = PNone \<or> (\<exists>r row. region = PStr r \<and> dict_get g r = Some row \<and> dict_get row (price_of p) \<noteq> None)"
proof -
  note s = lookup_price_sound [OF assms]
  have "price_region p = r" if "region = PStr r" "dict_get g r = Some row" "dict_get row (price_of p) \<noteq> None" for r row
    using assms(1) s(2) that
    by (auto simp: lookup_price_def Let_def rbind_Inr_iff get_by_value_Some price_rows_get map_of_mapped
        dest!: arg_cong [where f = price_region])
  then show ?thesis using s(3) by (auto simp: price_region_exact_def)
qed

lemma lookup_price_error:
  "lookup_price table key region = Inl e \<Longrightarrow> e = TypeError"
  by (auto simp: lookup_price_def Let_def rbind_Inl_iff get_by_value_Inl split: if_splits option.splits)

lemma lookup_price_string:
  "\<exists>p. lookup_price table (PStr t) (PStr r) = Inr p" "\<exists>p. lookup_price table (PStr t) PNone = Inr p"
  by (auto simp: lookup_price_def Let_def split: option.splits)

lemma storage_amount_nonneg: "storage_amount r n = Inr m \<Longrightarrow> 0 \<le> r \<Longrightarrow> 0 \<le> n \<Longrightarrow> 0 \<le> m"
  by (auto simp: storage_amount_def float_of_int_def rmap_Inr_iff intro!: py_round_nonneg fmul_nonneg fl_nonneg
      split: if_splits)

lemma storage_amount_mono:
  "storage_amount r n = Inr m \<Longrightarrow> storage_amount r' n = Inr m' \<Longrightarrow> 0 \<le> r \<Longrightarrow> r \<le> r' \<Longrightarrow> 0 \<le> n \<Longrightarrow> m \<le> m'"
  by (auto simp: storage_amount_def float_of_int_def rmap_Inr_iff intro!: py_round_mono fmul_mono fl_nonneg
      split: if_splits)

lemma storage_amount_defined: "\<bar>n\<bar> \<le> 2 ^ 53 \<Longrightarrow> storage_amount r n = Inr (py_round (fmul r (of_int n)) 2)"
  by (simp add: storage_amount_def float_of_int_small)

end
