(* ===== verification/Monetary.thy ===== *)
theory Monetary
  imports Models
begin

text \<open>
  The monetary registry (\<open>constat_core/monetary.py\<close>): for every rule, the payload key of
  its monthly amount, what the amount is based on and what it means. An
  \<open>ACCOUNTING_DELTA\<close> is never a saving; no rule of this version is \<open>ACTUAL\<close>.
\<close>

datatype value_basis = ESTIMATED | ACTUAL

datatype monetary_kind = AVOIDABLE_SAVING | ACCOUNTING_DELTA

fun basis_str :: "value_basis \<Rightarrow> string" where
  "basis_str ESTIMATED = ''ESTIMATED''"
| "basis_str ACTUAL = ''ACTUAL''"

record monetary_extraction =
  payload_key :: string
  value_basis :: value_basis
  kind :: monetary_kind

definition MONETARY :: "(string, monetary_extraction) dict" where
  "MONETARY =
    [(''rds_eol'', \<lparr>payload_key = ''extended_support_monthly_usd'', value_basis = ESTIMATED,
        kind = AVOIDABLE_SAVING\<rparr>),
     (''mysql_eol'', \<lparr>payload_key = ''extended_support_monthly_usd'', value_basis = ESTIMATED,
        kind = AVOIDABLE_SAVING\<rparr>),
     (''aurora_eol'', \<lparr>payload_key = ''extended_support_monthly_usd'', value_basis = ESTIMATED,
        kind = AVOIDABLE_SAVING\<rparr>),
     (''ebs_gp2_to_gp3'', \<lparr>payload_key = ''savings_monthly_usd'', value_basis = ESTIMATED,
        kind = AVOIDABLE_SAVING\<rparr>),
     (''ebs_unattached'', \<lparr>payload_key = ''monthly_waste_usd'', value_basis = ESTIMATED,
        kind = AVOIDABLE_SAVING\<rparr>),
     (''snapshot_orphan'', \<lparr>payload_key = ''orphan_snapshot_monthly_usd'', value_basis = ESTIMATED,
        kind = AVOIDABLE_SAVING\<rparr>),
     (''ec2_stopped_with_storage'', \<lparr>payload_key = ''stopped_storage_monthly_usd'',
        value_basis = ESTIMATED, kind = AVOIDABLE_SAVING\<rparr>),
     (''chargeback'', \<lparr>payload_key = ''drift_amortized_minus_billed_usd'', value_basis = ESTIMATED,
        kind = ACCOUNTING_DELTA\<rparr>)]"

text \<open>\<open>float(raw)\<close> of an \<open>int\<close> beyond the float range raises, so the extraction can fail.\<close>

definition monthly_cost_and_basis ::
    "string \<Rightarrow> payload \<Rightarrow> (pyfloat option \<times> string option) res" where
  "monthly_cost_and_basis rule_name payload =
    (case dict_get MONETARY rule_name of
       None \<Rightarrow> Inr (None, None)
     | Some entry \<Rightarrow>
       (case pget payload (payload_key entry) of
          PInt i \<Rightarrow> rmap (\<lambda>x. (Some x, Some (basis_str (value_basis entry)))) (float_of_int i)
        | PFloat x \<Rightarrow> Inr (Some x, Some (basis_str (value_basis entry)))
        | _ \<Rightarrow> Inr (None, Some (basis_str (value_basis entry)))))"

definition monetary_kind_of :: "string \<Rightarrow> monetary_kind option" where
  "monetary_kind_of rule_name = map_option kind (dict_get MONETARY rule_name)"

lemma MONETARY_estimated:
  "dict_get MONETARY r = Some e \<Longrightarrow> value_basis e = ESTIMATED"
  by (auto simp: MONETARY_def split: if_splits)

lemma monetary_float:
  "dict_get MONETARY r = Some e \<Longrightarrow> pget p (payload_key e) = PFloat x \<Longrightarrow>
    monthly_cost_and_basis r p = Inr (Some x, Some ''ESTIMATED'')"
  by (simp add: monthly_cost_and_basis_def MONETARY_estimated)

lemma monetary_kind_accounting:
  "monetary_kind_of r = Some ACCOUNTING_DELTA \<longleftrightarrow> r = ''chargeback''"
  by (auto simp: monetary_kind_of_def MONETARY_def)

end
