(* ===== verification/Storage.thy ===== *)
theory Storage
  imports CatalogEbs Monetary
begin

text \<open>
  The storage evaluator (\<open>constat_core/insights/storage.py\<close>): the gate on the required
  facts, the rule's NO_MATCH predicate and cost function with their
  \<open>StorageInconclusiveError\<close>, the severity thresholds and the payload. The locale
  \<open>storage_rule\<close> is the contract of a configuration; the three storage rules
  interpret it in \<open>StorageRules\<close>.
\<close>

section \<open>Configuration\<close>

record storage_cost =
  monthly_usd :: pyfloat
  monetary_payload_key :: string
  pricing_region :: string
  cost_region_exact :: bool
  extras :: payload

record storage_rule_config =
  storage_rule_name :: string
  required_facts :: "string list"
  should_emit :: "fact_index \<Rightarrow> bool res"
  compute_cost :: "fact_index \<Rightarrow> date \<Rightarrow> storage_cost option res"
  build_title :: "fact_index \<Rightarrow> storage_cost \<Rightarrow> string res"
  build_recommendation :: "fact_index \<Rightarrow> storage_cost \<Rightarrow> string res"
  critical_threshold :: pyfloat
  warning_threshold :: pyfloat
  storage_value_basis :: string

section \<open>The evaluator\<close>

definition storage_gates :: "storage_rule_config \<Rightarrow> fact_index \<Rightarrow> string list" where
  "storage_gates config idx = filter (\<lambda>k. \<not> known idx k) (required_facts config)"

definition cost_severity :: "pyfloat \<Rightarrow> pyfloat \<Rightarrow> pyfloat \<Rightarrow> severity" where
  "cost_severity critical warning monthly =
    (if critical \<le> monthly then CRITICAL else if warning \<le> monthly then WARNING else INFO)"

definition account_id_of :: "fact_index \<Rightarrow> string \<Rightarrow> string option" where
  "account_id_of idx k = (case dict_get idx k of None \<Rightarrow> None | Some f \<Rightarrow> fact_account f)"

definition storage_payload :: "storage_rule_config \<Rightarrow> storage_cost \<Rightarrow> string \<Rightarrow> string option \<Rightarrow> payload" where
  "storage_payload config cost recommendation catalog_version =
    dict_update (dict_of
      [(monetary_payload_key cost, PFloat (monthly_usd cost)),
       (''value_basis'', PStr (storage_value_basis config)),
       (''pricing_region'', PStr (pricing_region cost)),
       (''price_region_exact'', PBool (cost_region_exact cost)),
       (''source_currency'', PStr ''USD''),
       (''recommendation'', PStr recommendation),
       (''catalog_version'', pstr_opt catalog_version)]) (extras cost)"

text \<open>The \<open>try\<close> block: the predicate, then the cost; \<open>None\<close> is NO_MATCH.\<close>

definition storage_attempt :: "storage_rule_config \<Rightarrow> fact_index \<Rightarrow> date \<Rightarrow> storage_cost option res" where
  "storage_attempt config idx today =
    rbind (should_emit config idx) (\<lambda>emit. if \<not> emit then Inr None else compute_cost config idx today)"

definition make_storage_insight ::
    "storage_rule_config \<Rightarrow> fact_index \<Rightarrow> uuid \<Rightarrow> storage_cost \<Rightarrow> string option \<Rightarrow> insight res" where
  "make_storage_insight config idx resource_id cost catalog_version =
    rbind (build_title config idx cost) (\<lambda>title.
    rbind (build_recommendation config idx cost) (\<lambda>recommendation.
    (case required_facts config of
       [] \<Rightarrow> Inl IndexError
     | k # _ \<Rightarrow> Inr \<lparr>ins_rule = storage_rule_name config, ins_resource = Some resource_id,
         ins_account = account_id_of idx k,
         ins_severity = cost_severity (critical_threshold config) (warning_threshold config) (monthly_usd cost),
         ins_title = title,
         ins_payload = storage_payload config cost recommendation catalog_version\<rparr>)))"

definition evaluate_storage ::
    "uuid \<Rightarrow> fact list \<Rightarrow> storage_rule_config \<Rightarrow> date option \<Rightarrow> date \<Rightarrow> string option \<Rightarrow> outcome res" where
  "evaluate_storage resource_id facts config today clock catalog_version =
    (let idx = index_facts facts; missing = storage_gates config idx in
     if missing \<noteq> [] then Inr (unsure missing)
     else (case storage_attempt config idx (case today of Some d \<Rightarrow> d | None \<Rightarrow> clock) of
         Inl (StorageInconclusiveError reason) \<Rightarrow> Inr (unsure [reason])
       | Inl e \<Rightarrow> Inl e
       | Inr None \<Rightarrow> Inr no_match
       | Inr (Some cost) \<Rightarrow> rmap found (make_storage_insight config idx resource_id cost catalog_version)))"

section \<open>Lemmas on the evaluator\<close>

lemma storage_gates_Nil: "storage_gates config idx = [] \<longleftrightarrow> list_all (known idx) (required_facts config)"
  by (induction "required_facts config") (auto simp: storage_gates_def filter_empty_conv list_all_iff)

lemma evaluate_storage_gated:
  "storage_gates config (index_facts facts) \<noteq> [] \<Longrightarrow>
    evaluate_storage rid facts config today clock cv = Inr (unsure (storage_gates config (index_facts facts)))"
  by (simp add: evaluate_storage_def)

lemma evaluate_storage_found:
  assumes "evaluate_storage rid facts config today clock cv = Inr r" and "insights r \<noteq> []"
  obtains cost i
  where "list_all (known (index_facts facts)) (required_facts config)"
    and "should_emit config (index_facts facts) = Inr True"
    and "compute_cost config (index_facts facts) (case today of Some d \<Rightarrow> d | None \<Rightarrow> clock) = Inr (Some cost)"
    and "make_storage_insight config (index_facts facts) rid cost cv = Inr i" and "r = found i"
proof -
  let ?idx = "index_facts facts"
  have g: "storage_gates config ?idx = []"
    using assms by (cases "storage_gates config ?idx = []") (auto simp: evaluate_storage_def Let_def)
  then show ?thesis using assms that
    by (auto simp: evaluate_storage_def Let_def storage_attempt_def rbind_Inr_iff rmap_Inr_iff storage_gates_Nil
        split: sum.splits option.splits exn.splits if_splits)
qed

lemma evaluate_storage_shape:
  assumes "evaluate_storage rid facts config today clock cv = Inr r"
  shows "outcome_ok r"
proof (cases "insights r = []")
  case False
  then show ?thesis using evaluate_storage_found [OF assms] by (metis outcome_ok_simps(3))
qed (simp add: outcome_ok_def)

lemma cost_severity_mono:
  "w \<le> c \<Longrightarrow> m \<le> m' \<Longrightarrow> cost_severity c w m \<le> cost_severity c w m'"
  by (auto simp: cost_severity_def less_eq_severity_def)

lemma make_storage_insight_simps:
  assumes "make_storage_insight config idx rid cost cv = Inr i"
  shows "ins_rule i = storage_rule_name config" and "ins_resource i = Some rid"
    and "ins_severity i = cost_severity (critical_threshold config) (warning_threshold config) (monthly_usd cost)"
    and "\<exists>rec. ins_payload i = storage_payload config cost rec cv"
    and "build_title config idx cost = Inr (ins_title i)"
  using assms by (cases "required_facts config"; auto simp: make_storage_insight_def rbind_Inr_iff)+

lemma storage_payload_monthly:
  assumes "monetary_payload_key cost \<notin> set [''value_basis'', ''pricing_region'', ''price_region_exact'',
      ''source_currency'', ''recommendation'', ''catalog_version'']"
    and "monetary_payload_key cost \<notin> fst ` set (extras cost)"
  shows "pget (storage_payload config cost rec cv) (monetary_payload_key cost) = PFloat (monthly_usd cost)"
  using assms
  by (simp add: storage_payload_def pget_def get_default_def dict_get_update_notin dict_get_of)

lemma storage_payload_region:
  assumes "k \<in> {''pricing_region'', ''price_region_exact''}" and "k \<noteq> monetary_payload_key cost"
    and "k \<notin> fst ` set (extras cost)"
  shows "pget (storage_payload config cost rec cv) k =
    (if k = ''pricing_region'' then PStr (pricing_region cost) else PBool (cost_region_exact cost))"
  using assms
  by (auto simp: storage_payload_def pget_def get_default_def dict_get_update_notin dict_get_of)

section \<open>The contract of a storage rule\<close>

definition reserved_keys :: "string list" where
  "reserved_keys = [''value_basis'', ''pricing_region'', ''price_region_exact'', ''source_currency'',
     ''recommendation'', ''catalog_version'']"

definition storage_error :: "exn \<Rightarrow> bool" where
  "storage_error e = (e = OverflowError \<or> e = TypeError \<or> (\<exists>r. e = StorageInconclusiveError r))"

locale storage_rule =
  fixes config :: storage_rule_config
  assumes nonempty: "required_facts config \<noteq> []"
    and thresholds: "critical_threshold config = 500" "warning_threshold config = 50"
    and registered: "\<exists>e. dict_get MONETARY (storage_rule_name config) = Some e \<and>
      payload_key e \<notin> set reserved_keys \<and>
      (\<forall>idx d cost. compute_cost config idx d = Inr (Some cost) \<longrightarrow>
        monetary_payload_key cost = payload_key e \<and> payload_key e \<notin> fst ` set (extras cost) \<and>
        fst ` set (extras cost) \<inter> set reserved_keys = {})"
    and texts: "compute_cost config idx d = Inr (Some cost) \<Longrightarrow>
      (\<exists>t. build_title config idx cost = Inr t) \<and> (\<exists>t. build_recommendation config idx cost = Inr t)"
    and emit_errors: "list_all (known idx) (required_facts config) \<Longrightarrow> should_emit config idx = Inl e \<Longrightarrow> storage_error e"
    and cost_errors: "list_all (known idx) (required_facts config) \<Longrightarrow> compute_cost config idx d = Inl e \<Longrightarrow> storage_error e"
begin

lemma found:
  assumes "evaluate_storage rid facts config today clock cv = Inr r" and "insights r \<noteq> []"
  obtains cost i e
  where "should_emit config (index_facts facts) = Inr True"
    and "compute_cost config (index_facts facts) (case today of Some d \<Rightarrow> d | None \<Rightarrow> clock) = Inr (Some cost)"
    and "r = found i" and "ins_rule i = storage_rule_name config" and "ins_resource i = Some rid"
    and "ins_severity i = cost_severity 500 50 (monthly_usd cost)"
    and "dict_get MONETARY (storage_rule_name config) = Some e"
    and "pget (ins_payload i) (payload_key e) = PFloat (monthly_usd cost)"
    and "pget (ins_payload i) ''price_region_exact'' = PBool (cost_region_exact cost)"
    and "pget (ins_payload i) ''pricing_region'' = PStr (pricing_region cost)"
proof -
  obtain cost i where f: "should_emit config (index_facts facts) = Inr True"
    "compute_cost config (index_facts facts) (case today of Some d \<Rightarrow> d | None \<Rightarrow> clock) = Inr (Some cost)"
    "make_storage_insight config (index_facts facts) rid cost cv = Inr i" "r = found i"
    by (rule evaluate_storage_found [OF assms])
  note s = make_storage_insight_simps [OF f(3)]
  obtain e where e: "dict_get MONETARY (storage_rule_name config) = Some e"
    "payload_key e \<notin> set reserved_keys" "monetary_payload_key cost = payload_key e"
    "payload_key e \<notin> fst ` set (extras cost)" "fst ` set (extras cost) \<inter> set reserved_keys = {}"
  proof -
    obtain e where e: "dict_get MONETARY (storage_rule_name config) = Some e" "payload_key e \<notin> set reserved_keys"
      and all: "\<forall>idx d cost. compute_cost config idx d = Inr (Some cost) \<longrightarrow>
        monetary_payload_key cost = payload_key e \<and> payload_key e \<notin> fst ` set (extras cost) \<and>
        fst ` set (extras cost) \<inter> set reserved_keys = {}"
      using registered by (elim exE conjE)
    from all [rule_format, OF f(2)] show ?thesis by (elim conjE) (rule that [OF e])
  qed
  obtain rec where p: "ins_payload i = storage_payload config cost rec cv" using s(4) by blast
  have k: "pget (ins_payload i) (payload_key e) = PFloat (monthly_usd cost)"
    using storage_payload_monthly [of cost config rec cv] e by (simp add: p reserved_keys_def)
  have r: "pget (ins_payload i) ''price_region_exact'' = PBool (cost_region_exact cost)"
    "pget (ins_payload i) ''pricing_region'' = PStr (pricing_region cost)"
    using storage_payload_region [of "''price_region_exact''" cost config rec cv]
      storage_payload_region [of "''pricing_region''" cost config rec cv] e
    by (auto simp: p reserved_keys_def)
  show ?thesis using s(3) by (intro that [OF f(1,2,4) s(1,2) _ e(1) k r]) (simp add: thresholds)
qed

lemma raises_only:
  assumes "evaluate_storage rid facts config today clock cv = Inl e"
  shows "e = OverflowError \<or> e = TypeError"
proof -
  let ?idx = "index_facts facts" and ?d = "case today of Some d \<Rightarrow> d | None \<Rightarrow> clock"
  have g: "storage_gates config ?idx = []"
    using assms by (cases "storage_gates config ?idx = []") (auto simp: evaluate_storage_def Let_def)
  then have k: "list_all (known ?idx) (required_facts config)" by (simp add: storage_gates_Nil)
  show ?thesis
  proof (cases "storage_attempt config ?idx ?d")
    case (Inl x)
    then have "storage_error x"
      using emit_errors [OF k] cost_errors [OF k]
      by (auto simp: storage_attempt_def rbind_Inl_iff split: if_splits)
    then show ?thesis using assms g Inl
      by (auto simp: evaluate_storage_def Let_def storage_error_def)
  next
    case (Inr out)
    show ?thesis
    proof (cases out)
      case None
      then show ?thesis using assms g Inr by (simp add: evaluate_storage_def Let_def)
    next
      case (Some cost)
      then have "compute_cost config ?idx ?d = Inr (Some cost)"
        using Inr by (auto simp: storage_attempt_def rbind_Inr_iff split: if_splits)
      then have "\<exists>i. make_storage_insight config ?idx rid cost cv = Inr i"
        using texts nonempty by (fastforce simp: make_storage_insight_def split: list.splits)
      then show ?thesis using assms g Inr Some by (auto simp: evaluate_storage_def Let_def)
    qed
  qed
qed

lemma amount_registered:
  assumes "evaluate_storage rid facts config today clock cv = Inr (found i)"
  shows "\<exists>x. monthly_cost_and_basis (ins_rule i) (ins_payload i) = Inr (Some x, Some ''ESTIMATED'') \<and>
    ins_severity i = cost_severity 500 50 x"
proof -
  have ne: "insights (found i) \<noteq> []" by simp
  show ?thesis
  proof (rule found [OF assms ne])
    fix cost j e
    assume j: "found i = found j" "ins_rule j = storage_rule_name config"
      "ins_severity j = cost_severity 500 50 (monthly_usd cost)"
      "dict_get MONETARY (storage_rule_name config) = Some e"
      "pget (ins_payload j) (payload_key e) = PFloat (monthly_usd cost)"
    then have "i = j" by simp
    then show ?thesis using monetary_float [OF j(4,5)] j(2,3) by auto
  qed
qed

end

end
