(* ===== verification/StorageRules.thy ===== *)
theory StorageRules
  imports Storage
begin

text \<open>
  The three rules on the shared storage evaluator: \<open>ebs_gp2_to_gp3\<close>, \<open>ebs_unattached\<close> and
  \<open>snapshot_orphan\<close> (\<open>packages/insights/*/resolver.py\<close>). The locale \<open>storage_rule\<close>
  collects what their configurations promise; each rule interprets it.
\<close>

section \<open>Reading the index\<close>

text \<open>\<open>idx[key].value\<close>: subscripting raises when the fact is absent.\<close>

definition idx_value :: "fact_index \<Rightarrow> string \<Rightarrow> pyval res" where
  "idx_value idx k = (case dict_get idx k of None \<Rightarrow> Inl (KeyError k) | Some f \<Rightarrow> Inr (fact_value f))"

text \<open>\<open>int(idx[key].value)\<close> inside the \<open>try\<close> that turns \<open>TypeError\<close> and \<open>ValueError\<close> into an
  inconclusive reason.\<close>

definition size_or_malformed :: "fact_index \<Rightarrow> string \<Rightarrow> int res" where
  "size_or_malformed idx k = rbind (idx_value idx k) (\<lambda>v. case py_int v of
     Inl e \<Rightarrow> if e = TypeError \<or> e = ValueError then Inl (StorageInconclusiveError (k @ ''.malformed'')) else Inl e
   | Inr n \<Rightarrow> Inr n)"

text \<open>\<open>cost.extras[key]\<close> and \<open>f"{v:.2f}"\<close>.\<close>

definition extra :: "storage_cost \<Rightarrow> string \<Rightarrow> pyval res" where
  "extra cost k = (case dict_get (extras cost) k of None \<Rightarrow> Inl (KeyError k) | Some v \<Rightarrow> Inr v)"

fun fmt_val2 :: "pyval \<Rightarrow> string res" where
  "fmt_val2 (PFloat x) = Inr (fmt2 x)"
| "fmt_val2 (PInt i) = rmap fmt2 (float_of_int i)"
| "fmt_val2 (PStr s) = Inl ValueError"
| "fmt_val2 v = Inl TypeError"

definition em_dash :: string where
  "em_dash = [CHR 0xE2, CHR 0x80, CHR 0x94]"

definition right_arrow :: string where
  "right_arrow = [CHR 0xE2, CHR 0x86, CHR 0x92]"

section \<open>\<open>ebs_gp2_to_gp3\<close>\<close>

definition MIN_SAVINGS_USD_PER_MONTH :: pyfloat where
  "MIN_SAVINGS_USD_PER_MONTH = lit 50 2"

definition gp2_should_emit :: "fact_index \<Rightarrow> bool res" where
  "gp2_should_emit idx = rmap (\<lambda>v. v = PStr ''gp2'') (idx_value idx ''aws.ec2.volume.volume_type'')"

definition gp2_savings_pct :: "pyfloat \<Rightarrow> pyfloat \<Rightarrow> pyfloat res" where
  "gp2_savings_pct savings current =
    (if 0 < current then rmap (\<lambda>q. py_round q 1) (fdiv (fmul 100 savings) current) else Inr 0)"

definition gp2_compute_cost :: "fact_index \<Rightarrow> date \<Rightarrow> storage_cost option res" where
  "gp2_compute_cost idx today =
    rbind (idx_value idx ''aws.ec2.volume.region'') (\<lambda>region.
    rbind (size_or_malformed idx ''aws.ec2.volume.size_gb'') (\<lambda>size_gb.
    rbind (ebs_price_per_gb_month (PStr ''gp2'') region) (\<lambda>gp2.
    rbind (ebs_price_per_gb_month (PStr ''gp3'') region) (\<lambda>gp3.
    (case (gp2, gp3) of
       (Some gp2_price, Some gp3_price) \<Rightarrow>
         rbind (storage_amount (usd_per_gb_month gp2_price) size_gb) (\<lambda>current_monthly.
         rbind (storage_amount (usd_per_gb_month gp3_price) size_gb) (\<lambda>target_monthly.
         let savings = py_round (fsub current_monthly target_monthly) 2 in
         if savings < MIN_SAVINGS_USD_PER_MONTH then Inr None
         else rmap (\<lambda>pct. Some \<lparr>monthly_usd = savings, monetary_payload_key = ''savings_monthly_usd'',
               pricing_region = price_region gp2_price,
               cost_region_exact = (price_region_exact region gp2_price \<and> price_region_exact region gp3_price),
               extras = [(''volume_size_gb'', PInt size_gb), (''current_volume_type'', PStr ''gp2''),
                 (''target_volume_type'', PStr ''gp3''), (''current_monthly_usd'', PFloat current_monthly),
                 (''target_monthly_usd'', PFloat target_monthly), (''savings_pct'', PFloat pct)]\<rparr>)
             (gp2_savings_pct savings current_monthly)))
     | _ \<Rightarrow> Inl (StorageInconclusiveError ''catalog.gp2_or_gp3_price_missing''))))))"

definition gp2_build_title :: "fact_index \<Rightarrow> storage_cost \<Rightarrow> string res" where
  "gp2_build_title idx cost =
    rmap (\<lambda>size_gb. ''EBS gp2 volume ('' @ py_str size_gb @ '' GB) costs $'' @ fmt2 (monthly_usd cost) @
       ''/month more than gp3'') (extra cost ''volume_size_gb'')"

definition gp2_build_recommendation :: "fact_index \<Rightarrow> storage_cost \<Rightarrow> string res" where
  "gp2_build_recommendation idx cost =
    rbind (extra cost ''current_monthly_usd'') (\<lambda>c. rbind (fmt_val2 c) (\<lambda>cur.
    rbind (extra cost ''target_monthly_usd'') (\<lambda>t. rmap (\<lambda>tgt.
      ''Migrate to gp3 (online, no downtime): $'' @ cur @ ''/month '' @ right_arrow @ '' $'' @ tgt @
      ''/month. Same API, no behavior change, ~20% storage saving.'') (fmt_val2 t))))"

definition GP2_CONFIG :: storage_rule_config where
  "GP2_CONFIG = \<lparr>storage_rule_name = ''ebs_gp2_to_gp3'',
     required_facts = [''aws.ec2.volume.volume_type'', ''aws.ec2.volume.size_gb'', ''aws.ec2.volume.region''],
     should_emit = gp2_should_emit, compute_cost = gp2_compute_cost, build_title = gp2_build_title,
     build_recommendation = gp2_build_recommendation, critical_threshold = 500, warning_threshold = 50,
     storage_value_basis = ''ESTIMATED''\<rparr>"

definition ebs_gp2_to_gp3_evaluate :: "uuid \<Rightarrow> fact list \<Rightarrow> date option \<Rightarrow> date \<Rightarrow> outcome res" where
  "ebs_gp2_to_gp3_evaluate rid facts today clock =
    evaluate_storage rid facts GP2_CONFIG today clock (Some EBS_CATALOG_VERSION)"

section \<open>\<open>ebs_unattached\<close>\<close>

definition UNATTACHED_STATE :: string where
  "UNATTACHED_STATE = ''available''"

definition unattached_should_emit :: "fact_index \<Rightarrow> bool res" where
  "unattached_should_emit idx = rmap (\<lambda>v. v = PStr UNATTACHED_STATE) (idx_value idx ''aws.ec2.volume.state'')"

definition unattached_compute_cost :: "fact_index \<Rightarrow> date \<Rightarrow> storage_cost option res" where
  "unattached_compute_cost idx today =
    rbind (idx_value idx ''aws.ec2.volume.volume_type'') (\<lambda>volume_type.
    rbind (size_or_malformed idx ''aws.ec2.volume.size_gb'') (\<lambda>size_gb.
    rbind (idx_value idx ''aws.ec2.volume.region'') (\<lambda>region.
    rbind (ebs_price_per_gb_month volume_type region) (\<lambda>price.
    (case price of
       None \<Rightarrow> Inl (StorageInconclusiveError ''catalog.volume_type_price_missing'')
     | Some p \<Rightarrow> rmap (\<lambda>monthly_waste. Some \<lparr>monthly_usd = monthly_waste,
           monetary_payload_key = ''monthly_waste_usd'', pricing_region = price_region p,
           cost_region_exact = price_region_exact region p,
           extras = [(''volume_size_gb'', PInt size_gb), (''volume_type'', volume_type),
             (''state'', PStr UNATTACHED_STATE)]\<rparr>)
         (storage_amount (usd_per_gb_month p) size_gb))))))"

definition unattached_build_title :: "fact_index \<Rightarrow> storage_cost \<Rightarrow> string res" where
  "unattached_build_title idx cost =
    rbind (extra cost ''volume_type'') (\<lambda>vt. rmap (\<lambda>size_gb.
      ''EBS '' @ py_str vt @ '' volume ('' @ py_str size_gb @ '' GB) is unattached, wasting $'' @
      fmt2 (monthly_usd cost) @ ''/month'') (extra cost ''volume_size_gb''))"

definition unattached_build_recommendation :: "fact_index \<Rightarrow> storage_cost \<Rightarrow> string res" where
  "unattached_build_recommendation idx cost = Inr
    (''Delete the volume (after snapshotting if needed) '' @ em_dash @ '' it has no consumer. Snapshot first: '' @
     ''aws ec2 create-snapshot --volume-id <id>, then aws ec2 delete-volume --volume-id <id>.'')"

definition UNATTACHED_CONFIG :: storage_rule_config where
  "UNATTACHED_CONFIG = \<lparr>storage_rule_name = ''ebs_unattached'',
     required_facts = [''aws.ec2.volume.state'', ''aws.ec2.volume.size_gb'', ''aws.ec2.volume.volume_type'',
       ''aws.ec2.volume.region''],
     should_emit = unattached_should_emit, compute_cost = unattached_compute_cost,
     build_title = unattached_build_title, build_recommendation = unattached_build_recommendation,
     critical_threshold = 500, warning_threshold = 50, storage_value_basis = ''ESTIMATED''\<rparr>"

definition ebs_unattached_evaluate :: "uuid \<Rightarrow> fact list \<Rightarrow> date option \<Rightarrow> date \<Rightarrow> outcome res" where
  "ebs_unattached_evaluate rid facts today clock =
    evaluate_storage rid facts UNATTACHED_CONFIG today clock (Some EBS_CATALOG_VERSION)"

section \<open>\<open>snapshot_orphan\<close>\<close>

definition COMPLETED_STATE :: string where
  "COMPLETED_STATE = ''completed''"

definition AMI_REFERENCE_TOKEN :: string where
  "AMI_REFERENCE_TOKEN = ''ami-''"

definition lower_char :: "char \<Rightarrow> char" where
  "lower_char c = (let n = (of_char c :: nat) in if 65 \<le> n \<and> n \<le> 90 then char_of (n + 32) else c)"

definition snapshot_should_emit :: "fact_index \<Rightarrow> bool res" where
  "snapshot_should_emit idx =
    rbind (idx_value idx ''aws.ec2.snapshot.state'') (\<lambda>state.
    if state \<noteq> PStr COMPLETED_STATE then Inr False else
    rbind (idx_value idx ''aws.ec2.snapshot.volume_exists'') (\<lambda>ve.
    (case ve of
       PBool b \<Rightarrow> if b then Inr False else
         rmap (\<lambda>description. case description of
             PStr s \<Rightarrow> \<not> str_contains AMI_REFERENCE_TOKEN (map lower_char s) | _ \<Rightarrow> True)
           (idx_value idx ''aws.ec2.snapshot.description'')
     | _ \<Rightarrow> Inl (StorageInconclusiveError ''aws.ec2.snapshot.volume_exists.malformed''))))"

definition age_days :: "pyval \<Rightarrow> date \<Rightarrow> int option res" where
  "age_days raw today =
    (if \<not> truthy raw then Inr None
     else (case raw of
         PStr s \<Rightarrow> rmap (\<lambda>t. Some (days_between today (dt_date t))) (fromisoformat s)
       | _ \<Rightarrow> Inl ValueError))"

definition snapshot_tier :: "fact_index \<Rightarrow> string" where
  "snapshot_tier idx = (case dict_get idx ''aws.ec2.snapshot.storage_tier'' of
     None \<Rightarrow> ''standard''
   | Some f \<Rightarrow> if fact_state f = KNOWN \<and> truthy (fact_value f) then py_str (fact_value f) else ''standard'')"

definition snapshot_compute_cost :: "fact_index \<Rightarrow> date \<Rightarrow> storage_cost option res" where
  "snapshot_compute_cost idx today =
    rbind (size_or_malformed idx ''aws.ec2.snapshot.size_gb'') (\<lambda>size_gb.
    let tier = snapshot_tier idx in
    rbind (idx_value idx ''aws.ec2.snapshot.region'') (\<lambda>region.
    rbind (ebs_snapshot_price_per_gb_month (PStr tier) region) (\<lambda>price.
    (case price of
       None \<Rightarrow> Inl (StorageInconclusiveError ''catalog.snapshot_tier_price_missing'')
     | Some p \<Rightarrow>
       rbind (storage_amount (usd_per_gb_month p) size_gb) (\<lambda>monthly_cost.
       (case age_days (fact_val idx ''aws.ec2.snapshot.start_time'') today of
          Inl e \<Rightarrow> if e = ValueError then Inl (StorageInconclusiveError ''aws.ec2.snapshot.start_time.malformed'')
                   else Inl e
        | Inr age \<Rightarrow> Inr (Some \<lparr>monthly_usd = monthly_cost,
            monetary_payload_key = ''orphan_snapshot_monthly_usd'', pricing_region = price_region p,
            cost_region_exact = price_region_exact region p,
            extras = [(''snapshot_size_gb'', PInt size_gb), (''storage_tier'', PStr tier),
              (''snapshot_age_days'', case age of None \<Rightarrow> PNone | Some n \<Rightarrow> PInt n),
              (''state'', PStr COMPLETED_STATE)]\<rparr>)))))))"

definition snapshot_build_title :: "fact_index \<Rightarrow> storage_cost \<Rightarrow> string res" where
  "snapshot_build_title idx cost =
    rbind (extra cost ''snapshot_age_days'') (\<lambda>age.
    let age_label = (if age \<noteq> PNone then py_str age @ '' days old'' else ''unknown age'') in
    rmap (\<lambda>size_gb. ''EBS snapshot ('' @ py_str size_gb @ '' GB, '' @ age_label @ '') is orphaned '' @ em_dash @
      '' its source volume no longer exists '' @ em_dash @ '' costing $'' @ fmt2 (monthly_usd cost) @ ''/month'')
      (extra cost ''snapshot_size_gb''))"

definition snapshot_build_recommendation :: "fact_index \<Rightarrow> storage_cost \<Rightarrow> string res" where
  "snapshot_build_recommendation idx cost = Inr
    (''Delete the snapshot '' @ em_dash @ '' its source volume is gone, so it cannot serve a restore of that volume. '' @
     ''Verify it is not referenced by any backup policy or AMI first: aws ec2 describe-images '' @
     ''--filters Name=block-device-mapping.snapshot-id,Values=<id>, then aws ec2 delete-snapshot --snapshot-id <id>.'')"

definition SNAPSHOT_CONFIG :: storage_rule_config where
  "SNAPSHOT_CONFIG = \<lparr>storage_rule_name = ''snapshot_orphan'',
     required_facts = [''aws.ec2.snapshot.state'', ''aws.ec2.snapshot.size_gb'', ''aws.ec2.snapshot.volume_exists'',
       ''aws.ec2.snapshot.description'', ''aws.ec2.snapshot.region''],
     should_emit = snapshot_should_emit, compute_cost = snapshot_compute_cost,
     build_title = snapshot_build_title, build_recommendation = snapshot_build_recommendation,
     critical_threshold = 500, warning_threshold = 50, storage_value_basis = ''ESTIMATED''\<rparr>"

definition snapshot_orphan_evaluate :: "uuid \<Rightarrow> fact list \<Rightarrow> date option \<Rightarrow> date \<Rightarrow> outcome res" where
  "snapshot_orphan_evaluate rid facts today clock =
    evaluate_storage rid facts SNAPSHOT_CONFIG today clock (Some EBS_CATALOG_VERSION)"

section \<open>What each cost function computes\<close>

lemma idx_value_known: "known idx k \<Longrightarrow> idx_value idx k = Inr (fact_val idx k)"
  by (auto simp: idx_value_def fact_val_def known_def split: option.splits)

lemma size_error: "size_or_malformed idx k = Inl e \<Longrightarrow> known idx k \<Longrightarrow> storage_error e"
  using py_int_error
  by (auto simp: size_or_malformed_def idx_value_known storage_error_def split: sum.splits if_splits)

lemma size_Inr: "known idx k \<Longrightarrow> size_or_malformed idx k = Inr n \<longleftrightarrow> py_int (fact_val idx k) = Inr n"
  by (auto simp: size_or_malformed_def idx_value_known split: sum.splits)

lemma storage_amount_error: "storage_amount r n = Inl e \<Longrightarrow> storage_error e"
  by (auto simp: storage_amount_def float_of_int_def storage_error_def split: if_splits)

lemma gp2_savings_pct_defined: "\<exists>q. gp2_savings_pct s c = Inr q"
  by (auto simp: gp2_savings_pct_def fdiv_def)

lemma gp2_cost_inv:
  assumes "gp2_compute_cost idx d = Inr (Some cost)"
  obtains region n p2 p3 c t pct
  where "idx_value idx ''aws.ec2.volume.region'' = Inr region"
    and "size_or_malformed idx ''aws.ec2.volume.size_gb'' = Inr n"
    and "ebs_price_per_gb_month (PStr ''gp2'') region = Inr (Some p2)"
    and "ebs_price_per_gb_month (PStr ''gp3'') region = Inr (Some p3)"
    and "storage_amount (usd_per_gb_month p2) n = Inr c" and "storage_amount (usd_per_gb_month p3) n = Inr t"
    and "MIN_SAVINGS_USD_PER_MONTH \<le> py_round (fsub c t) 2"
    and "gp2_savings_pct (py_round (fsub c t) 2) c = Inr pct"
    and "cost = \<lparr>monthly_usd = py_round (fsub c t) 2, monetary_payload_key = ''savings_monthly_usd'',
      pricing_region = price_region p2,
      cost_region_exact = (price_region_exact region p2 \<and> price_region_exact region p3),
      extras = [(''volume_size_gb'', PInt n), (''current_volume_type'', PStr ''gp2''),
        (''target_volume_type'', PStr ''gp3''), (''current_monthly_usd'', PFloat c),
        (''target_monthly_usd'', PFloat t), (''savings_pct'', PFloat pct)]\<rparr>"
  using assms
  by (auto simp: gp2_compute_cost_def rbind_Inr_iff rmap_Inr_iff Let_def split: option.splits if_splits)
    (metis linorder_not_less that)

lemma unattached_cost_inv:
  assumes "unattached_compute_cost idx d = Inr (Some cost)"
  obtains vt n region p m
  where "idx_value idx ''aws.ec2.volume.volume_type'' = Inr vt"
    and "size_or_malformed idx ''aws.ec2.volume.size_gb'' = Inr n"
    and "idx_value idx ''aws.ec2.volume.region'' = Inr region"
    and "ebs_price_per_gb_month vt region = Inr (Some p)" and "storage_amount (usd_per_gb_month p) n = Inr m"
    and "cost = \<lparr>monthly_usd = m, monetary_payload_key = ''monthly_waste_usd'',
      pricing_region = price_region p, cost_region_exact = price_region_exact region p,
      extras = [(''volume_size_gb'', PInt n), (''volume_type'', vt), (''state'', PStr UNATTACHED_STATE)]\<rparr>"
  using assms that
  by (auto simp: unattached_compute_cost_def rbind_Inr_iff rmap_Inr_iff split: option.splits)

lemma snapshot_cost_inv:
  assumes "snapshot_compute_cost idx d = Inr (Some cost)"
  obtains n region p m age
  where "size_or_malformed idx ''aws.ec2.snapshot.size_gb'' = Inr n"
    and "idx_value idx ''aws.ec2.snapshot.region'' = Inr region"
    and "ebs_snapshot_price_per_gb_month (PStr (snapshot_tier idx)) region = Inr (Some p)"
    and "storage_amount (usd_per_gb_month p) n = Inr m"
    and "age_days (fact_val idx ''aws.ec2.snapshot.start_time'') d = Inr age"
    and "cost = \<lparr>monthly_usd = m, monetary_payload_key = ''orphan_snapshot_monthly_usd'',
      pricing_region = price_region p, cost_region_exact = price_region_exact region p,
      extras = [(''snapshot_size_gb'', PInt n), (''storage_tier'', PStr (snapshot_tier idx)),
        (''snapshot_age_days'', case age of None \<Rightarrow> PNone | Some n \<Rightarrow> PInt n), (''state'', PStr COMPLETED_STATE)]\<rparr>"
proof -
  obtain n where n: "size_or_malformed idx ''aws.ec2.snapshot.size_gb'' = Inr n"
    using assms by (auto simp: snapshot_compute_cost_def rbind_Inr_iff)
  obtain region where r: "idx_value idx ''aws.ec2.snapshot.region'' = Inr region"
    using assms n by (auto simp: snapshot_compute_cost_def rbind_Inr_iff Let_def)
  obtain p where p: "ebs_snapshot_price_per_gb_month (PStr (snapshot_tier idx)) region = Inr (Some p)"
    using assms n r by (auto simp: snapshot_compute_cost_def rbind_Inr_iff Let_def split: option.split_asm)
  obtain m where m: "storage_amount (usd_per_gb_month p) n = Inr m"
    using assms n r p by (auto simp: snapshot_compute_cost_def rbind_Inr_iff Let_def)
  show ?thesis
    using assms n r p m
    by (cases "age_days (fact_val idx ''aws.ec2.snapshot.start_time'') d")
      (auto simp: snapshot_compute_cost_def Let_def split: if_split_asm intro: that)
qed

lemma age_days_error: "age_days v d = Inl e \<Longrightarrow> e = ValueError"
  by (auto simp: age_days_def fromisoformat_def split: if_splits pyval.splits option.splits)

lemma price_error:
  "ebs_price_per_gb_month t r = Inl e \<Longrightarrow> storage_error e"
  "ebs_snapshot_price_per_gb_month t r = Inl e \<Longrightarrow> storage_error e"
  by (auto simp: ebs_price_per_gb_month_def ebs_snapshot_price_per_gb_month_def storage_error_def
      dest: lookup_price_error)

lemma errs_parts:
  "known idx k \<Longrightarrow> errs storage_error (size_or_malformed idx k)" "known idx k \<Longrightarrow> errs storage_error (idx_value idx k)"
  "errs storage_error (storage_amount r n)" "errs storage_error (gp2_savings_pct x y)"
  "errs storage_error (ebs_price_per_gb_month t region)" "errs storage_error (ebs_snapshot_price_per_gb_month t region)"
  using size_error storage_amount_error price_error gp2_savings_pct_defined [of x y]
  by (auto intro!: errs_I simp: idx_value_known)

lemma gp2_cost_error:
  assumes "gp2_compute_cost idx d = Inl e" "list_all (known idx) (required_facts GP2_CONFIG)"
  shows "storage_error e"
proof (rule errs_D [OF _ assms(1)])
  show "errs storage_error (gp2_compute_cost idx d)"
    using assms(2) unfolding gp2_compute_cost_def Let_def
    by (auto simp: GP2_CONFIG_def errs_parts storage_error_def split: option.splits sum.splits)
qed

lemma unattached_cost_error:
  assumes "unattached_compute_cost idx d = Inl e" "list_all (known idx) (required_facts UNATTACHED_CONFIG)"
  shows "storage_error e"
proof (rule errs_D [OF _ assms(1)])
  show "errs storage_error (unattached_compute_cost idx d)"
    using assms(2) unfolding unattached_compute_cost_def Let_def
    by (auto simp: UNATTACHED_CONFIG_def errs_parts storage_error_def split: option.splits sum.splits)
qed

lemma snapshot_cost_error:
  assumes "snapshot_compute_cost idx d = Inl e" "list_all (known idx) (required_facts SNAPSHOT_CONFIG)"
  shows "storage_error e"
proof (rule errs_D [OF _ assms(1)])
  show "errs storage_error (snapshot_compute_cost idx d)"
    using assms(2) age_days_error unfolding snapshot_compute_cost_def Let_def
    by (auto simp: SNAPSHOT_CONFIG_def errs_parts storage_error_def split: option.splits sum.splits)
qed

section \<open>The contract holds for the three rules\<close>

interpretation gp2: storage_rule GP2_CONFIG
proof unfold_locales
  show "\<exists>e. dict_get MONETARY (storage_rule_name GP2_CONFIG) = Some e \<and> payload_key e \<notin> set reserved_keys \<and>
    (\<forall>idx d cost. compute_cost GP2_CONFIG idx d = Inr (Some cost) \<longrightarrow>
      monetary_payload_key cost = payload_key e \<and> payload_key e \<notin> fst ` set (extras cost) \<and>
      fst ` set (extras cost) \<inter> set reserved_keys = {})"
    by (auto simp: GP2_CONFIG_def MONETARY_def reserved_keys_def elim!: gp2_cost_inv)
  fix idx d cost
  assume "compute_cost GP2_CONFIG idx d = Inr (Some cost)"
  then show "(\<exists>t. build_title GP2_CONFIG idx cost = Inr t) \<and> (\<exists>t. build_recommendation GP2_CONFIG idx cost = Inr t)"
    by (auto simp: GP2_CONFIG_def gp2_build_title_def gp2_build_recommendation_def extra_def elim!: gp2_cost_inv)
qed (auto simp: GP2_CONFIG_def gp2_should_emit_def idx_value_known intro: gp2_cost_error [unfolded GP2_CONFIG_def])

interpretation unattached: storage_rule UNATTACHED_CONFIG
proof unfold_locales
  show "\<exists>e. dict_get MONETARY (storage_rule_name UNATTACHED_CONFIG) = Some e \<and> payload_key e \<notin> set reserved_keys \<and>
    (\<forall>idx d cost. compute_cost UNATTACHED_CONFIG idx d = Inr (Some cost) \<longrightarrow>
      monetary_payload_key cost = payload_key e \<and> payload_key e \<notin> fst ` set (extras cost) \<and>
      fst ` set (extras cost) \<inter> set reserved_keys = {})"
    by (auto simp: UNATTACHED_CONFIG_def MONETARY_def reserved_keys_def elim!: unattached_cost_inv)
  fix idx d cost
  assume "compute_cost UNATTACHED_CONFIG idx d = Inr (Some cost)"
  then show "(\<exists>t. build_title UNATTACHED_CONFIG idx cost = Inr t) \<and> (\<exists>t. build_recommendation UNATTACHED_CONFIG idx cost = Inr t)"
    by (auto simp: UNATTACHED_CONFIG_def unattached_build_title_def unattached_build_recommendation_def extra_def elim!: unattached_cost_inv)
qed (auto simp: UNATTACHED_CONFIG_def unattached_should_emit_def idx_value_known intro: unattached_cost_error [unfolded UNATTACHED_CONFIG_def])

interpretation snapshot: storage_rule SNAPSHOT_CONFIG
proof unfold_locales
  show "\<exists>e. dict_get MONETARY (storage_rule_name SNAPSHOT_CONFIG) = Some e \<and> payload_key e \<notin> set reserved_keys \<and>
    (\<forall>idx d cost. compute_cost SNAPSHOT_CONFIG idx d = Inr (Some cost) \<longrightarrow>
      monetary_payload_key cost = payload_key e \<and> payload_key e \<notin> fst ` set (extras cost) \<and>
      fst ` set (extras cost) \<inter> set reserved_keys = {})"
    by (auto simp: SNAPSHOT_CONFIG_def MONETARY_def reserved_keys_def elim!: snapshot_cost_inv)
  fix idx d cost
  assume "compute_cost SNAPSHOT_CONFIG idx d = Inr (Some cost)"
  then show "(\<exists>t. build_title SNAPSHOT_CONFIG idx cost = Inr t) \<and> (\<exists>t. build_recommendation SNAPSHOT_CONFIG idx cost = Inr t)"
    by (auto simp: SNAPSHOT_CONFIG_def snapshot_build_title_def snapshot_build_recommendation_def extra_def Let_def elim!: snapshot_cost_inv)
next
  fix idx e
  assume "list_all (known idx) (required_facts SNAPSHOT_CONFIG)" "should_emit SNAPSHOT_CONFIG idx = Inl e"
  then show "storage_error e"
    by (auto simp: SNAPSHOT_CONFIG_def snapshot_should_emit_def idx_value_known storage_error_def split: if_splits pyval.splits)
qed (auto simp: SNAPSHOT_CONFIG_def intro: snapshot_cost_error [unfolded SNAPSHOT_CONFIG_def])

section \<open>Properties of the storage rules\<close>

definition storage_evaluators :: "(uuid \<Rightarrow> fact list \<Rightarrow> date option \<Rightarrow> date \<Rightarrow> outcome res) list" where
  "storage_evaluators = [ebs_gp2_to_gp3_evaluate, ebs_unattached_evaluate, snapshot_orphan_evaluate]"

lemmas storage_evaluate_defs = ebs_gp2_to_gp3_evaluate_def ebs_unattached_evaluate_def snapshot_orphan_evaluate_def

lemma storage_evaluators_cases:
  assumes "ev \<in> set storage_evaluators"
  obtains "ev = ebs_gp2_to_gp3_evaluate" | "ev = ebs_unattached_evaluate" | "ev = snapshot_orphan_evaluate"
  using assms by (auto simp: storage_evaluators_def)

definition vol_account :: string where
  "vol_account = ''00000000-0000-0000-0000-000000000001''"

definition vol_fact :: "string \<Rightarrow> pyval \<Rightarrow> fact" where
  "vol_fact k v = make_fact_builder ''aws.ec2.volume'' ''aws_ec2'' vol_account 0 7 k v (known_or_unknown v)"

definition gp2_facts :: "fact list" where
  "gp2_facts = [vol_fact ''region'' (PStr ''eu-west-1''), vol_fact ''size_gb'' (PInt 1000),
     vol_fact ''state'' (PStr ''available''), vol_fact ''volume_type'' (PStr ''gp2'')]"

lemmas fact_eval = fact_val_def known_def index_facts_def dict_of_def dotted_def idx_value_def

lemma gp2_facts_vals [simp]:
  "known (index_facts gp2_facts) ''aws.ec2.volume.volume_type''" "known (index_facts gp2_facts) ''aws.ec2.volume.size_gb''"
  "known (index_facts gp2_facts) ''aws.ec2.volume.region''" "known (index_facts gp2_facts) ''aws.ec2.volume.state''"
  "fact_val (index_facts gp2_facts) ''aws.ec2.volume.volume_type'' = PStr ''gp2''"
  "fact_val (index_facts gp2_facts) ''aws.ec2.volume.size_gb'' = PInt 1000"
  "fact_val (index_facts gp2_facts) ''aws.ec2.volume.region'' = PStr ''eu-west-1''"
  "fact_val (index_facts gp2_facts) ''aws.ec2.volume.state'' = PStr ''available''"
  by (simp_all add: fact_eval gp2_facts_def vol_fact_def)

lemma eu_gp_prices:
  "\<exists>p. ebs_price_per_gb_month (PStr ''gp2'') (PStr ''eu-west-1'') = Inr (Some p) \<and> usd_per_gb_month p = lit 11 2 \<and> price_region p = ''eu-west-1''"
  "\<exists>p. ebs_price_per_gb_month (PStr ''gp3'') (PStr ''eu-west-1'') = Inr (Some p) \<and> usd_per_gb_month p = lit 88 3 \<and> price_region p = ''eu-west-1''"
  by (simp_all add: ebs_price_per_gb_month_def lookup_price_def EBS_PRICING_BY_REGION_def price_rows_get
      price_row_get STORAGE_GRID_USD_def)

lemma amounts_1000:
  "py_round (fmul (lit 11 2) 1000) 2 = 110" "py_round (fmul (lit 88 3) 1000) 2 = 88"
  "py_round (fsub 110 88) 2 = 22"  "MIN_SAVINGS_USD_PER_MONTH = 1/2"
  by (simp_all add: fl_eval MIN_SAVINGS_USD_PER_MONTH_def)

text \<open>A storage finding's amount is in the restitution and fixes its severity. For each of the three storage rules
  the monthly amount that the monetary registry extracts from a finding is a number labelled ESTIMATED, and the finding is CRITICAL from 500
  dollars, WARNING from 50 and INFO below.\<close>

theorem storage_finding_amount:
  assumes "ev \<in> set storage_evaluators" and "ev rid facts today clock = Inr (found i)"
  shows "\<exists>x. monthly_cost_and_basis (ins_rule i) (ins_payload i) = Inr (Some x, Some ''ESTIMATED'') \<and>
    ins_severity i = (if 500 \<le> x then CRITICAL else if 50 \<le> x then WARNING else INFO)"
  using assms(1)
proof (cases rule: storage_evaluators_cases)
  case 1
  then show ?thesis using assms(2) gp2.amount_registered unfolding storage_evaluate_defs cost_severity_def by blast
next
  case 2
  then show ?thesis using assms(2) unattached.amount_registered unfolding storage_evaluate_defs cost_severity_def by blast
next
  case 3
  then show ?thesis using assms(2) snapshot.amount_registered unfolding storage_evaluate_defs cost_severity_def by blast
qed

lemma gp2_1000_found: "\<exists>i. ebs_gp2_to_gp3_evaluate 7 gp2_facts today clock = Inr (found i) \<and> ins_account i = Some vol_account"
proof -
  obtain p2 p3 where p: "ebs_price_per_gb_month (PStr ''gp2'') (PStr ''eu-west-1'') = Inr (Some p2)" "usd_per_gb_month p2 = lit 11 2"
    "ebs_price_per_gb_month (PStr ''gp3'') (PStr ''eu-west-1'') = Inr (Some p3)" "usd_per_gb_month p3 = lit 88 3"
    using eu_gp_prices by blast
  obtain pct where "gp2_savings_pct 22 110 = Inr pct" using gp2_savings_pct_defined by blast
  then have c: "\<exists>cost. gp2_compute_cost (index_facts gp2_facts) d = Inr (Some cost)" for d
    using p by (simp add: gp2_compute_cost_def idx_value_known size_or_malformed_def storage_amount_def amounts_1000)
  have e: "gp2_should_emit (index_facts gp2_facts) = Inr True" by (simp add: gp2_should_emit_def idx_value_known)
  have g: "storage_gates GP2_CONFIG (index_facts gp2_facts) = []" by (simp add: storage_gates_Nil) (simp add: GP2_CONFIG_def)
  obtain cost where cost: "compute_cost GP2_CONFIG (index_facts gp2_facts) (case today of Some d \<Rightarrow> d | None \<Rightarrow> clock) = Inr (Some cost)"
    using c by (auto simp: GP2_CONFIG_def)
  obtain t r where "build_title GP2_CONFIG (index_facts gp2_facts) cost = Inr t" "build_recommendation GP2_CONFIG (index_facts gp2_facts) cost = Inr r"
    using gp2.texts [OF cost] by blast
  then have "\<exists>i. make_storage_insight GP2_CONFIG (index_facts gp2_facts) 7 cost (Some EBS_CATALOG_VERSION) = Inr i \<and> ins_account i = Some vol_account"
    by (simp add: make_storage_insight_def)
      (simp add: GP2_CONFIG_def account_id_of_def fact_eval gp2_facts_def vol_fact_def)
  then show ?thesis using cost e g
    by (auto simp: ebs_gp2_to_gp3_evaluate_def evaluate_storage_def Let_def storage_attempt_def) (auto simp: GP2_CONFIG_def)
qed

theorem storage_finding_amount_witness:
  "\<exists>i x. ebs_gp2_to_gp3_evaluate 7 gp2_facts None (Date 2026 7 1) = Inr (found i) \<and>
    monthly_cost_and_basis (ins_rule i) (ins_payload i) = Inr (Some x, Some ''ESTIMATED'') \<and>
    ins_severity i = (if 500 \<le> x then CRITICAL else if 50 \<le> x then WARNING else INFO)"
  using gp2_1000_found [of None "Date 2026 7 1"] storage_finding_amount [where ev = ebs_gp2_to_gp3_evaluate]
  by (fastforce simp: storage_evaluators_def)

text \<open>A storage rule raises nothing but \<open>OverflowError\<close> (a size beyond the float range) or \<open>TypeError\<close>
  (a list or dictionary where a type, tier or region is expected): malformed sizes, timestamps and
  correlation flags and uncatalogued types are all turned into inconclusive results.\<close>

theorem storage_raises_only:
  assumes "ev \<in> set storage_evaluators" and "ev rid facts today clock = Inl e"
  shows "e = OverflowError \<or> e = TypeError"
  using assms(1)
proof (cases rule: storage_evaluators_cases)
  case 1
  then show ?thesis using assms(2) gp2.raises_only unfolding storage_evaluate_defs by blast
next
  case 2
  then show ?thesis using assms(2) unattached.raises_only unfolding storage_evaluate_defs by blast
next
  case 3
  then show ?thesis using assms(2) snapshot.raises_only unfolding storage_evaluate_defs by blast
qed

definition bad_region_facts :: "fact list" where
  "bad_region_facts = [vol_fact ''volume_type'' (PStr ''gp2''), vol_fact ''size_gb'' (PInt 1000),
     vol_fact ''region'' (PList [PInt 1])]"

theorem storage_raises_only_witness:
  "\<exists>e. ebs_gp2_to_gp3_evaluate 7 bad_region_facts None (Date 2026 7 1) = Inl e \<and> (e = OverflowError \<or> e = TypeError)"
proof -
  have "ebs_gp2_to_gp3_evaluate 7 bad_region_facts None (Date 2026 7 1) = Inl TypeError"
    by (simp add: ebs_gp2_to_gp3_evaluate_def evaluate_storage_def Let_def storage_attempt_def storage_gates_def
        GP2_CONFIG_def gp2_should_emit_def gp2_compute_cost_def size_or_malformed_def fact_eval bad_region_facts_def
        vol_fact_def ebs_price_per_gb_month_def lookup_price_def)
  then show ?thesis using storage_raises_only [where ev = ebs_gp2_to_gp3_evaluate]
    by (fastforce simp: storage_evaluators_def)
qed

text \<open>C13: An orphan snapshot is reported only on proof. A finding of \<open>snapshot_orphan\<close> means that all five
  facts are \<open>KNOWN\<close>, the snapshot is completed, the region's volume scan recorded that its source volume does not exist, and
  its description names no AMI.\<close>

theorem snapshot_orphan_proven:
  assumes "snapshot_orphan_evaluate rid facts today clock = Inr r" and "insights r \<noteq> []"
  shows "list_all (known (index_facts facts)) [''aws.ec2.snapshot.state'', ''aws.ec2.snapshot.size_gb'',
        ''aws.ec2.snapshot.volume_exists'', ''aws.ec2.snapshot.description'', ''aws.ec2.snapshot.region''] \<and>
    fact_val (index_facts facts) ''aws.ec2.snapshot.state'' = PStr ''completed'' \<and>
    fact_val (index_facts facts) ''aws.ec2.snapshot.volume_exists'' = PBool False \<and>
    (\<forall>s. fact_val (index_facts facts) ''aws.ec2.snapshot.description'' = PStr s \<longrightarrow>
      \<not> str_contains ''ami-'' (map lower_char s))"
proof -
  let ?idx = "index_facts facts"
  have k: "list_all (known ?idx) (required_facts SNAPSHOT_CONFIG)"
    and e: "should_emit SNAPSHOT_CONFIG ?idx = Inr True"
    using evaluate_storage_found [OF assms(1) [unfolded snapshot_orphan_evaluate_def] assms(2)] by metis+
  then have l: "list_all (known ?idx) [''aws.ec2.snapshot.state'', ''aws.ec2.snapshot.size_gb'',
      ''aws.ec2.snapshot.volume_exists'', ''aws.ec2.snapshot.description'', ''aws.ec2.snapshot.region'']"
    by (simp add: SNAPSHOT_CONFIG_def)
  with e have "fact_val ?idx ''aws.ec2.snapshot.state'' = PStr ''completed''"
    "fact_val ?idx ''aws.ec2.snapshot.volume_exists'' = PBool False"
    "\<forall>s. fact_val ?idx ''aws.ec2.snapshot.description'' = PStr s \<longrightarrow> \<not> str_contains ''ami-'' (map lower_char s)"
    by (auto simp: SNAPSHOT_CONFIG_def snapshot_should_emit_def idx_value_known COMPLETED_STATE_def
        AMI_REFERENCE_TOKEN_def split: if_splits pyval.splits)
  then show ?thesis using l by blast
qed

definition snap_fact :: "string \<Rightarrow> pyval \<Rightarrow> fact" where
  "snap_fact k v = make_fact_builder ''aws.ec2.snapshot'' ''aws_ec2'' ''acct'' 0 9 k v (known_or_unknown v)"

definition orphan_facts :: "fact list" where
  "orphan_facts = [snap_fact ''state'' (PStr ''completed''), snap_fact ''size_gb'' (PInt 1000),
     snap_fact ''volume_exists'' (PBool False), snap_fact ''description'' (PStr ''nightly''),
     snap_fact ''region'' (PStr ''us-east-1'')]"

lemma orphan_found_if:
  assumes "known (index_facts fs) ''aws.ec2.snapshot.state''" "known (index_facts fs) ''aws.ec2.snapshot.size_gb''"
    "known (index_facts fs) ''aws.ec2.snapshot.volume_exists''" "known (index_facts fs) ''aws.ec2.snapshot.description''"
    "known (index_facts fs) ''aws.ec2.snapshot.region''"
    and "fact_val (index_facts fs) ''aws.ec2.snapshot.state'' = PStr ''completed''"
    and "fact_val (index_facts fs) ''aws.ec2.snapshot.size_gb'' = PInt 1000"
    and "fact_val (index_facts fs) ''aws.ec2.snapshot.volume_exists'' = PBool False"
    and "fact_val (index_facts fs) ''aws.ec2.snapshot.description'' = PStr ''nightly''"
    and "fact_val (index_facts fs) ''aws.ec2.snapshot.region'' = PStr ''us-east-1''"
    and "fact_val (index_facts fs) ''aws.ec2.snapshot.start_time'' = PNone"
    and "snapshot_tier (index_facts fs) = ''standard''"
  shows "\<exists>i. snapshot_orphan_evaluate rid fs today clock = Inr (found i)"
proof -
  let ?idx = "index_facts fs"
  have "\<exists>p. ebs_snapshot_price_per_gb_month (PStr ''standard'') (PStr ''us-east-1'') = Inr (Some p)"
    by (simp add: ebs_snapshot_price_per_gb_month_def lookup_price_def EBS_SNAPSHOT_PRICING_BY_REGION_def
        price_rows_get price_row_get SNAPSHOT_GRID_USD_def)
  then obtain cost where cost: "compute_cost SNAPSHOT_CONFIG ?idx (case today of Some d \<Rightarrow> d | None \<Rightarrow> clock) = Inr (Some cost)"
    using assms
    by (auto simp: SNAPSHOT_CONFIG_def snapshot_compute_cost_def idx_value_known size_or_malformed_def Let_def
        storage_amount_def age_days_def)
  have low: "\<not> str_contains AMI_REFERENCE_TOKEN (map lower_char ''nightly'')" by code_simp
  have e: "should_emit SNAPSHOT_CONFIG ?idx = Inr True" using low assms
    by (simp add: SNAPSHOT_CONFIG_def snapshot_should_emit_def idx_value_known COMPLETED_STATE_def)
  have g: "storage_gates SNAPSHOT_CONFIG ?idx = []"
    using assms by (simp add: storage_gates_Nil) (simp add: SNAPSHOT_CONFIG_def)
  obtain t r where "build_title SNAPSHOT_CONFIG ?idx cost = Inr t" "build_recommendation SNAPSHOT_CONFIG ?idx cost = Inr r"
    using snapshot.texts [OF cost] by blast
  then have "\<exists>i. make_storage_insight SNAPSHOT_CONFIG ?idx rid cost (Some EBS_CATALOG_VERSION) = Inr i"
    by (simp add: make_storage_insight_def) (simp add: SNAPSHOT_CONFIG_def)
  then show ?thesis using cost e g
    by (auto simp: snapshot_orphan_evaluate_def evaluate_storage_def Let_def storage_attempt_def)
qed

lemma orphan_found: "\<exists>i. snapshot_orphan_evaluate 9 orphan_facts today clock = Inr (found i)"
  by (rule orphan_found_if) (simp_all add: fact_eval orphan_facts_def snap_fact_def snapshot_tier_def)

theorem snapshot_orphan_proven_witness:
  "\<exists>i. snapshot_orphan_evaluate 9 orphan_facts None (Date 2026 7 1) = Inr (found i) \<and>
    fact_val (index_facts orphan_facts) ''aws.ec2.snapshot.volume_exists'' = PBool False"
  using orphan_found [of None "Date 2026 7 1"] snapshot_orphan_proven [of 9 orphan_facts None "Date 2026 7 1"] by force

text \<open>The region honesty flag of an \<open>ebs_unattached\<close> finding is exact. The payload says \<open>price_region_exact: true\<close>
  precisely when the region's own grid lists the volume's type; otherwise the amount comes from the
  us-east-1 grid and the payload names it.\<close>

theorem unattached_region_honest:
  assumes "ebs_unattached_evaluate rid facts today clock = Inr (found i)"
    and "fact_val (index_facts facts) ''aws.ec2.volume.region'' = PStr r"
    and "fact_val (index_facts facts) ''aws.ec2.volume.volume_type'' = PStr vt"
  shows "pget (ins_payload i) ''price_region_exact'' =
      PBool (\<exists>row. dict_get STORAGE_GRID_USD r = Some row \<and> dict_get row vt \<noteq> None) \<and>
    (pget (ins_payload i) ''pricing_region'' = PStr r \<or>
     pget (ins_payload i) ''pricing_region'' = PStr ''us-east-1'' \<and>
     pget (ins_payload i) ''price_region_exact'' = PBool False)"
proof -
  have ne: "insights (found i) \<noteq> []" by simp
  show ?thesis
  proof (rule unattached.found [OF assms(1) [unfolded ebs_unattached_evaluate_def] ne])
    fix cost j e
    assume c: "compute_cost UNATTACHED_CONFIG (index_facts facts) (case today of Some d \<Rightarrow> d | None \<Rightarrow> clock) = Inr (Some cost)"
      and j: "found i = found j" "pget (ins_payload j) ''price_region_exact'' = PBool (cost_region_exact cost)"
        "pget (ins_payload j) ''pricing_region'' = PStr (pricing_region cost)"
    from c have "unattached_compute_cost (index_facts facts) (case today of Some d \<Rightarrow> d | None \<Rightarrow> clock) = Inr (Some cost)"
      by (simp add: UNATTACHED_CONFIG_def)
    then show ?thesis
    proof (rule unattached_cost_inv)
      fix v n region p m
      assume v: "idx_value (index_facts facts) ''aws.ec2.volume.volume_type'' = Inr v"
        "idx_value (index_facts facts) ''aws.ec2.volume.region'' = Inr region"
        and p: "ebs_price_per_gb_month v region = Inr (Some p)"
        and cost: "cost = \<lparr>monthly_usd = m, monetary_payload_key = ''monthly_waste_usd'',
          pricing_region = price_region p, cost_region_exact = price_region_exact region p,
          extras = [(''volume_size_gb'', PInt n), (''volume_type'', v), (''state'', PStr UNATTACHED_STATE)]\<rparr>"
      have vr: "v = PStr vt" "region = PStr r"
        using v assms(2,3) by (auto simp: idx_value_def fact_val_def split: option.splits)
      have l: "lookup_price (price_rows EBS_PRICING_URL STORAGE_GRID_USD) (PStr vt) (PStr r) = Inr (Some p)"
        using p by (simp add: ebs_price_per_gb_month_def EBS_PRICING_BY_REGION_def vr)
      note s = lookup_price_sound [OF l STORAGE_GRID_ok] price_region_exact_honest [OF l STORAGE_GRID_ok]
      have "i = j" using j(1) by simp
      then show ?thesis using s j(2,3) by (auto simp: cost vr DEFAULT_REGION_def price_region_exact_def)
    qed
  qed
qed

lemma unattached_1000_found: "\<exists>i. ebs_unattached_evaluate 7 gp2_facts today clock = Inr (found i)"
proof -
  let ?idx = "index_facts gp2_facts"
  obtain cost where cost: "compute_cost UNATTACHED_CONFIG ?idx (case today of Some d \<Rightarrow> d | None \<Rightarrow> clock) = Inr (Some cost)"
    using eu_gp_prices(1)
    by (auto simp: UNATTACHED_CONFIG_def unattached_compute_cost_def idx_value_known size_or_malformed_def storage_amount_def)
  have e: "should_emit UNATTACHED_CONFIG ?idx = Inr True"
    by (simp add: UNATTACHED_CONFIG_def unattached_should_emit_def idx_value_known UNATTACHED_STATE_def)
  have g: "storage_gates UNATTACHED_CONFIG ?idx = []" by (simp add: storage_gates_Nil) (simp add: UNATTACHED_CONFIG_def)
  obtain t r where "build_title UNATTACHED_CONFIG ?idx cost = Inr t" "build_recommendation UNATTACHED_CONFIG ?idx cost = Inr r"
    using unattached.texts [OF cost] by blast
  then have "\<exists>i. make_storage_insight UNATTACHED_CONFIG ?idx 7 cost (Some EBS_CATALOG_VERSION) = Inr i"
    by (simp add: make_storage_insight_def) (simp add: UNATTACHED_CONFIG_def)
  then show ?thesis using cost e g
    by (auto simp: ebs_unattached_evaluate_def evaluate_storage_def Let_def storage_attempt_def)
qed

theorem unattached_region_honest_witness:
  "\<exists>i. ebs_unattached_evaluate 7 gp2_facts None (Date 2026 7 1) = Inr (found i) \<and>
    pget (ins_payload i) ''price_region_exact'' = PBool True"
proof -
  obtain i where i: "ebs_unattached_evaluate 7 gp2_facts None (Date 2026 7 1) = Inr (found i)"
    using unattached_1000_found by blast
  have "\<exists>row. dict_get STORAGE_GRID_USD ''eu-west-1'' = Some row \<and> dict_get row ''gp2'' \<noteq> None"
    by (simp add: STORAGE_GRID_USD_def)
  then show ?thesis using unattached_region_honest [OF i, of "''eu-west-1''" "''gp2''"] i by auto
qed

text \<open>An uncatalogued volume type is never priced at zero. An available volume whose facts are known and whose type is
  in no grid that applies is inconclusive with the reason \<open>catalog.volume_type_price_missing\<close>.\<close>

theorem unattached_unknown_type:
  assumes "\<forall>k \<in> {''aws.ec2.volume.state'', ''aws.ec2.volume.size_gb'', ''aws.ec2.volume.volume_type'', ''aws.ec2.volume.region''}.
      known (index_facts facts) k"
    and "fact_val (index_facts facts) ''aws.ec2.volume.state'' = PStr ''available''"
    and "fact_val (index_facts facts) ''aws.ec2.volume.size_gb'' = PInt n"
    and "fact_val (index_facts facts) ''aws.ec2.volume.region'' = PStr r"
    and "fact_val (index_facts facts) ''aws.ec2.volume.volume_type'' = PStr vt"
    and "\<forall>r' row. dict_get STORAGE_GRID_USD r' = Some row \<longrightarrow> dict_get row vt = None"
  shows "ebs_unattached_evaluate rid facts today clock = Inr (unsure [''catalog.volume_type_price_missing''])"
proof -
  let ?idx = "index_facts facts"
  obtain p where p: "ebs_price_per_gb_month (PStr vt) (PStr r) = Inr p"
    using lookup_price_string unfolding ebs_price_per_gb_month_def by blast
  have "p = None"
  proof (cases p)
    case (Some q)
    then have "lookup_price (price_rows EBS_PRICING_URL STORAGE_GRID_USD) (PStr vt) (PStr r) = Inr (Some q)"
      using p by (simp add: ebs_price_per_gb_month_def EBS_PRICING_BY_REGION_def)
    from lookup_price_sound [OF this STORAGE_GRID_ok] assms(6) show ?thesis by auto
  qed
  then have c: "unattached_compute_cost ?idx d = Inl (StorageInconclusiveError ''catalog.volume_type_price_missing'')" for d
    using assms(1,3,4,5) p by (simp add: unattached_compute_cost_def idx_value_known size_or_malformed_def)
  have e: "unattached_should_emit ?idx = Inr True"
    using assms(1,2) by (simp add: unattached_should_emit_def idx_value_known UNATTACHED_STATE_def)
  have g: "storage_gates UNATTACHED_CONFIG ?idx = []"
    using assms(1) by (simp add: storage_gates_Nil) (simp add: UNATTACHED_CONFIG_def)
  show ?thesis
    using g by (simp add: ebs_unattached_evaluate_def evaluate_storage_def Let_def storage_attempt_def)
      (simp add: UNATTACHED_CONFIG_def e c)
qed

definition io3_facts :: "fact list" where
  "io3_facts = [vol_fact ''volume_type'' (PStr ''io3''), vol_fact ''size_gb'' (PInt 1000),
     vol_fact ''state'' (PStr ''available''), vol_fact ''region'' (PStr ''eu-west-1'')]"

theorem unattached_unknown_type_witness:
  "ebs_unattached_evaluate 7 io3_facts None (Date 2026 7 1) = Inr (unsure [''catalog.volume_type_price_missing''])"
  by (rule unattached_unknown_type [where n = 1000 and r = "''eu-west-1''" and vt = "''io3''"])
    (auto simp: fact_eval io3_facts_def vol_fact_def STORAGE_GRID_USD_def split: if_splits)

section \<open>The gp2 to gp3 saving\<close>

lemma grid_lists_gp:
  "dict_get STORAGE_GRID_USD r = Some row \<Longrightarrow> dict_get row ''gp2'' \<noteq> None \<and> dict_get row ''gp3'' \<noteq> None"
  by (auto simp: STORAGE_GRID_USD_def split: if_splits)

lemma grid_gp_rates:
  "dict_get STORAGE_GRID_USD r = Some row \<Longrightarrow> dict_get row ''gp2'' = Some x \<Longrightarrow> dict_get row ''gp3'' = Some y \<Longrightarrow>
    \<bar>y - 4 / 5 * x\<bar> \<le> 1 / 10 ^ 15 \<and> 1 / 20 \<le> x \<and> x \<le> 1 / 5"
  by (auto simp: STORAGE_GRID_USD_def fl_eval split: if_splits)

lemma gp_same_grid:
  assumes "ebs_price_per_gb_month (PStr k) region = Inr (Some p)" and "k \<in> {''gp2'', ''gp3''}"
  shows "price_region p = (case region of PStr r \<Rightarrow> if dict_get STORAGE_GRID_USD r = None then DEFAULT_REGION else r
    | _ \<Rightarrow> DEFAULT_REGION)"
proof -
  have l: "lookup_price (price_rows EBS_PRICING_URL STORAGE_GRID_USD) (PStr k) region = Inr (Some p)"
    using assms(1) by (simp add: ebs_price_per_gb_month_def EBS_PRICING_BY_REGION_def)
  note s = lookup_price_sound [OF l STORAGE_GRID_ok] and h = price_region_exact_honest [OF l STORAGE_GRID_ok]
  show ?thesis
  proof (cases region)
    case (PStr r)
    then show ?thesis using s h grid_lists_gp [of r] assms(2)
      by (auto simp: price_region_exact_def)
  qed (use s in auto)
qed

lemma gp_rows:
  assumes "ebs_price_per_gb_month (PStr ''gp2'') region = Inr (Some p2)"
    and "ebs_price_per_gb_month (PStr ''gp3'') region = Inr (Some p3)"
  shows "\<exists>r row. dict_get STORAGE_GRID_USD r = Some row \<and> dict_get row ''gp2'' = Some (usd_per_gb_month p2) \<and>
    dict_get row ''gp3'' = Some (usd_per_gb_month p3)"
proof -
  have same: "price_region p2 = price_region p3"
    using gp_same_grid [OF assms(1)] gp_same_grid [OF assms(2)] by simp
  have l: "lookup_price (price_rows EBS_PRICING_URL STORAGE_GRID_USD) (PStr ''gp2'') region = Inr (Some p2)"
    "lookup_price (price_rows EBS_PRICING_URL STORAGE_GRID_USD) (PStr ''gp3'') region = Inr (Some p3)"
    using assms by (simp_all add: ebs_price_per_gb_month_def EBS_PRICING_BY_REGION_def)
  have k: "price_of p2 = ''gp2''" "price_of p3 = ''gp3''"
    using lookup_price_sound(2) [OF l(1) STORAGE_GRID_ok] lookup_price_sound(2) [OF l(2) STORAGE_GRID_ok] by simp_all
  obtain row where "dict_get STORAGE_GRID_USD (price_region p2) = Some row" "dict_get row ''gp2'' = Some (usd_per_gb_month p2)"
    using lookup_price_sound(3) [OF l(1) STORAGE_GRID_ok] k by auto
  moreover obtain row' where "dict_get STORAGE_GRID_USD (price_region p2) = Some row'" "dict_get row' ''gp3'' = Some (usd_per_gb_month p3)"
    using lookup_price_sound(3) [OF l(2) STORAGE_GRID_ok] k same by auto
  ultimately show ?thesis by auto
qed

lemma saving_amount:
  assumes r: "\<bar>r3 - 4 / 5 * r2\<bar> \<le> 1 / 10 ^ 15" "1 / 20 \<le> r2" "r2 \<le> 1 / 5" and n: "0 \<le> n" "n \<le> 2 ^ 31"
    and c: "c = py_round (fmul r2 (of_int n)) 2" and t: "t = py_round (fmul r3 (of_int n)) 2"
    and s: "s = py_round (fsub c t) 2"
  shows "\<bar>s - of_int n * (r2 - r3)\<bar> \<le> 16 / 1000" and "\<bar>s - r2 * of_int n / 5\<bar> \<le> 161 / 10000"
    and "\<bar>c - r2 * of_int n\<bar> \<le> 1 / 100"
proof -
  have "(1 :: rat) / 10 ^ 15 \<le> 1 / 1000" by simp
  then have r3: "0 \<le> r3" "r3 \<le> 1" using r by linarith+
  have N: "(of_int n :: rat) \<le> 2147483648" "(0 :: rat) \<le> of_int n" using n by simp_all
  have ec: "\<bar>c - r2 * of_int n\<bar> \<le> 1 / 200 + 1 / 500000" and et: "\<bar>t - r3 * of_int n\<bar> \<le> 1 / 200 + 1 / 500000"
    unfolding c t using r r3 n by (intro money_product_error; simp)+
  then show "\<bar>c - r2 * of_int n\<bar> \<le> 1 / 100" by linarith
  have d: "\<bar>r3 * of_int n - 4 / 5 * (r2 * of_int n)\<bar> \<le> 1 / 400000"
  proof -
    have "r3 * of_int n - 4 / 5 * (r2 * of_int n) = (r3 - 4 / 5 * r2) * of_int n" by (simp add: algebra_simps)
    then have "\<bar>r3 * of_int n - 4 / 5 * (r2 * of_int n)\<bar> = \<bar>r3 - 4 / 5 * r2\<bar> * of_int n"
      using N by (simp add: abs_mult)
    also have "\<dots> \<le> 1 / 10 ^ 15 * 2147483648" using r(1) N by (intro mult_mono) auto
    finally show ?thesis by simp
  qed
  have "r2 * of_int n \<le> 1 * of_int n" using r N by (intro mult_right_mono) auto
  then have X: "0 \<le> r2 * of_int n" "r2 * of_int n \<le> 2147483648" using r N by auto
  have ct: "\<bar>c - t\<bar> \<le> 2147483648" using ec et d X by linarith
  have e1: "\<bar>fsub c t - (c - t)\<bar> \<le> 1 / 4194304"
    using fl_bound [of "c - t" 31] ct by (simp add: fsub_def pow2_numeral)
  have "\<bar>fsub c t\<bar> \<le> 4294967296" using e1 ct by linarith
  then have e2: "\<bar>s - fsub c t\<bar> \<le> 1 / 200 + 1 / 1048576"
    using py_round_error [of "fsub c t" 32 2] unfolding s by (simp add: pow2_numeral)
  have "\<bar>s - (r2 * of_int n - r3 * of_int n)\<bar> \<le> 16 / 1000" using e1 e2 ec et by linarith
  then show "\<bar>s - of_int n * (r2 - r3)\<bar> \<le> 16 / 1000" by (simp add: algebra_simps)
  show "\<bar>s - r2 * of_int n / 5\<bar> \<le> 161 / 10000" using e1 e2 ec et d by linarith
qed

lemma saving_percentage:
  assumes x: "\<bar>s - X / 5\<bar> \<le> 161 / 10000" "\<bar>c - X\<bar> \<le> 1 / 100" "X \<le> 2147483648" "1 / 2 \<le> s"
    and pct: "gp2_savings_pct s c = Inr pct"
  shows "19 \<le> pct \<and> pct \<le> 21"
proof -
  have X: "24 / 10 \<le> X" using x by linarith
  have c: "0 < c" using X x(2) by linarith
  have "\<bar>100 * s\<bar> \<le> 274877906944" using x X by linarith
  then have z: "\<bar>fmul 100 s - 100 * s\<bar> \<le> 1 / 32768"
    using fl_bound [of "100 * s" 38] by (simp add: fmul_def pow2_numeral)
  define q where "q = fmul 100 s / c"
  have "191 / 10 * c \<le> fmul 100 s" "fmul 100 s \<le> 209 / 10 * c" using z x X by linarith+
  then have q: "191 / 10 \<le> q" "q \<le> 209 / 10" using c by (simp_all add: q_def le_divide_eq divide_le_eq)
  have f: "\<bar>fl q - q\<bar> \<le> 1 / 10000" using fl_bound [of q 5] q by (simp add: pow2_numeral)
  have p: "pct = py_round (fl q) 1" using pct c by (simp add: gp2_savings_pct_def fdiv_def q_def)
  have "\<bar>fl q\<bar> \<le> 32" using f q by linarith
  then have "\<bar>pct - fl q\<bar> \<le> 1 / 20 + 1 / 10000"
    using py_round_error [of "fl q" 5 1] by (simp add: p pow2_numeral)
  then show ?thesis using f q by linarith
qed

text \<open>The advertised saving is real. A finding of \<open>ebs_gp2_to_gp3\<close> concerns a gp2 volume, its amount is at least half a
  dollar and equals, to less than two cents, size times the difference of the two rates of one grid, and
  the percentage it states lies between 19 and 21.\<close>

theorem gp2_saving_is_about_20_percent:
  assumes "ebs_gp2_to_gp3_evaluate rid facts today clock = Inr (found i)"
    and "fact_val (index_facts facts) ''aws.ec2.volume.size_gb'' = PInt n" and "0 \<le> n" and "n \<le> 2 ^ 31"
  shows "\<exists>s pct r2 r3. fact_val (index_facts facts) ''aws.ec2.volume.volume_type'' = PStr ''gp2'' \<and>
    pget (ins_payload i) ''savings_monthly_usd'' = PFloat s \<and> pget (ins_payload i) ''savings_pct'' = PFloat pct \<and>
    (\<exists>r row. dict_get STORAGE_GRID_USD r = Some row \<and> dict_get row ''gp2'' = Some r2 \<and> dict_get row ''gp3'' = Some r3) \<and>
    1 / 2 \<le> s \<and> \<bar>s - of_int n * (r2 - r3)\<bar> < 2 / 100 \<and> 19 \<le> pct \<and> pct \<le> 21"
proof -
  let ?idx = "index_facts facts"
  have ne: "insights (found i) \<noteq> []" by simp
  obtain cost j where k: "list_all (known ?idx) (required_facts GP2_CONFIG)"
    and em: "should_emit GP2_CONFIG ?idx = Inr True"
    and comp: "compute_cost GP2_CONFIG ?idx (case today of Some d \<Rightarrow> d | None \<Rightarrow> clock) = Inr (Some cost)"
    and mk: "make_storage_insight GP2_CONFIG ?idx rid cost (Some EBS_CATALOG_VERSION) = Inr j" and ij: "found i = found j"
    by (rule evaluate_storage_found [OF assms(1) [unfolded ebs_gp2_to_gp3_evaluate_def] ne])
  have kn: "known ?idx ''aws.ec2.volume.volume_type''" "known ?idx ''aws.ec2.volume.size_gb''" "known ?idx ''aws.ec2.volume.region''"
    using k by (simp_all add: GP2_CONFIG_def)
  have vt: "fact_val ?idx ''aws.ec2.volume.volume_type'' = PStr ''gp2''"
    using em kn by (simp add: GP2_CONFIG_def gp2_should_emit_def idx_value_known)
  obtain rec where pl: "ins_payload i = storage_payload GP2_CONFIG cost rec (Some EBS_CATALOG_VERSION)"
    using make_storage_insight_simps(4) [OF mk] ij by auto
  from comp have "gp2_compute_cost ?idx (case today of Some d \<Rightarrow> d | None \<Rightarrow> clock) = Inr (Some cost)"
    by (simp add: GP2_CONFIG_def)
  then show ?thesis
  proof (rule gp2_cost_inv)
    fix region m p2 p3 c t pct
    assume m: "size_or_malformed ?idx ''aws.ec2.volume.size_gb'' = Inr m"
      and p: "ebs_price_per_gb_month (PStr ''gp2'') region = Inr (Some p2)" "ebs_price_per_gb_month (PStr ''gp3'') region = Inr (Some p3)"
      and c: "storage_amount (usd_per_gb_month p2) m = Inr c" and t: "storage_amount (usd_per_gb_month p3) m = Inr t"
      and min: "MIN_SAVINGS_USD_PER_MONTH \<le> py_round (fsub c t) 2"
      and pct: "gp2_savings_pct (py_round (fsub c t) 2) c = Inr pct"
      and cost: "cost = \<lparr>monthly_usd = py_round (fsub c t) 2, monetary_payload_key = ''savings_monthly_usd'',
        pricing_region = price_region p2, cost_region_exact = (price_region_exact region p2 \<and> price_region_exact region p3),
        extras = [(''volume_size_gb'', PInt m), (''current_volume_type'', PStr ''gp2''),
        (''target_volume_type'', PStr ''gp3''), (''current_monthly_usd'', PFloat c),
        (''target_monthly_usd'', PFloat t), (''savings_pct'', PFloat pct)]\<rparr>"
    have mn: "m = n" using m kn(2) assms(2) by (simp add: size_Inr)
    obtain r row where row: "dict_get STORAGE_GRID_USD r = Some row" "dict_get row ''gp2'' = Some (usd_per_gb_month p2)"
      "dict_get row ''gp3'' = Some (usd_per_gb_month p3)" using gp_rows [OF p] by blast
    note rates = grid_gp_rates [OF row]
    have ct: "c = py_round (fmul (usd_per_gb_month p2) (of_int n)) 2" "t = py_round (fmul (usd_per_gb_month p3) (of_int n)) 2"
      using c t assms(3,4) storage_amount_defined [of n] by (simp_all add: mn)
    note amt = saving_amount [OF conjunct1 [OF rates] conjunct1 [OF conjunct2 [OF rates]] conjunct2 [OF conjunct2 [OF rates]]
        assms(3,4) ct refl]
    have half: "1 / 2 \<le> py_round (fsub c t) 2" using min by (simp add: amounts_1000(4))
    have "usd_per_gb_month p2 * of_int n \<le> 1 * 2147483648"
      using rates assms(3,4) by (intro mult_mono) auto
    then have "19 \<le> pct \<and> pct \<le> 21" using saving_percentage [OF amt(2,3) _ half pct] by simp
    moreover have "pget (ins_payload i) ''savings_monthly_usd'' = PFloat (py_round (fsub c t) 2)"
      "pget (ins_payload i) ''savings_pct'' = PFloat pct"
      by (simp_all add: pl cost storage_payload_def pget_def get_default_def dict_get_update dict_get_of)
    moreover have "\<bar>py_round (fsub c t) 2 - of_int n * (usd_per_gb_month p2 - usd_per_gb_month p3)\<bar> < 2 / 100"
      using amt(1) by linarith
    ultimately show ?thesis using vt half row by blast
  qed
qed

theorem gp2_saving_is_about_20_percent_witness:
  "\<exists>i s pct. ebs_gp2_to_gp3_evaluate 7 gp2_facts None (Date 2026 7 1) = Inr (found i) \<and>
    pget (ins_payload i) ''savings_monthly_usd'' = PFloat s \<and> pget (ins_payload i) ''savings_pct'' = PFloat pct \<and>
    1 / 2 \<le> s \<and> 19 \<le> pct \<and> pct \<le> 21"
proof -
  obtain i where i: "ebs_gp2_to_gp3_evaluate 7 gp2_facts None (Date 2026 7 1) = Inr (found i)"
    using gp2_1000_found by blast
  show ?thesis using gp2_saving_is_about_20_percent [OF i, of 1000] i by auto
qed

end
