(* ===== verification/StoppedStorage.thy ===== *)
theory StoppedStorage
  imports StorageRules
begin

text \<open>
  The rule \<open>ec2_stopped_with_storage\<close>: a stopped instance pays for the volumes attached to
  it. Its evaluator is written out in \<open>resolver.py\<close>: three gates, a loop that prices each
  attached volume and accumulates the total, and the insight. The loop is a fold over
  the record \<open>pricing\<close>.
\<close>

record pricing =
  breakdown :: "pyval list"
  pricing_incomplete :: bool
  total :: pyfloat
  pricing_regions :: "string list"
  all_exact :: bool

definition STOPPED_STATE :: string where
  "STOPPED_STATE = ''stopped''"

text \<open>The price of one volume: nothing without a type, a lookup of its text otherwise.\<close>

definition volume_price :: "string \<Rightarrow> pyval \<Rightarrow> ebs_price option res" where
  "volume_price region volume_type =
    (if volume_type = PNone then Inr None
     else ebs_price_per_gb_month (PStr (py_str volume_type)) (PStr region))"

text \<open>\<open>round(price.usd_per_gb_month * int(size_gb), 2)\<close> when both are present; \<open>int\<close> is
  not guarded here.\<close>

definition volume_monthly :: "ebs_price option \<Rightarrow> pyval \<Rightarrow> pyfloat option res" where
  "volume_monthly price size_gb =
    (case price of
       None \<Rightarrow> Inr None
     | Some p \<Rightarrow> if size_gb = PNone then Inr None
         else rbind (py_int size_gb) (\<lambda>n. rmap Some (storage_amount (usd_per_gb_month p) n)))"

definition price_volume :: "string \<Rightarrow> payload \<Rightarrow> pricing \<Rightarrow> pricing res" where
  "price_volume region vol acc =
    (let volume_id = pget vol ''volume_id''; volume_type = pget vol ''volume_type''; size_gb = pget vol ''size_gb'' in
     rbind (volume_price region volume_type) (\<lambda>price.
     rmap (\<lambda>monthly.
       let row = PDict [(''volume_id'', volume_id), (''size_gb'', size_gb), (''volume_type'', volume_type),
             (''monthly_usd'', case monthly of None \<Rightarrow> PNone | Some m \<Rightarrow> PFloat m)];
           acc' = (case (monthly, price) of
             (Some m, Some p) \<Rightarrow> acc\<lparr>total := fadd (total acc) m,
                 pricing_regions := pricing_regions acc @ [price_region p],
                 all_exact := (all_exact acc \<and> price_region_exact (PStr region) p)\<rparr>
           | _ \<Rightarrow> acc\<lparr>pricing_incomplete := True\<rparr>)
       in acc'\<lparr>breakdown := breakdown acc' @ [row]\<rparr>) (volume_monthly price size_gb)))"

definition empty_pricing :: pricing where
  "empty_pricing = \<lparr>breakdown = [], pricing_incomplete = False, total = 0, pricing_regions = [], all_exact = True\<rparr>"

definition price_volumes :: "string \<Rightarrow> payload list \<Rightarrow> pricing res" where
  "price_volumes region vols = foldM (price_volume region) vols empty_pricing"

definition make_stopped_insight ::
    "uuid \<Rightarrow> string option \<Rightarrow> pyval list \<Rightarrow> bool \<Rightarrow> pyfloat \<Rightarrow> string \<Rightarrow> bool \<Rightarrow> insight" where
  "make_stopped_insight resource_id account_id volumes incomplete monthly region exact =
    (let count = int (length volumes) in
     \<lparr>ins_rule = ''ec2_stopped_with_storage'', ins_resource = Some resource_id, ins_account = account_id,
      ins_severity = cost_severity 500 50 monthly,
      ins_title = ''EC2 instance is stopped but '' @ str_of_int count @ '' attached EBS volume(s) still cost $'' @
        fmt2 monthly @ ''/month'',
      ins_payload =
        [(''state'', PStr STOPPED_STATE), (''volume_count'', PInt count), (''volumes'', PList volumes),
         (''stopped_storage_monthly_usd'', PFloat monthly), (''pricing_incomplete'', PBool incomplete),
         (''elastic_ip_cost_excluded'', PBool True), (''value_basis'', PStr ''ESTIMATED''),
         (''pricing_region'', PStr region), (''price_region_exact'', PBool exact),
         (''source_currency'', PStr ''USD''),
         (''recommendation'', PStr (''If the instance is decommissioned, snapshot the volumes (if the '' @
           ''data matters), then terminate the instance with DeleteOnTermination '' @
           ''or delete the volumes: aws ec2 delete-volume --volume-id <id>. '' @
           ''If it restarts on a schedule, consider moving cold data to '' @
           ''cheaper storage (sc1) or S3. Note: an associated Elastic IP '' @
           ''also bills while the instance is stopped '' @ em_dash @ '' not included here.'')),
         (''catalog_version'', PStr EBS_CATALOG_VERSION)]\<rparr>)"

text \<open>A list of dictionaries, or nothing.\<close>

fun as_dict :: "pyval \<Rightarrow> payload option" where
  "as_dict (PDict d) = Some d"
| "as_dict _ = None"

definition as_dicts :: "pyval \<Rightarrow> payload list option" where
  "as_dicts v = (case v of
     PList vs \<Rightarrow> if list_all (\<lambda>v. as_dict v \<noteq> None) vs then Some (map (\<lambda>v. the (as_dict v)) vs) else None
   | _ \<Rightarrow> None)"

definition ec2_stopped_evaluate :: "uuid \<Rightarrow> fact list \<Rightarrow> date option \<Rightarrow> date \<Rightarrow> outcome res" where
  "ec2_stopped_evaluate resource_id facts today clock =
    (let idx = index_facts facts in
     case dict_get idx ''aws.ec2.instance.state'' of
       None \<Rightarrow> Inr (unsure [''aws.ec2.instance.state''])
     | Some state_fact \<Rightarrow>
       if fact_state state_fact \<noteq> KNOWN then Inr (unsure [''aws.ec2.instance.state''])
       else if fact_value state_fact \<noteq> PStr STOPPED_STATE then Inr no_match
       else if \<not> known idx ''aws.ec2.instance.region'' then Inr (unsure [''aws.ec2.instance.region''])
       else let region = py_str (fact_val idx ''aws.ec2.instance.region'') in
       (case dict_get idx ''aws.ec2.instance.attached_volumes'' of
          None \<Rightarrow> Inr (unsure [''aws.ec2.instance.attached_volumes''])
        | Some volumes_fact \<Rightarrow>
          (case as_dicts (fact_value volumes_fact) of
             None \<Rightarrow> Inr (unsure [''aws.ec2.instance.attached_volumes.malformed''])
           | Some attached \<Rightarrow>
             if attached = [] then Inr no_match
             else rmap (\<lambda>acc. found (make_stopped_insight resource_id (fact_account state_fact) (breakdown acc)
                 (pricing_incomplete acc) (py_round (total acc) 2)
                 (case pricing_regions acc of [] \<Rightarrow> region | r # _ \<Rightarrow> r) (all_exact acc)))
               (price_volumes region attached))))"

section \<open>The loop\<close>

text \<open>What one volume contributes.\<close>

definition volume_cost :: "string \<Rightarrow> payload \<Rightarrow> pyfloat option res" where
  "volume_cost region vol =
    rbind (volume_price region (pget vol ''volume_type'')) (\<lambda>price. volume_monthly price (pget vol ''size_gb''))"

definition costs_ok :: "pyfloat option list \<Rightarrow> pricing \<Rightarrow> pricing \<Rightarrow> bool" where
  "costs_ok ms acc acc' = (length (breakdown acc') = length (breakdown acc) + length ms \<and>
     pricing_incomplete acc' = (pricing_incomplete acc \<or> None \<in> set ms) \<and>
     total acc' = foldl fadd (total acc) (map the (filter (\<lambda>m. m \<noteq> None) ms)))"

lemma price_volume_inv:
  assumes "price_volume region vol acc = Inr acc'"
  obtains price monthly row
  where "volume_price region (pget vol ''volume_type'') = Inr price"
    and "volume_monthly price (pget vol ''size_gb'') = Inr monthly"
    and "acc' = (case (monthly, price) of
        (Some m, Some p) \<Rightarrow> acc\<lparr>total := fadd (total acc) m, pricing_regions := pricing_regions acc @ [price_region p],
          all_exact := (all_exact acc \<and> price_region_exact (PStr region) p), breakdown := breakdown acc @ [row]\<rparr>
      | _ \<Rightarrow> acc\<lparr>pricing_incomplete := True, breakdown := breakdown acc @ [row]\<rparr>)"
proof -
  obtain price where p: "volume_price region (pget vol ''volume_type'') = Inr price"
    using assms by (auto simp: price_volume_def rbind_Inr_iff Let_def)
  obtain monthly where m: "volume_monthly price (pget vol ''size_gb'') = Inr monthly"
    using assms p by (auto simp: price_volume_def rbind_Inr_iff rmap_Inr_iff Let_def)
  show ?thesis
    using assms p m
    by (intro that [OF p m, where row = "PDict [(''volume_id'', pget vol ''volume_id''),
          (''size_gb'', pget vol ''size_gb''), (''volume_type'', pget vol ''volume_type''),
          (''monthly_usd'', case monthly of None \<Rightarrow> PNone | Some m \<Rightarrow> PFloat m)]"])
      (cases monthly; cases price; simp add: price_volume_def Let_def)
qed

lemma price_volume_cost:
  assumes "price_volume region vol acc = Inr acc'"
  shows "\<exists>m. volume_cost region vol = Inr m \<and> costs_ok [m] acc acc'"
  using assms
proof (rule price_volume_inv)
  fix price monthly row
  assume "volume_price region (pget vol ''volume_type'') = Inr price"
    and m: "volume_monthly price (pget vol ''size_gb'') = Inr monthly"
    and eq: "acc' = (case (monthly, price) of
        (Some m, Some p) \<Rightarrow> acc\<lparr>total := fadd (total acc) m, pricing_regions := pricing_regions acc @ [price_region p],
          all_exact := (all_exact acc \<and> price_region_exact (PStr region) p), breakdown := breakdown acc @ [row]\<rparr>
      | _ \<Rightarrow> acc\<lparr>pricing_incomplete := True, breakdown := breakdown acc @ [row]\<rparr>)"
  then have "volume_cost region vol = Inr monthly" by (simp add: volume_cost_def)
  moreover have "costs_ok [monthly] acc acc'"
    using m by (cases monthly; cases price) (auto simp: costs_ok_def eq volume_monthly_def)
  ultimately show ?thesis by blast
qed

lemma price_volumes_cost:
  assumes "foldM (price_volume region) vols acc = Inr acc'"
  shows "\<exists>ms. mapM (volume_cost region) vols = Inr ms \<and> costs_ok ms acc acc'"
  using assms
proof (induction vols arbitrary: acc)
  case Nil
  then show ?case by (simp add: costs_ok_def)
next
  case (Cons v vols)
  then obtain mid where mid: "price_volume region v acc = Inr mid" "foldM (price_volume region) vols mid = Inr acc'"
    by (auto simp: rbind_Inr_iff)
  obtain m ms where "volume_cost region v = Inr m" "costs_ok [m] acc mid"
    "mapM (volume_cost region) vols = Inr ms" "costs_ok ms mid acc'"
    using price_volume_cost [OF mid(1)] Cons.IH [OF mid(2)] by blast
  then show ?case by (intro exI [of _ "m # ms"]) (auto simp: costs_ok_def)
qed

section \<open>Properties\<close>

text \<open>C24: A stopped-instance finding accounts for every attached volume. Its facts say "stopped" and list at least
  one volume; the count is the number of listed volumes; the amount is the float sum, rounded to cents, of the monthly costs of the
  volumes that could be priced, and \<open>pricing_incomplete\<close> is set exactly when one of them could not.\<close>

theorem stopped_accounts_for_volumes:
  assumes "ec2_stopped_evaluate rid facts today clock = Inr r" and "insights r \<noteq> []"
  shows "\<exists>attached ms i. r = found i \<and>
    fact_val (index_facts facts) ''aws.ec2.instance.state'' = PStr ''stopped'' \<and>
    as_dicts (fact_val (index_facts facts) ''aws.ec2.instance.attached_volumes'') = Some attached \<and> attached \<noteq> [] \<and>
    mapM (volume_cost (py_str (fact_val (index_facts facts) ''aws.ec2.instance.region''))) attached = Inr ms \<and>
    pget (ins_payload i) ''volume_count'' = PInt (int (length attached)) \<and>
    pget (ins_payload i) ''pricing_incomplete'' = PBool (None \<in> set ms) \<and>
    pget (ins_payload i) ''stopped_storage_monthly_usd'' =
      PFloat (py_round (foldl fadd 0 (map the (filter (\<lambda>m. m \<noteq> None) ms))) 2)"
proof -
  let ?idx = "index_facts facts" and ?region = "py_str (fact_val (index_facts facts) ''aws.ec2.instance.region'')"
  obtain sf where sf: "dict_get ?idx ''aws.ec2.instance.state'' = Some sf"
    using assms by (auto simp: ec2_stopped_evaluate_def Let_def split: option.splits)
  have st: "fact_value sf = PStr ''stopped''"
    using assms sf by (auto simp: ec2_stopped_evaluate_def Let_def STOPPED_STATE_def split: if_splits)
  obtain vf where vf: "dict_get ?idx ''aws.ec2.instance.attached_volumes'' = Some vf"
    using assms sf by (auto simp: ec2_stopped_evaluate_def Let_def split: if_splits option.splits)
  obtain attached where att: "as_dicts (fact_value vf) = Some attached" "attached \<noteq> []"
    using assms sf vf by (auto simp: ec2_stopped_evaluate_def Let_def split: if_splits option.splits)
  obtain acc where acc: "price_volumes ?region attached = Inr acc"
    and r: "r = found (make_stopped_insight rid (fact_account sf) (breakdown acc) (pricing_incomplete acc)
      (py_round (total acc) 2) (case pricing_regions acc of [] \<Rightarrow> ?region | r # _ \<Rightarrow> r) (all_exact acc))"
    using assms sf vf att by (auto simp: ec2_stopped_evaluate_def Let_def rmap_Inr_iff split: if_splits)
  obtain ms where ms: "mapM (volume_cost ?region) attached = Inr ms" "costs_ok ms empty_pricing acc"
    using price_volumes_cost acc unfolding price_volumes_def by blast
  have "length (breakdown acc) = length attached" "pricing_incomplete acc = (None \<in> set ms)"
    "total acc = foldl fadd 0 (map the (filter (\<lambda>m. m \<noteq> None) ms))"
    using ms mapM_Inr_length [OF ms(1)] by (simp_all add: costs_ok_def empty_pricing_def)
  then show ?thesis using sf st vf att ms(1) r
    by (auto simp: fact_val_def make_stopped_insight_def Let_def)
qed

definition inst_fact :: "string \<Rightarrow> pyval \<Rightarrow> fact" where
  "inst_fact k v = make_fact_builder ''aws.ec2.instance'' ''aws_ec2'' ''acct'' 0 5 k v KNOWN"

definition attached_vol :: "string \<Rightarrow> pyval \<Rightarrow> pyval" where
  "attached_vol t sz = PDict [(''volume_id'', PStr ''vol-1''), (''size_gb'', sz), (''volume_type'', PStr t)]"

definition stopped_facts :: "pyval list \<Rightarrow> fact list" where
  "stopped_facts vols = [inst_fact ''state'' (PStr ''stopped''), inst_fact ''region'' (PStr ''eu-west-1''),
     inst_fact ''attached_volumes'' (PList vols)]"

lemma stopped_facts_eval:
  "ec2_stopped_evaluate 5 (stopped_facts [attached_vol t sz]) today clock =
    rmap (\<lambda>acc. found (make_stopped_insight 5 (Some ''acct'') (breakdown acc)
       (pricing_incomplete acc) (py_round (total acc) 2)
       (case pricing_regions acc of [] \<Rightarrow> ''eu-west-1'' | r # _ \<Rightarrow> r) (all_exact acc)))
     (price_volume ''eu-west-1'' [(''volume_id'', PStr ''vol-1''), (''size_gb'', sz), (''volume_type'', PStr t)] empty_pricing)"
  by (simp add: ec2_stopped_evaluate_def Let_def stopped_facts_def inst_fact_def fact_eval STOPPED_STATE_def as_dicts_def
      attached_vol_def price_volumes_def) (cases "price_volume ''eu-west-1'' [(''volume_id'', PStr ''vol-1''), (''size_gb'', sz), (''volume_type'', PStr t)] empty_pricing"; simp)

lemma gp2_volume: "volume_cost ''eu-west-1'' [(''volume_id'', PStr ''vol-1''), (''size_gb'', PInt 1000), (''volume_type'', PStr ''gp2'')] = Inr (Some 110)"
  using eu_gp_prices(1) by (auto simp: volume_cost_def volume_price_def volume_monthly_def storage_amount_def amounts_1000)

theorem stopped_accounts_for_volumes_witness:
  "\<exists>i. ec2_stopped_evaluate 5 (stopped_facts [attached_vol ''gp2'' (PInt 1000)]) None (Date 2026 7 1) = Inr (found i) \<and>
    pget (ins_payload i) ''volume_count'' = PInt 1 \<and> pget (ins_payload i) ''stopped_storage_monthly_usd'' = PFloat 110"
proof -
  have "\<exists>acc. price_volume ''eu-west-1'' [(''volume_id'', PStr ''vol-1''), (''size_gb'', PInt 1000), (''volume_type'', PStr ''gp2'')] empty_pricing = Inr acc"
    using eu_gp_prices(1) by (auto simp: price_volume_def volume_price_def volume_monthly_def storage_amount_def)
  then obtain r where r: "ec2_stopped_evaluate 5 (stopped_facts [attached_vol ''gp2'' (PInt 1000)]) None (Date 2026 7 1) = Inr r"
    "insights r \<noteq> []" unfolding stopped_facts_eval by auto
  have v: "as_dicts (fact_val (index_facts (stopped_facts [attached_vol ''gp2'' (PInt 1000)])) ''aws.ec2.instance.attached_volumes'') =
      Some [[(''volume_id'', PStr ''vol-1''), (''size_gb'', PInt 1000), (''volume_type'', PStr ''gp2'')]]"
    "fact_val (index_facts (stopped_facts [attached_vol ''gp2'' (PInt 1000)])) ''aws.ec2.instance.region'' = PStr ''eu-west-1''"
    by (simp_all add: stopped_facts_def inst_fact_def fact_eval as_dicts_def attached_vol_def)
  have s: "py_round (fadd 0 110) 2 = 110" by (simp add: fl_eval)
  show ?thesis using stopped_accounts_for_volumes [OF r] r v by (auto simp: gp2_volume s)
qed

text \<open>A malformed size inside the attached volumes is not reported as inconclusive: the rule raises \<open>ValueError\<close>, for whatever
  text does not parse as an integer, as soon as the volume's type is catalogued.\<close>

theorem stopped_malformed_size_raises:
  assumes "parse_int s = None"
  shows "ec2_stopped_evaluate 5 (stopped_facts [attached_vol ''gp2'' (PStr s)]) today clock = Inl ValueError"
  using eu_gp_prices(1) assms unfolding stopped_facts_eval
  by (auto simp: price_volume_def volume_price_def volume_monthly_def)

theorem stopped_malformed_size_raises_witness:
  "ec2_stopped_evaluate 5 (stopped_facts [attached_vol ''gp2'' (PStr ''n/a'')]) None (Date 2026 7 1) = Inl ValueError"
proof -
  have "parse_int ''n/a'' = None" by code_simp
  then show ?thesis by (rule stopped_malformed_size_raises)
qed

end
