(* ===== verification/CatalogAws.thy ===== *)
theory CatalogAws
  imports Models
begin

text \<open>
  The AWS catalog (\<open>constat_core/catalog/aws.py\<close>): end-of-life calendars of the RDS and
  Aurora engines, vCPU counts of the instance classes and the Extended Support price
  grids, with the lookups that read them. Prices are the floats of their decimal
  literals.
\<close>

definition CATALOG_VERSION :: string where
  "CATALOG_VERSION = ''2026-07-19''"

section \<open>Calendars\<close>

record eol_info =
  eol_date :: date
  year_1_2_rate :: pyfloat
  year_3_plus_rate :: "pyfloat option"
  end_of_extended_support :: date
  year_3_start :: "date option"

text \<open>\<open>PostgresEOLInfo\<close> has the first four fields, with a year-3 rate that is never
  \<open>None\<close>; \<open>EngineEOLInfo\<close> has all five. One record serves both, the PostgreSQL rows
  carrying no \<open>year_3_start\<close>.\<close>

definition pg_info :: "date \<Rightarrow> date \<Rightarrow> eol_info" where
  "pg_info eol ends = \<lparr>eol_date = eol, year_1_2_rate = lit 10 2, year_3_plus_rate = Some (lit 20 2),
     end_of_extended_support = ends, year_3_start = None\<rparr>"

definition POSTGRES_EOL :: "(int, eol_info) dict" where
  "POSTGRES_EOL =
    [(11, pg_info (Date 2024 2 29) (Date 2027 3 31)),
     (12, pg_info (Date 2025 2 28) (Date 2028 2 29)),
     (13, pg_info (Date 2026 2 28) (Date 2029 2 28)),
     (14, pg_info (Date 2027 2 28) (Date 2030 2 28)),
     (15, pg_info (Date 2028 2 29) (Date 2031 2 28))]"

definition RDS_INSTANCE_VCPU :: "(string, int) dict" where
  "RDS_INSTANCE_VCPU =
    [(''db.t3.micro'', 2), (''db.t3.small'', 2), (''db.t3.medium'', 2),
     (''db.t3.large'', 2), (''db.t3.xlarge'', 4), (''db.t3.2xlarge'', 8),
     (''db.t4g.micro'', 2), (''db.t4g.small'', 2), (''db.t4g.medium'', 2),
     (''db.t4g.large'', 2), (''db.t4g.xlarge'', 4), (''db.t4g.2xlarge'', 8),
     (''db.m5.large'', 2), (''db.m5.xlarge'', 4), (''db.m5.2xlarge'', 8),
     (''db.m5.4xlarge'', 16), (''db.m5.8xlarge'', 32), (''db.m5.12xlarge'', 48),
     (''db.m5.16xlarge'', 64), (''db.m5.24xlarge'', 96), (''db.m6i.large'', 2),
     (''db.m6i.xlarge'', 4), (''db.m6i.2xlarge'', 8), (''db.m6i.4xlarge'', 16),
     (''db.m6i.8xlarge'', 32), (''db.m6i.12xlarge'', 48), (''db.m6i.16xlarge'', 64),
     (''db.m6i.24xlarge'', 96), (''db.m6g.large'', 2), (''db.m6g.xlarge'', 4),
     (''db.m6g.2xlarge'', 8), (''db.m6g.4xlarge'', 16), (''db.m6g.8xlarge'', 32),
     (''db.m6g.12xlarge'', 48), (''db.m6g.16xlarge'', 64), (''db.m6g.24xlarge'', 96),
     (''db.m7g.large'', 2), (''db.m7g.xlarge'', 4), (''db.m7g.2xlarge'', 8),
     (''db.m7g.4xlarge'', 16), (''db.m7g.8xlarge'', 32), (''db.m7g.12xlarge'', 48),
     (''db.m7g.16xlarge'', 64), (''db.m7g.24xlarge'', 96), (''db.r5.large'', 2),
     (''db.r5.xlarge'', 4), (''db.r5.2xlarge'', 8), (''db.r5.4xlarge'', 16),
     (''db.r5.8xlarge'', 32), (''db.r5.12xlarge'', 48), (''db.r5.16xlarge'', 64),
     (''db.r5.24xlarge'', 96), (''db.r6i.large'', 2), (''db.r6i.xlarge'', 4),
     (''db.r6i.2xlarge'', 8), (''db.r6i.4xlarge'', 16), (''db.r6i.8xlarge'', 32),
     (''db.r6i.12xlarge'', 48), (''db.r6i.16xlarge'', 64), (''db.r6i.24xlarge'', 96),
     (''db.r6g.large'', 2), (''db.r6g.xlarge'', 4), (''db.r6g.2xlarge'', 8),
     (''db.r6g.4xlarge'', 16), (''db.r6g.8xlarge'', 32), (''db.r6g.12xlarge'', 48),
     (''db.r6g.16xlarge'', 64), (''db.r6g.24xlarge'', 96), (''db.r7g.large'', 2),
     (''db.r7g.xlarge'', 4), (''db.r7g.2xlarge'', 8), (''db.r7g.4xlarge'', 16),
     (''db.r7g.8xlarge'', 32), (''db.r7g.12xlarge'', 48), (''db.r7g.16xlarge'', 64),
     (''db.r7g.24xlarge'', 96)]"

definition engine_info :: "date \<Rightarrow> pyfloat option \<Rightarrow> date \<Rightarrow> date option \<Rightarrow> eol_info" where
  "engine_info eol rate3 ends start3 = \<lparr>eol_date = eol, year_1_2_rate = lit 10 2,
     year_3_plus_rate = rate3, end_of_extended_support = ends, year_3_start = start3\<rparr>"

definition MYSQL_EOL :: "(string, eol_info) dict" where
  "MYSQL_EOL =
    [(''5.7'', engine_info (Date 2024 2 29) (Some (lit 20 2)) (Date 2029 6 30) (Some (Date 2026 3 1))),
     (''8.0'', engine_info (Date 2026 7 31) (Some (lit 20 2)) (Date 2029 7 31) (Some (Date 2028 8 1)))]"

definition AURORA_MYSQL_EOL :: "(int, eol_info) dict" where
  "AURORA_MYSQL_EOL =
    [(2, engine_info (Date 2024 10 31) None (Date 2029 6 30) None),
     (3, engine_info (Date 2028 4 30) None (Date 2029 7 31) None)]"

definition AURORA_POSTGRES_EOL :: "(int, eol_info) dict" where
  "AURORA_POSTGRES_EOL =
    [(11, engine_info (Date 2024 2 29) (Some (lit 20 2)) (Date 2027 3 31) (Some (Date 2026 4 1))),
     (12, engine_info (Date 2025 2 28) (Some (lit 20 2)) (Date 2028 2 29) (Some (Date 2027 3 1))),
     (13, engine_info (Date 2026 2 28) (Some (lit 20 2)) (Date 2029 2 28) (Some (Date 2028 3 1))),
     (14, engine_info (Date 2027 2 28) (Some (lit 20 2)) (Date 2030 2 28) (Some (Date 2029 3 1))),
     (15, engine_info (Date 2028 2 29) (Some (lit 20 2)) (Date 2031 2 28) (Some (Date 2030 3 1)))]"

section \<open>Lookups\<close>

definition vcpu_for_instance_class :: "string \<Rightarrow> int option" where
  "vcpu_for_instance_class c = dict_get RDS_INSTANCE_VCPU c"

definition postgres_eol_info :: "int \<Rightarrow> eol_info option" where
  "postgres_eol_info major = dict_get POSTGRES_EOL major"

definition mysql_eol_info :: "string \<Rightarrow> eol_info option" where
  "mysql_eol_info major = dict_get MYSQL_EOL major"

definition aurora_mysql_eol_info :: "int \<Rightarrow> eol_info option" where
  "aurora_mysql_eol_info major = dict_get AURORA_MYSQL_EOL major"

definition aurora_postgres_eol_info :: "int \<Rightarrow> eol_info option" where
  "aurora_postgres_eol_info major = dict_get AURORA_POSTGRES_EOL major"

section \<open>Pricing tiers\<close>

text \<open>The two tiers; the code writes them as the strings below.\<close>

datatype tier = Year_1_2 | Year_3_plus

fun tier_str :: "tier \<Rightarrow> string" where
  "tier_str Year_1_2 = ''year_1_2''"
| "tier_str Year_3_plus = ''year_3_plus''"

definition extended_support_tier :: "date \<Rightarrow> date \<Rightarrow> tier" where
  "extended_support_tier eol today =
    (let days_since = days_between today eol in
     if days_since < 730 then Year_1_2 else Year_3_plus)"

definition engine_extended_support_tier :: "eol_info \<Rightarrow> date \<Rightarrow> tier" where
  "engine_extended_support_tier info today =
    (case year_3_start info of
       None \<Rightarrow> Year_1_2
     | Some start \<Rightarrow> if year_3_plus_rate info \<noteq> None \<and> start \<le> today then Year_3_plus else Year_1_2)"

definition ES_DEFAULT_REGION :: string where
  "ES_DEFAULT_REGION = ''us-east-1''"

record es_grid =
  es_year_1_2 :: pyfloat
  es_year_3_plus :: pyfloat

fun es_rate :: "es_grid \<Rightarrow> tier \<Rightarrow> pyfloat" where
  "es_rate g Year_1_2 = es_year_1_2 g"
| "es_rate g Year_3_plus = es_year_3_plus g"

definition es_default_grid :: es_grid where
  "es_default_grid = \<lparr>es_year_1_2 = lit 100 3, es_year_3_plus = lit 200 3\<rparr>"

definition ES_PRICE_BY_REGION :: "(string, es_grid) dict" where
  "ES_PRICE_BY_REGION =
    [(''us-east-1'', es_default_grid),
     (''eu-west-1'', \<lparr>es_year_1_2 = lit 112 3, es_year_3_plus = lit 224 3\<rparr>),
     (''eu-west-3'', \<lparr>es_year_1_2 = lit 118 3, es_year_3_plus = lit 235 3\<rparr>)]"

text \<open>\<open>(rate, region_used, exact)\<close>. The fallback reads the row of \<open>ES_DEFAULT_REGION\<close>,
  which is present (\<open>es_default_row\<close> below).\<close>

definition es_price_per_vcpu_hour :: "tier \<Rightarrow> string option \<Rightarrow> pyfloat \<times> string \<times> bool" where
  "es_price_per_vcpu_hour tier region =
    (let fallback = (es_rate (get_default ES_PRICE_BY_REGION ES_DEFAULT_REGION es_default_grid) tier,
                     ES_DEFAULT_REGION, region = None) in
     case region of
       None \<Rightarrow> fallback
     | Some r \<Rightarrow> (case dict_get ES_PRICE_BY_REGION r of
                   Some g \<Rightarrow> (es_rate g tier, r, True)
                 | None \<Rightarrow> fallback))"

definition price_per_vcpu_hour :: "eol_info \<Rightarrow> date \<Rightarrow> pyfloat" where
  "price_per_vcpu_hour info today = fst (es_price_per_vcpu_hour (extended_support_tier (eol_date info) today) None)"

definition engine_price_per_vcpu_hour :: "eol_info \<Rightarrow> date \<Rightarrow> pyfloat res" where
  "engine_price_per_vcpu_hour info today =
    (if engine_extended_support_tier info today = Year_3_plus
     then (case year_3_plus_rate info of None \<Rightarrow> Inl AssertionError | Some r \<Rightarrow> Inr r)
     else Inr (year_1_2_rate info))"

section \<open>What the calendars and the grids promise\<close>

text \<open>A calendar row is usable: its dates exist and are in order, its rates are positive
  and not decreasing, and a published start of the third year lies inside the
  Extended Support window and comes with a rate.\<close>

definition info_ok :: "eol_info \<Rightarrow> bool" where
  "info_ok i = (valid_date (eol_date i) \<and> valid_date (end_of_extended_support i) \<and>
     eol_date i < end_of_extended_support i \<and> 0 < year_1_2_rate i \<and>
     (case year_3_plus_rate i of None \<Rightarrow> year_3_start i = None | Some r \<Rightarrow> year_1_2_rate i \<le> r) \<and>
     (case year_3_start i of None \<Rightarrow> True
        | Some s \<Rightarrow> valid_date s \<and> eol_date i < s \<and> s \<le> end_of_extended_support i))"

lemmas calendars = POSTGRES_EOL_def MYSQL_EOL_def AURORA_MYSQL_EOL_def AURORA_POSTGRES_EOL_def

lemma lit_rates: "0 < lit 10 2" "lit 10 2 \<le> lit 20 2"
  by (simp_all add: fl_eval)

lemma pg_info_ok:
  "valid_date a \<Longrightarrow> valid_date b \<Longrightarrow> a < b \<Longrightarrow> info_ok (pg_info a b)"
  by (simp add: info_ok_def pg_info_def lit_rates)

lemma engine_info_ok_3:
  "valid_date a \<Longrightarrow> valid_date b \<Longrightarrow> valid_date s \<Longrightarrow> a < s \<Longrightarrow> s \<le> b \<Longrightarrow>
    info_ok (engine_info a (Some (lit 20 2)) b (Some s))"
  by (auto simp: info_ok_def engine_info_def lit_rates)

lemma engine_info_ok_1:
  "valid_date a \<Longrightarrow> valid_date b \<Longrightarrow> a < b \<Longrightarrow> info_ok (engine_info a None b None)"
  by (auto simp: info_ok_def engine_info_def lit_rates)

lemmas date_eval = valid_date_def less_date_def less_eq_date_def is_leap_def

lemma POSTGRES_EOL_ok: "dict_get POSTGRES_EOL k = Some i \<Longrightarrow> info_ok i"
  by (auto simp: POSTGRES_EOL_def date_eval intro!: pg_info_ok split: if_splits)

lemma MYSQL_EOL_ok: "dict_get MYSQL_EOL k = Some i \<Longrightarrow> info_ok i"
  by (auto simp: MYSQL_EOL_def date_eval intro!: engine_info_ok_3 split: if_splits)

lemma AURORA_MYSQL_EOL_ok: "dict_get AURORA_MYSQL_EOL k = Some i \<Longrightarrow> info_ok i"
  by (auto simp: AURORA_MYSQL_EOL_def date_eval intro!: engine_info_ok_1 split: if_splits)

lemma AURORA_POSTGRES_EOL_ok: "dict_get AURORA_POSTGRES_EOL k = Some i \<Longrightarrow> info_ok i"
  by (auto simp: AURORA_POSTGRES_EOL_def date_eval intro!: engine_info_ok_3 split: if_splits)

lemmas calendar_ok = POSTGRES_EOL_ok MYSQL_EOL_ok AURORA_MYSQL_EOL_ok AURORA_POSTGRES_EOL_ok

text \<open>Tiers only move forward in time.\<close>

fun tier_rank :: "tier \<Rightarrow> nat" where
  "tier_rank Year_1_2 = 0"
| "tier_rank Year_3_plus = 1"

lemma extended_support_tier_mono:
  assumes "valid_date a" and "valid_date b" and "a \<le> b"
  shows "tier_rank (extended_support_tier eol a) \<le> tier_rank (extended_support_tier eol b)"
  using toordinal_le_iff [OF assms(1,2)] assms(3)
  by (simp add: extended_support_tier_def days_between_def)

lemma engine_tier_mono:
  "a \<le> b \<Longrightarrow> tier_rank (engine_extended_support_tier i a) \<le> tier_rank (engine_extended_support_tier i b)"
  by (auto simp: engine_extended_support_tier_def split: option.splits)

lemma engine_price_defined: "\<exists>r. engine_price_per_vcpu_hour i today = Inr r"
  by (auto simp: engine_price_per_vcpu_hour_def engine_extended_support_tier_def split: option.splits if_splits)

text \<open>The price lookup: the region used is always catalogued, the price is positive, and
  \<open>exact\<close> holds precisely when no region was asked for or the one asked for is the one
  used.\<close>

lemma es_default_row: "dict_get ES_PRICE_BY_REGION ES_DEFAULT_REGION = Some es_default_grid"
  by (simp add: ES_PRICE_BY_REGION_def ES_DEFAULT_REGION_def)

lemma es_grid_rates:
  "dict_get ES_PRICE_BY_REGION r = Some g \<Longrightarrow> 0 < es_year_1_2 g \<and> es_year_1_2 g \<le> es_year_3_plus g"
  by (auto simp: ES_PRICE_BY_REGION_def es_default_grid_def fl_eval split: if_splits)

lemma es_price_lookup:
  assumes "es_price_per_vcpu_hour t region = (rate, used, exact)"
  shows "\<exists>g. dict_get ES_PRICE_BY_REGION used = Some g \<and> rate = es_rate g t"
    and "exact \<longleftrightarrow> region = None \<or> region = Some used"
  using assms
  by (auto simp: es_price_per_vcpu_hour_def Let_def get_default_def es_default_row
      split: option.splits)

lemma es_price_pos:
  assumes "es_price_per_vcpu_hour t region = (rate, used, exact)"
  shows "0 < rate"
  using es_price_lookup(1) [OF assms] es_grid_rates by (cases t) fastforce+

end
