(* ===== verification/Eol.thy ===== *)
theory Eol
  imports CatalogAws Monetary
begin

text \<open>
  The Extended Support evaluator (\<open>constat_core/insights/eol.py\<close>): the four fact gates,
  the parse and catalog steps, the three branches on the dates and the payload, with
  the engine-specific functions as the fields of a matcher. Majors have the type
  \<open>'m\<close> the engine uses (an \<open>int\<close>, or the text \<open>X.Y\<close> of MySQL). A rule that raises
  is an \<open>Inl\<close>.

  The locale \<open>eol_rule\<close> states what the shared evaluator relies on from a rule's
  configuration; its lemmas are proved once and hold for the three rules through
  the interpretations of \<open>EolEngines\<close>.
\<close>

section \<open>Configuration\<close>

record 'm engine_eol_matcher =
  engine_value :: string
  display_name :: string
  service_canonical :: string
  lookup_eol_info :: "'m \<Rightarrow> eol_info option"
  parse_major :: "string \<Rightarrow> 'm option"
  format_major :: "'m \<Rightarrow> string"
  major_json :: "'m \<Rightarrow> pyval"
  upgrade_target :: "'m \<Rightarrow> string res"
  compute_tier :: "eol_info \<Rightarrow> date \<Rightarrow> tier"
  price_fn :: "tier \<Rightarrow> string option \<Rightarrow> pyfloat \<times> string \<times> bool"
  vcpu_payload_key :: string
  matcher_value_basis :: "string option"

record 'm eol_rule_config =
  eol_rule_name :: string
  engines :: "'m engine_eol_matcher list"
  alert_window_days :: int
  eol_value_basis :: string

definition HOURS_PER_MONTH :: int where
  "HOURS_PER_MONTH = 730"

definition select_matcher :: "'m eol_rule_config \<Rightarrow> string \<Rightarrow> 'm engine_eol_matcher option" where
  "select_matcher config v = find (\<lambda>m. engine_value m = v) (engines config)"

section \<open>The insight\<close>

text \<open>\<open>round(vcpu_count * rate * HOURS_PER_MONTH, 2)\<close>.\<close>

definition extended_support_monthly :: "int \<Rightarrow> pyfloat \<Rightarrow> pyfloat res" where
  "extended_support_monthly vcpu rate =
    rmap (\<lambda>v. py_round (fmul (fmul v rate) (of_int HOURS_PER_MONTH)) 2) (float_of_int vcpu)"

definition eol_payload ::
    "'m eol_rule_config \<Rightarrow> 'm engine_eol_matcher \<Rightarrow> 'm \<Rightarrow> string \<Rightarrow> int \<Rightarrow> eol_info \<Rightarrow> int \<Rightarrow> tier
      \<Rightarrow> pyfloat \<times> string \<times> bool \<Rightarrow> pyfloat \<Rightarrow> string \<Rightarrow> string option \<Rightarrow> payload" where
  "eol_payload config matcher major version vcpu info days tier price monthly recommendation catalog_version =
    (let (rate, pricing_region, region_exact) = price;
         payload = dict_of
           [(''engine'', PStr (engine_value matcher)),
            (''engine_display'', PStr (display_name matcher)),
            (''engine_version'', PStr version),
            (''major_version'', major_json matcher major),
            (''eol_date'', PStr (isoformat (eol_date info))),
            (''end_of_extended_support'', PStr (isoformat (end_of_extended_support info))),
            (''days_to_event'', PInt days),
            (''pricing_tier'', PStr (tier_str tier)),
            (''pricing_usd_per_vcpu_hour'', PFloat rate),
            (''pricing_tier_label'', PStr (if tier = Year_1_2 then ''year_1_2'' else ''year_3_plus'')),
            (''pricing_region'', PStr pricing_region),
            (''price_region_exact'', PBool region_exact),
            (''source_currency'', PStr ''USD''),
            (vcpu_payload_key matcher, PInt vcpu),
            (''extended_support_monthly_usd'', PFloat monthly),
            (''recommendation'', PStr recommendation),
            (''catalog_version'', pstr_opt catalog_version),
            (''service_canonical'', PStr (service_canonical matcher))]
     in (case matcher_value_basis matcher of
           None \<Rightarrow> payload
         | Some b \<Rightarrow> dict_set ''value_basis'' (PStr (if b \<noteq> [] then b else eol_value_basis config)) payload))"

definition make_eol_insight ::
    "'m eol_rule_config \<Rightarrow> 'm engine_eol_matcher \<Rightarrow> uuid \<Rightarrow> string option \<Rightarrow> 'm \<Rightarrow> string \<Rightarrow> int
      \<Rightarrow> string option \<Rightarrow> eol_info \<Rightarrow> date \<Rightarrow> int \<Rightarrow> severity \<Rightarrow> string \<Rightarrow> string \<Rightarrow> string option
      \<Rightarrow> insight res" where
  "make_eol_insight config matcher resource_id account_id major version vcpu region info current
      days severity title recommendation catalog_version =
    (let tier = compute_tier matcher info current;
         price = price_fn matcher tier region
     in rmap (\<lambda>monthly. \<lparr>ins_rule = eol_rule_name config, ins_resource = Some resource_id,
               ins_account = account_id, ins_severity = severity, ins_title = title,
               ins_payload = eol_payload config matcher major version vcpu info days tier price
                 monthly recommendation catalog_version\<rparr>)
          (extended_support_monthly vcpu (fst price)))"

section \<open>The evaluator\<close>

text \<open>The reasons that the four gates append, in their order.\<close>

definition eol_gates :: "fact_index \<Rightarrow> string list" where
  "eol_gates idx =
    (if known idx ''aws.rds.engine'' then [] else [''aws.rds.engine'']) @
    (if known idx ''aws.rds.engine_version'' then [] else [''aws.rds.engine_version'']) @
    (if known idx ''aws.rds.vcpu'' then [] else [''aws.rds.vcpu'']) @
    (if known idx ''aws.rds.region'' then [] else [''aws.rds.region''])"

text \<open>The branches on the dates, once every input is in hand.\<close>

definition eol_branches ::
    "'m eol_rule_config \<Rightarrow> 'm engine_eol_matcher \<Rightarrow> uuid \<Rightarrow> string option \<Rightarrow> 'm \<Rightarrow> string \<Rightarrow> int
      \<Rightarrow> string option \<Rightarrow> eol_info \<Rightarrow> date \<Rightarrow> string option \<Rightarrow> outcome res" where
  "eol_branches config matcher resource_id account_id major version vcpu region info current
      catalog_version =
    rbind (upgrade_target matcher major) (\<lambda>target.
      let display = display_name matcher; formatted_major = format_major matcher major;
          make = (\<lambda>days severity title recommendation. rmap found
            (make_eol_insight config matcher resource_id account_id major version vcpu region info
              current days severity title recommendation catalog_version))
      in if end_of_extended_support info < current then
           let days_to_force = days_between (end_of_extended_support info) current in
           make days_to_force CRITICAL
             (display @ '' '' @ formatted_major @ '' will be force-upgraded in '' @ str_of_int days_to_force @ '' days'')
             (''AWS will force-upgrade to '' @ target @ '' on '' @ isoformat (end_of_extended_support info) @
              ''. Upgrade manually now to control timing.'')
         else
           let days_to_eol = days_between (eol_date info) current in
           if alert_window_days config < days_to_eol then Inr no_match
           else if days_to_eol \<le> 0 then
             make days_to_eol CRITICAL
               (display @ '' '' @ formatted_major @ '' is in Extended Support'')
               (''Upgrade to '' @ target @ '' now to stop Extended Support fees'')
           else
             make days_to_eol WARNING
               (display @ '' '' @ formatted_major @ '' reaches EOL in '' @ str_of_int days_to_eol @ '' days'')
               (''Plan upgrade to '' @ target @ '' before '' @ isoformat (eol_date info)))"

definition evaluate_eol ::
    "uuid \<Rightarrow> fact list \<Rightarrow> 'm eol_rule_config \<Rightarrow> date option \<Rightarrow> date \<Rightarrow> string option \<Rightarrow> outcome res" where
  "evaluate_eol resource_id facts config today clock catalog_version =
    (let idx = index_facts facts in
     if known idx ''aws.rds.engine'' \<and>
        select_matcher config (py_str (fact_val idx ''aws.rds.engine'')) = None
     then Inr no_match
     else if eol_gates idx \<noteq> [] then Inr (unsure (eol_gates idx))
     else (case (dict_get idx ''aws.rds.engine'',
                 select_matcher config (py_str (fact_val idx ''aws.rds.engine''))) of
       (Some engine, Some matcher) \<Rightarrow>
         let version = py_str (fact_val idx ''aws.rds.engine_version'');
             region = (case fact_val idx ''aws.rds.region'' of PNone \<Rightarrow> None | v \<Rightarrow> Some (py_str v))
         in (case parse_major matcher version of
           None \<Rightarrow> Inr (unsure [''aws.rds.engine_version.malformed''])
         | Some major \<Rightarrow>
           (case py_int (fact_val idx ''aws.rds.vcpu'') of
             Inl e \<Rightarrow> if e = TypeError \<or> e = ValueError then Inr (unsure [''aws.rds.vcpu.malformed'']) else Inl e
           | Inr vcpu \<Rightarrow>
             (case lookup_eol_info matcher major of
               None \<Rightarrow> Inr no_match
             | Some info \<Rightarrow>
               eol_branches config matcher resource_id (fact_account engine) major version vcpu region info
                 (case today of Some d \<Rightarrow> d | None \<Rightarrow> clock) catalog_version)))
     | _ \<Rightarrow> Inl AssertionError))"

section \<open>The verdict of the dates\<close>

text \<open>What the branches decide, stated on the calendar instead of on day counts:
  \<open>CRITICAL\<close> from the end-of-life date on (both the Extended Support and the
  force-upgrade branch), \<open>WARNING\<close> in the alert window before it, nothing earlier.\<close>

definition eol_verdict :: "eol_info \<Rightarrow> int \<Rightarrow> date \<Rightarrow> severity option" where
  "eol_verdict info window current =
    (if eol_date info \<le> current then Some CRITICAL
     else if days_between (eol_date info) current \<le> window then Some WARNING else None)"

lemma eol_verdict_mono:
  assumes "valid_date a" and "valid_date b" and "a \<le> b" and "eol_verdict info w a = Some s"
  obtains t where "eol_verdict info w b = Some t" and "s \<le> t"
proof -
  have "days_between (eol_date info) b \<le> days_between (eol_date info) a"
    using toordinal_le_iff [OF assms(1,2)] assms(3) by (simp add: days_between_def)
  then have "\<exists>t. eol_verdict info w b = Some t \<and> s \<le> t"
    using assms(3,4) by (auto simp: eol_verdict_def less_eq_severity_def split: if_splits)
  then show ?thesis using that by blast
qed

definition eol_insight_like ::
    "'m eol_rule_config \<Rightarrow> 'm engine_eol_matcher \<Rightarrow> uuid \<Rightarrow> string option \<Rightarrow> severity \<Rightarrow> pyfloat \<Rightarrow> insight \<Rightarrow> bool" where
  "eol_insight_like config matcher rid acct sev monthly i =
    (ins_rule i = eol_rule_name config \<and> ins_resource i = Some rid \<and> ins_account i = acct \<and>
     ins_severity i = sev \<and> pget (ins_payload i) ''extended_support_monthly_usd'' = PFloat monthly \<and>
     pget (ins_payload i) ''service_canonical'' = PStr (service_canonical matcher))"

definition tier_rate :: "'m engine_eol_matcher \<Rightarrow> eol_info \<Rightarrow> string option \<Rightarrow> date \<Rightarrow> pyfloat" where
  "tier_rate matcher info region current = fst (price_fn matcher (compute_tier matcher info current) region)"

definition eol_payload_keys :: "string list" where
  "eol_payload_keys = [''extended_support_monthly_usd'', ''recommendation'', ''catalog_version'', ''service_canonical'']"

lemma eol_payload_monthly:
  assumes "vcpu_payload_key matcher \<noteq> ''service_canonical''"
    and "vcpu_payload_key matcher \<noteq> ''extended_support_monthly_usd''"
  shows "pget (eol_payload config matcher major version vcpu info days tier price monthly rec cv)
           ''extended_support_monthly_usd'' = PFloat monthly"
    and "pget (eol_payload config matcher major version vcpu info days tier price monthly rec cv)
           ''service_canonical'' = PStr (service_canonical matcher)"
proof -
  obtain rate used exact where p: "price = (rate, used, exact)" by (cases price)
  show "pget (eol_payload config matcher major version vcpu info days tier price monthly rec cv)
           ''extended_support_monthly_usd'' = PFloat monthly"
    "pget (eol_payload config matcher major version vcpu info days tier price monthly rec cv)
           ''service_canonical'' = PStr (service_canonical matcher)"
    using assms unfolding eol_payload_def p Let_def prod.case pget_def get_default_def
    by (cases "matcher_value_basis matcher"; simp add: dict_get_of)+
qed

lemma make_eol_insight_cases:
  "make_eol_insight config matcher rid acct major version vcpu region info current days sev title rec cv =
    (case extended_support_monthly vcpu (tier_rate matcher info region current) of
       Inl e \<Rightarrow> Inl e
     | Inr monthly \<Rightarrow> Inr \<lparr>ins_rule = eol_rule_name config, ins_resource = Some rid, ins_account = acct,
         ins_severity = sev, ins_title = title,
         ins_payload = eol_payload config matcher major version vcpu info days
           (compute_tier matcher info current) (price_fn matcher (compute_tier matcher info current) region)
           monthly rec cv\<rparr>)"
  by (simp add: make_eol_insight_def Let_def tier_rate_def rmap_def split: sum.splits)

lemma eol_branches_verdict:
  assumes "info_ok info" and "valid_date current" and "0 < alert_window_days config"
    and "upgrade_target matcher major = Inr target"
    and "vcpu_payload_key matcher \<notin> set eol_payload_keys"
  shows "case eol_verdict info (alert_window_days config) current of
      None \<Rightarrow> eol_branches config matcher rid acct major version vcpu region info current cv = Inr no_match
    | Some s \<Rightarrow> (case extended_support_monthly vcpu (tier_rate matcher info region current) of
        Inl e \<Rightarrow> eol_branches config matcher rid acct major version vcpu region info current cv = Inl e
      | Inr monthly \<Rightarrow> \<exists>i. eol_branches config matcher rid acct major version vcpu region info current cv = Inr (found i) \<and>
          eol_insight_like config matcher rid acct s monthly i)"
proof -
  have k: "vcpu_payload_key matcher \<noteq> ''service_canonical''"
    "vcpu_payload_key matcher \<noteq> ''extended_support_monthly_usd''"
    using assms(5) by (auto simp: eol_payload_keys_def)
  have v: "valid_date (eol_date info)" "eol_date info < end_of_extended_support info"
    using assms(1) by (simp_all add: info_ok_def)
  note sign = days_between_sign [OF v(1) assms(2)]
  consider (force) "end_of_extended_support info < current" | (past) "\<not> end_of_extended_support info < current" "eol_date info \<le> current"
    | (soon) "\<not> eol_date info \<le> current" by blast
  then show ?thesis
  proof cases
    case force
    then have "eol_date info \<le> current" using v(2) by order
    then show ?thesis using force assms(4)
      by (auto simp: eol_verdict_def eol_branches_def Let_def make_eol_insight_cases eol_insight_like_def
          eol_payload_monthly [OF k] split: sum.splits)
  next
    case past
    then show ?thesis using assms(3,4) sign
      by (auto simp: eol_verdict_def eol_branches_def Let_def make_eol_insight_cases eol_insight_like_def
          eol_payload_monthly [OF k] split: sum.splits)
  next
    case soon
    then have "\<not> end_of_extended_support info < current" using v(2) by order
    then show ?thesis using soon assms(3,4) sign
      by (auto simp: eol_verdict_def eol_branches_def Let_def make_eol_insight_cases eol_insight_like_def
          eol_payload_monthly [OF k] split: sum.splits)
  qed
qed

section \<open>Reaching the branches\<close>

text \<open>What the evaluator read before it came to the dates.\<close>

definition eol_reads ::
    "fact list \<Rightarrow> 'm eol_rule_config \<Rightarrow> fact \<Rightarrow> 'm engine_eol_matcher \<Rightarrow> 'm \<Rightarrow> int \<Rightarrow> eol_info \<Rightarrow> bool" where
  "eol_reads facts config engine matcher major vcpu info =
    (let idx = index_facts facts in
     eol_gates idx = [] \<and> dict_get idx ''aws.rds.engine'' = Some engine \<and>
     select_matcher config (py_str (fact_value engine)) = Some matcher \<and>
     parse_major matcher (py_str (fact_val idx ''aws.rds.engine_version'')) = Some major \<and>
     py_int (fact_val idx ''aws.rds.vcpu'') = Inr vcpu \<and>
     lookup_eol_info matcher major = Some info)"

definition eol_region :: "fact list \<Rightarrow> string option" where
  "eol_region facts = (case fact_val (index_facts facts) ''aws.rds.region'' of
     PNone \<Rightarrow> None | v \<Rightarrow> Some (py_str v))"

definition eol_version :: "fact list \<Rightarrow> string" where
  "eol_version facts = py_str (fact_val (index_facts facts) ''aws.rds.engine_version'')"

lemma eol_gates_Nil: "eol_gates idx = [] \<longleftrightarrow>
    known idx ''aws.rds.engine'' \<and> known idx ''aws.rds.engine_version'' \<and>
    known idx ''aws.rds.vcpu'' \<and> known idx ''aws.rds.region''"
  by (auto simp: eol_gates_def)

lemma evaluate_eol_reads:
  assumes "eol_reads facts config engine matcher major vcpu info"
  shows "evaluate_eol rid facts config today clock cv =
    eol_branches config matcher rid (fact_account engine) major (eol_version facts) vcpu (eol_region facts) info
      (case today of Some d \<Rightarrow> d | None \<Rightarrow> clock) cv"
  using assms
  by (simp add: eol_reads_def evaluate_eol_def Let_def eol_version_def eol_region_def fact_val_def [of _ "''aws.rds.engine''"])

text \<open>Otherwise the answer is decided without the dates.\<close>

lemma evaluate_eol_cases:
  obtains (reads) engine matcher major vcpu info
    where "eol_reads facts config engine matcher major vcpu info"
  | (quiet) "\<And>today clock. evaluate_eol rid facts config today clock cv = Inr no_match"
  | (unsure) rs where "rs \<noteq> []" "\<And>today clock. evaluate_eol rid facts config today clock cv = Inr (unsure rs)"
proof -
  let ?idx = "index_facts facts"
  let ?sel = "select_matcher config (py_str (fact_val ?idx ''aws.rds.engine''))"
  let ?version = "py_str (fact_val ?idx ''aws.rds.engine_version'')"
  let ?vcpu = "py_int (fact_val ?idx ''aws.rds.vcpu'')"
  note ev = evaluate_eol_def Let_def
  show ?thesis
  proof (cases "known ?idx ''aws.rds.engine'' \<and> ?sel = None")
    case True
    then show ?thesis by (intro quiet) (simp add: ev)
  next
    case a: False
    show ?thesis
    proof (cases "eol_gates ?idx = []")
      case False
      show ?thesis by (rule unsure [OF False]) (simp only: ev a False if_False if_True not_False_eq_True)
    next
      case g: True
      obtain engine where e: "dict_get ?idx ''aws.rds.engine'' = Some engine"
        using g by (auto simp: eol_gates_Nil known_iff)
      obtain matcher where m: "?sel = Some matcher" using a g by (auto simp: eol_gates_Nil)
      have v: "fact_val ?idx ''aws.rds.engine'' = fact_value engine" by (simp add: fact_val_def e)
      show ?thesis
      proof (cases "parse_major matcher ?version")
        case None
        show ?thesis
          by (rule unsure [of "[''aws.rds.engine_version.malformed'']"]) (simp_all add: ev g e m None)
      next
        case maj: (Some major)
        show ?thesis
        proof (cases ?vcpu)
          case (Inl x)
          then have "x = TypeError \<or> x = ValueError" by (rule py_int_error)
          then show ?thesis
            by (intro unsure [of "[''aws.rds.vcpu.malformed'']"]) (auto simp: ev g e m maj Inl)
        next
          case vc: (Inr vcpu)
          show ?thesis
          proof (cases "lookup_eol_info matcher major")
            case None
            show ?thesis by (rule quiet) (simp add: ev g e m maj vc None)
          next
            case (Some info)
            then show ?thesis using g e m maj vc v by (intro reads) (auto simp: eol_reads_def Let_def)
          qed
        qed
      qed
    qed
  qed
qed

section \<open>The contract of a rule's configuration\<close>

locale eol_rule =
  fixes config :: "'m eol_rule_config"
  assumes rows: "m \<in> set (engines config) \<Longrightarrow> lookup_eol_info m major = Some info \<Longrightarrow> info_ok info"
    and targets: "m \<in> set (engines config) \<Longrightarrow> lookup_eol_info m major = Some info \<Longrightarrow>
      \<exists>t. upgrade_target m major = Inr t"
    and window: "0 < alert_window_days config"
    and keys: "m \<in> set (engines config) \<Longrightarrow> vcpu_payload_key m \<notin> set eol_payload_keys"
    and rates: "m \<in> set (engines config) \<Longrightarrow> info_ok info \<Longrightarrow> valid_date a \<Longrightarrow> valid_date b \<Longrightarrow> a \<le> b \<Longrightarrow>
      0 < tier_rate m info region a \<and> tier_rate m info region a \<le> tier_rate m info region b"
    and registered: "\<exists>e. dict_get MONETARY (eol_rule_name config) = Some e \<and>
      payload_key e = ''extended_support_monthly_usd''"
begin

lemma matcher_in: "eol_reads facts config engine matcher major vcpu info \<Longrightarrow> matcher \<in> set (engines config)"
  by (auto simp: eol_reads_def Let_def select_matcher_def dest: find_Some_iff')

lemma verdict:
  assumes "eol_reads facts config engine matcher major vcpu info" and "valid_date d"
  shows "case eol_verdict info (alert_window_days config) d of
      None \<Rightarrow> evaluate_eol rid facts config (Some d) clock cv = Inr no_match
    | Some s \<Rightarrow> (case extended_support_monthly vcpu (tier_rate matcher info (eol_region facts) d) of
        Inl e \<Rightarrow> evaluate_eol rid facts config (Some d) clock cv = Inl e
      | Inr monthly \<Rightarrow> \<exists>i. evaluate_eol rid facts config (Some d) clock cv = Inr (found i) \<and>
          eol_insight_like config matcher rid (fact_account engine) s monthly i)"
proof -
  have m: "matcher \<in> set (engines config)" using assms(1) by (rule matcher_in)
  have l: "lookup_eol_info matcher major = Some info" using assms(1) by (simp add: eol_reads_def Let_def)
  obtain t where t: "upgrade_target matcher major = Inr t" using targets [OF m l] by blast
  show ?thesis
    using eol_branches_verdict [OF rows [OF m l] assms(2) window t keys [OF m], where rid = rid
        and acct = "fact_account engine" and version = "eol_version facts" and vcpu = vcpu
        and region = "eol_region facts" and cv = cv]
    unfolding evaluate_eol_reads [OF assms(1)] option.case .
qed

text \<open>An insight of the rule comes from facts that passed every gate.\<close>

lemma found_reads:
  assumes "evaluate_eol rid facts config (Some d) clock cv = Inr r" and "insights r \<noteq> []"
  obtains engine matcher major vcpu info
    where "eol_reads facts config engine matcher major vcpu info"
  using evaluate_eol_cases [where facts = facts and config = config and rid = rid and cv = cv] assms that by (metis sum.inject(2) outcome.select_convs(1))

lemma outcome_shape:
  assumes "evaluate_eol rid facts config (Some d) clock cv = Inr r" and "valid_date d"
  shows "outcome_ok r"
  using evaluate_eol_cases [where facts = facts and config = config and rid = rid and cv = cv]
proof cases
  case (reads engine matcher major vcpu info)
  then show ?thesis using verdict [OF reads assms(2), of rid clock cv] assms(1)
    by (auto split: option.splits sum.splits)
qed (use assms in auto)

text \<open>The only exception that can leave the rule is the overflow of an absurd vCPU count.\<close>

lemma only_overflow:
  assumes "evaluate_eol rid facts config (Some d) clock cv = Inl e" and "valid_date d"
  shows "e = OverflowError \<and> (\<exists>n. py_int (fact_val (index_facts facts) ''aws.rds.vcpu'') = Inr n \<and>
    2 ^ 1024 - 2 ^ 970 \<le> \<bar>n\<bar>)"
  using evaluate_eol_cases [where facts = facts and config = config and rid = rid and cv = cv]
proof cases
  case (reads engine matcher major vcpu info)
  then have "py_int (fact_val (index_facts facts) ''aws.rds.vcpu'') = Inr vcpu"
    by (simp add: eol_reads_def Let_def)
  then show ?thesis using verdict [OF reads assms(2), of rid clock cv] assms(1)
    by (auto simp: extended_support_monthly_def float_of_int_def split: option.splits sum.splits if_splits)
qed (use assms in auto)

end

lemma extended_support_monthly_nonneg:
  assumes "extended_support_monthly n r = Inr m" and "0 \<le> n" and "0 \<le> r"
  shows "0 \<le> m"
  using assms
  by (auto simp: extended_support_monthly_def float_of_int_def HOURS_PER_MONTH_def rmap_Inr_iff
      intro!: py_round_nonneg fmul_nonneg fl_nonneg split: if_splits)

lemma extended_support_monthly_mono:
  assumes "extended_support_monthly n r = Inr m" and "extended_support_monthly n r' = Inr m'"
    and "0 \<le> n" and "0 \<le> r" and "r \<le> r'"
  shows "m \<le> m'"
  using assms
  by (auto simp: extended_support_monthly_def float_of_int_def HOURS_PER_MONTH_def rmap_Inr_iff
      intro!: py_round_mono fmul_mono fmul_nonneg fl_nonneg split: if_splits)

lemma extended_support_monthly_defined:
  "extended_support_monthly n r = Inr m \<Longrightarrow> \<exists>m'. extended_support_monthly n r' = Inr m'"
  by (auto simp: extended_support_monthly_def rmap_Inr_iff)

text \<open>A missing fact is reported, and nothing else is said.\<close>

lemma evaluate_eol_gated:
  assumes "eol_gates (index_facts facts) \<noteq> []"
    and "known (index_facts facts) ''aws.rds.engine'' \<Longrightarrow>
      select_matcher config (py_str (fact_val (index_facts facts) ''aws.rds.engine'')) \<noteq> None"
  shows "evaluate_eol rid facts config today clock cv = Inr (unsure (eol_gates (index_facts facts)))"
  using assms by (auto simp: evaluate_eol_def Let_def)

lemma set_eol_gates:
  "set (eol_gates idx) = {k \<in> {''aws.rds.engine'', ''aws.rds.engine_version'', ''aws.rds.vcpu'', ''aws.rds.region''}.
     \<not> known idx k}"
  by (auto simp: eol_gates_def)

context eol_rule
begin

lemma found_insight:
  assumes "evaluate_eol rid facts config (Some d) clock cv = Inr r" and "insights r \<noteq> []" and "valid_date d"
  obtains engine matcher major vcpu info monthly s i
  where "eol_reads facts config engine matcher major vcpu info"
    and "eol_verdict info (alert_window_days config) d = Some s"
    and "extended_support_monthly vcpu (tier_rate matcher info (eol_region facts) d) = Inr monthly"
    and "r = found i" and "eol_insight_like config matcher rid (fact_account engine) s monthly i"
proof -
  obtain engine matcher major vcpu info
    where reads: "eol_reads facts config engine matcher major vcpu info"
    using found_reads [OF assms(1,2)] by blast
  from verdict [OF reads assms(3), of rid clock cv] assms(1,2) show ?thesis
    by (auto split: option.splits sum.splits intro: that [OF reads])
qed

text \<open>Time only makes a finding worse: once reported, it stays reported, with a severity
  and a monthly amount that do not go down.\<close>

lemma escalates:
  assumes "evaluate_eol rid facts config (Some a) clock cv = Inr (found i)"
    and "valid_date a" and "valid_date b" and "a \<le> b"
  shows "\<exists>j. evaluate_eol rid facts config (Some b) clock cv = Inr (found j) \<and>
    ins_severity i \<le> ins_severity j \<and>
    (\<forall>n. py_int (fact_val (index_facts facts) ''aws.rds.vcpu'') = Inr n \<longrightarrow> 0 \<le> n \<longrightarrow>
      (\<exists>x y. pget (ins_payload i) ''extended_support_monthly_usd'' = PFloat x \<and>
             pget (ins_payload j) ''extended_support_monthly_usd'' = PFloat y \<and> x \<le> y))"
proof -
  have ne: "insights (found i) \<noteq> []" by simp
  obtain engine matcher major vcpu info monthly s
    where reads: "eol_reads facts config engine matcher major vcpu info"
      and s: "eol_verdict info (alert_window_days config) a = Some s"
      and m: "extended_support_monthly vcpu (tier_rate matcher info (eol_region facts) a) = Inr monthly"
      and i: "eol_insight_like config matcher rid (fact_account engine) s monthly i"
    using found_insight [OF assms(1) ne assms(2)] by (metis outcome.ext_inject list.inject)
  obtain t where t: "eol_verdict info (alert_window_days config) b = Some t" "s \<le> t"
    using eol_verdict_mono [OF assms(2-4) s] by blast
  obtain m' where m': "extended_support_monthly vcpu (tier_rate matcher info (eol_region facts) b) = Inr m'"
    using extended_support_monthly_defined [OF m] by blast
  obtain j where j: "evaluate_eol rid facts config (Some b) clock cv = Inr (found j)"
    "eol_insight_like config matcher rid (fact_account engine) t m' j"
    using verdict [OF reads assms(3), of rid clock cv] t m' by auto
  have l: "lookup_eol_info matcher major = Some info" and v: "py_int (fact_val (index_facts facts) ''aws.rds.vcpu'') = Inr vcpu"
    using reads by (auto simp: eol_reads_def Let_def)
  have r: "0 < tier_rate matcher info (eol_region facts) a"
    "tier_rate matcher info (eol_region facts) a \<le> tier_rate matcher info (eol_region facts) b"
    using rates [OF matcher_in [OF reads] rows [OF matcher_in [OF reads] l] assms(2-4)] by auto
  have "monthly \<le> m'" if "0 \<le> vcpu"
    using extended_support_monthly_mono [OF m m' that] r by simp
  then show ?thesis using i j t(2) v by (auto simp: eol_insight_like_def)
qed

text \<open>The amount of a finding is the one the monetary registry extracts.\<close>

lemma amount_registered:
  assumes "evaluate_eol rid facts config (Some d) clock cv = Inr (found i)" and "valid_date d"
  shows "\<exists>x. monthly_cost_and_basis (ins_rule i) (ins_payload i) = Inr (Some x, Some ''ESTIMATED'') \<and>
    pget (ins_payload i) ''extended_support_monthly_usd'' = PFloat x"
proof -
  have ne: "insights (found i) \<noteq> []" by simp
  obtain e where e: "dict_get MONETARY (eol_rule_name config) = Some e"
    "payload_key e = ''extended_support_monthly_usd''" using registered by blast
  obtain matcher acct s x where like: "eol_insight_like config matcher rid acct s x i"
    using found_insight [OF assms(1) ne assms(2)] by (metis list.inject outcome.ext_inject)
  then have "ins_rule i = eol_rule_name config"
    "pget (ins_payload i) ''extended_support_monthly_usd'' = PFloat x"
    by (simp_all add: eol_insight_like_def)
  then show ?thesis using monetary_float [OF e(1), of "ins_payload i" x] e(2) by simp
qed

end

end
