(* ===== verification/EolEngines.thy ===== *)
theory EolEngines
  imports Eol
begin

text \<open>
  The three Extended Support rules: the version parsers, upgrade targets and matchers of
  \<open>rds_eol\<close>, \<open>mysql_eol\<close> and \<open>aurora_eol\<close> (\<open>packages/insights/*/resolver.py\<close>) and their
  \<open>evaluate\<close> wrappers. Each configuration is an interpretation of the contract
  \<open>eol_rule\<close>.
\<close>

section \<open>RDS PostgreSQL\<close>

definition parse_postgres_major :: "string \<Rightarrow> int option" where
  "parse_postgres_major raw =
    (let parts = split_on CHR ''.'' raw in
     if parts = [] \<or> \<not> str_isdigit (hd parts) then None else Some (int (nat_of_digits (hd parts))))"

definition postgres_upgrade_target :: "int \<Rightarrow> string res" where
  "postgres_upgrade_target major = Inr (''PostgreSQL '' @ str_of_int (major + 1))"

definition pg_compute_tier :: "eol_info \<Rightarrow> date \<Rightarrow> tier" where
  "pg_compute_tier info today = extended_support_tier (eol_date info) today"

definition POSTGRES_MATCHER :: "int engine_eol_matcher" where
  "POSTGRES_MATCHER =
    \<lparr>engine_value = ''postgres'', display_name = ''RDS PostgreSQL'', service_canonical = ''managed_postgres'',
     lookup_eol_info = postgres_eol_info, parse_major = parse_postgres_major, format_major = str_of_int,
     major_json = PInt, upgrade_target = postgres_upgrade_target, compute_tier = pg_compute_tier,
     price_fn = es_price_per_vcpu_hour, vcpu_payload_key = ''vcpu'', matcher_value_basis = None\<rparr>"

definition RDS_CONFIG :: "int eol_rule_config" where
  "RDS_CONFIG = \<lparr>eol_rule_name = ''rds_eol'', engines = [POSTGRES_MATCHER], alert_window_days = 90,
     eol_value_basis = ''ESTIMATED''\<rparr>"

definition rds_eol_evaluate :: "uuid \<Rightarrow> fact list \<Rightarrow> date option \<Rightarrow> date \<Rightarrow> outcome res" where
  "rds_eol_evaluate rid facts today clock = evaluate_eol rid facts RDS_CONFIG today clock (Some CATALOG_VERSION)"

section \<open>RDS MySQL\<close>

definition NEXT_MAJOR :: "(string, string) dict" where
  "NEXT_MAJOR = [(''5.7'', ''8.0''), (''8.0'', ''8.4'')]"

definition parse_mysql_major :: "string \<Rightarrow> string option" where
  "parse_mysql_major raw =
    (let parts = split_on CHR ''.'' raw in
     if length parts < 2 \<or> \<not> str_isdigit (parts ! 0) \<or> \<not> str_isdigit (parts ! 1) then None
     else Some (parts ! 0 @ ''.'' @ parts ! 1))"

definition mysql_upgrade_target :: "string \<Rightarrow> string res" where
  "mysql_upgrade_target major =
    (case dict_get NEXT_MAJOR major of None \<Rightarrow> Inl (KeyError major) | Some t \<Rightarrow> Inr t)"

definition MYSQL_MATCHER :: "string engine_eol_matcher" where
  "MYSQL_MATCHER =
    \<lparr>engine_value = ''mysql'', display_name = ''RDS MySQL'', service_canonical = ''managed_mysql'',
     lookup_eol_info = mysql_eol_info, parse_major = parse_mysql_major, format_major = (\<lambda>m. m),
     major_json = PStr, upgrade_target = mysql_upgrade_target, compute_tier = engine_extended_support_tier,
     price_fn = es_price_per_vcpu_hour, vcpu_payload_key = ''vcpu_count'',
     matcher_value_basis = Some ''ESTIMATED''\<rparr>"

definition MYSQL_CONFIG :: "string eol_rule_config" where
  "MYSQL_CONFIG = \<lparr>eol_rule_name = ''mysql_eol'', engines = [MYSQL_MATCHER], alert_window_days = 90,
     eol_value_basis = ''ESTIMATED''\<rparr>"

definition mysql_eol_evaluate :: "uuid \<Rightarrow> fact list \<Rightarrow> date option \<Rightarrow> date \<Rightarrow> outcome res" where
  "mysql_eol_evaluate rid facts today clock = evaluate_eol rid facts MYSQL_CONFIG today clock (Some CATALOG_VERSION)"

section \<open>Aurora\<close>

definition AURORA_MYSQL_NEXT_MAJOR :: "(int, string) dict" where
  "AURORA_MYSQL_NEXT_MAJOR = [(2, ''Aurora MySQL 3 (MySQL 8.0)''), (3, ''Aurora MySQL 8.4'')]"

text \<open>\<open>raw.split(sep, 1)[1]\<close> when \<open>sep in raw\<close>: the text after the first occurrence.\<close>

fun after_first :: "string \<Rightarrow> string \<Rightarrow> string" where
  "after_first sep [] = []"
| "after_first sep (c # cs) = (if is_prefix_of sep (c # cs) then drop (length sep) (c # cs) else after_first sep cs)"

text \<open>\<open>int(raw.split(".")[0])\<close>: the first part always exists; \<open>int\<close> accepts a sign, spaces
  around the number and underscores inside it.\<close>

definition parse_aurora_major :: "string \<Rightarrow> string \<Rightarrow> int option" where
  "parse_aurora_major engine raw =
    (let raw' = (if engine = ''aurora-mysql'' \<and> str_contains ''mysql_aurora.'' raw
                 then after_first ''mysql_aurora.'' raw else raw)
     in parse_int (hd (split_on CHR ''.'' raw')))"

definition aurora_mysql_upgrade_target :: "int \<Rightarrow> string res" where
  "aurora_mysql_upgrade_target major =
    (case dict_get AURORA_MYSQL_NEXT_MAJOR major of None \<Rightarrow> Inl (KeyError (str_of_int major)) | Some t \<Rightarrow> Inr t)"

definition aurora_postgres_upgrade_target :: "int \<Rightarrow> string res" where
  "aurora_postgres_upgrade_target major = Inr (''Aurora PostgreSQL '' @ str_of_int (major + 1))"

definition aurora_mysql_parse :: "string \<Rightarrow> int option" where
  "aurora_mysql_parse raw = parse_aurora_major ''aurora-mysql'' raw"

definition aurora_postgres_parse :: "string \<Rightarrow> int option" where
  "aurora_postgres_parse raw = parse_aurora_major ''aurora-postgresql'' raw"

definition AURORA_MYSQL_MATCHER :: "int engine_eol_matcher" where
  "AURORA_MYSQL_MATCHER =
    \<lparr>engine_value = ''aurora-mysql'', display_name = ''Aurora MySQL'', service_canonical = ''managed_mysql'',
     lookup_eol_info = aurora_mysql_eol_info, parse_major = aurora_mysql_parse, format_major = str_of_int,
     major_json = PInt, upgrade_target = aurora_mysql_upgrade_target,
     compute_tier = engine_extended_support_tier, price_fn = es_price_per_vcpu_hour,
     vcpu_payload_key = ''vcpu_count'', matcher_value_basis = Some ''ESTIMATED''\<rparr>"

definition AURORA_POSTGRES_MATCHER :: "int engine_eol_matcher" where
  "AURORA_POSTGRES_MATCHER =
    \<lparr>engine_value = ''aurora-postgresql'', display_name = ''Aurora PostgreSQL'',
     service_canonical = ''managed_postgres'', lookup_eol_info = aurora_postgres_eol_info,
     parse_major = aurora_postgres_parse, format_major = str_of_int, major_json = PInt,
     upgrade_target = aurora_postgres_upgrade_target, compute_tier = engine_extended_support_tier,
     price_fn = es_price_per_vcpu_hour, vcpu_payload_key = ''vcpu_count'',
     matcher_value_basis = Some ''ESTIMATED''\<rparr>"

definition AURORA_CONFIG :: "int eol_rule_config" where
  "AURORA_CONFIG = \<lparr>eol_rule_name = ''aurora_eol'',
     engines = [AURORA_MYSQL_MATCHER, AURORA_POSTGRES_MATCHER], alert_window_days = 90,
     eol_value_basis = ''ESTIMATED''\<rparr>"

definition aurora_eol_evaluate :: "uuid \<Rightarrow> fact list \<Rightarrow> date option \<Rightarrow> date \<Rightarrow> outcome res" where
  "aurora_eol_evaluate rid facts today clock = evaluate_eol rid facts AURORA_CONFIG today clock (Some CATALOG_VERSION)"

section \<open>The contract holds for the three rules\<close>

lemmas matcher_defs = POSTGRES_MATCHER_def MYSQL_MATCHER_def AURORA_MYSQL_MATCHER_def
  AURORA_POSTGRES_MATCHER_def

lemmas lookup_defs = postgres_eol_info_def mysql_eol_info_def aurora_mysql_eol_info_def
  aurora_postgres_eol_info_def

lemma es_tier_rate_mono:
  assumes "price_fn m = es_price_per_vcpu_hour"
    and "tier_rank (compute_tier m info a) \<le> tier_rank (compute_tier m info b)"
  shows "0 < tier_rate m info region a \<and> tier_rate m info region a \<le> tier_rate m info region b"
proof -
  have pos: "0 < fst (es_price_per_vcpu_hour t region)" for t
    using es_price_pos by (metis prod.collapse)
  have "fst (es_price_per_vcpu_hour Year_1_2 region) \<le> fst (es_price_per_vcpu_hour Year_3_plus region)"
    using es_grid_rates es_default_row
    by (auto simp: es_price_per_vcpu_hour_def Let_def get_default_def split: option.splits)
  then show ?thesis using assms pos
    by (cases "compute_tier m info a"; cases "compute_tier m info b") (auto simp: tier_rate_def)
qed

lemma NEXT_MAJOR_covers: "dict_get MYSQL_EOL m = Some i \<Longrightarrow> \<exists>t. mysql_upgrade_target m = Inr t"
  by (auto simp: MYSQL_EOL_def mysql_upgrade_target_def NEXT_MAJOR_def split: if_splits)

lemma AURORA_NEXT_MAJOR_covers:
  "dict_get AURORA_MYSQL_EOL m = Some i \<Longrightarrow> \<exists>t. aurora_mysql_upgrade_target m = Inr t"
  by (auto simp: AURORA_MYSQL_EOL_def aurora_mysql_upgrade_target_def AURORA_MYSQL_NEXT_MAJOR_def split: if_splits)

interpretation rds: eol_rule RDS_CONFIG
proof unfold_locales
  show "\<exists>e. dict_get MONETARY (eol_rule_name RDS_CONFIG) = Some e \<and> payload_key e = ''extended_support_monthly_usd''"
    by (simp add: RDS_CONFIG_def MONETARY_def)
  fix m info and a b :: date and region
  assume "m \<in> set (engines RDS_CONFIG)" "valid_date a" "valid_date b" "a \<le> b"
  then show "0 < tier_rate m info region a \<and> tier_rate m info region a \<le> tier_rate m info region b"
    by (intro es_tier_rate_mono)
      (auto simp: RDS_CONFIG_def matcher_defs pg_compute_tier_def intro!: extended_support_tier_mono)
qed (auto simp: RDS_CONFIG_def matcher_defs lookup_defs eol_payload_keys_def postgres_upgrade_target_def
    dest: calendar_ok)

interpretation mysql: eol_rule MYSQL_CONFIG
proof unfold_locales
  show "\<exists>e. dict_get MONETARY (eol_rule_name MYSQL_CONFIG) = Some e \<and> payload_key e = ''extended_support_monthly_usd''"
    by (simp add: MYSQL_CONFIG_def MONETARY_def)
  fix m info and a b :: date and region
  assume "m \<in> set (engines MYSQL_CONFIG)" "valid_date a" "valid_date b" "a \<le> b"
  then show "0 < tier_rate m info region a \<and> tier_rate m info region a \<le> tier_rate m info region b"
    by (intro es_tier_rate_mono) (auto simp: MYSQL_CONFIG_def matcher_defs intro!: engine_tier_mono)
qed (auto simp: MYSQL_CONFIG_def matcher_defs lookup_defs eol_payload_keys_def NEXT_MAJOR_covers
    dest: calendar_ok)

interpretation aurora: eol_rule AURORA_CONFIG
proof unfold_locales
  show "\<exists>e. dict_get MONETARY (eol_rule_name AURORA_CONFIG) = Some e \<and> payload_key e = ''extended_support_monthly_usd''"
    by (simp add: AURORA_CONFIG_def MONETARY_def)
  fix m info and a b :: date and region
  assume "m \<in> set (engines AURORA_CONFIG)" "valid_date a" "valid_date b" "a \<le> b"
  then show "0 < tier_rate m info region a \<and> tier_rate m info region a \<le> tier_rate m info region b"
    by (intro es_tier_rate_mono) (auto simp: AURORA_CONFIG_def matcher_defs intro!: engine_tier_mono)
qed (auto simp: AURORA_CONFIG_def matcher_defs lookup_defs eol_payload_keys_def
    AURORA_NEXT_MAJOR_covers aurora_postgres_upgrade_target_def dest: calendar_ok)

section \<open>Properties of the Extended Support rules\<close>

definition eol_evaluators :: "(uuid \<Rightarrow> fact list \<Rightarrow> date option \<Rightarrow> date \<Rightarrow> outcome res) list" where
  "eol_evaluators = [rds_eol_evaluate, mysql_eol_evaluate, aurora_eol_evaluate]"

lemmas evaluate_defs = rds_eol_evaluate_def mysql_eol_evaluate_def aurora_eol_evaluate_def

definition rds_fact :: "string \<Rightarrow> pyval \<Rightarrow> value_state \<Rightarrow> fact" where
  "rds_fact k v st = make_fact_builder ''aws.rds'' ''aws_rds'' ''acct'' 0 7 k v st"
definition pg13_facts :: "fact list" where
  "pg13_facts = [rds_fact ''engine'' (PStr ''postgres'') KNOWN, rds_fact ''engine_version'' (PStr ''13.7'') KNOWN,
     rds_fact ''vcpu'' (PInt 4) KNOWN, rds_fact ''region'' (PStr ''eu-west-1'') KNOWN]"
lemmas pg13_eval = eol_region_def fact_val_def known_def index_facts_def dict_of_def pg13_facts_def rds_fact_def dotted_def
lemma pg13_monthly: "extended_support_monthly 4 (tier_rate POSTGRES_MATCHER (pg_info (Date 2026 2 28) (Date 2029 2 28))
      (eol_region pg13_facts) (Date 2026 3 1)) = Inr (lit 32704 2)"
proof -
  have "eol_region pg13_facts = Some ''eu-west-1''" by (simp add: pg13_eval)
  moreover have "tier_rate POSTGRES_MATCHER (pg_info (Date 2026 2 28) (Date 2029 2 28)) (Some ''eu-west-1'') (Date 2026 3 1) = lit 112 3"
  by (simp add: tier_rate_def POSTGRES_MATCHER_def pg_compute_tier_def extended_support_tier_def pg_info_def
        days_between_def toordinal_def days_before_year_def days_before_month_def is_leap_def 
        es_price_per_vcpu_hour_def ES_PRICE_BY_REGION_def es_default_grid_def)
  moreover have "py_round (fmul (fmul 4 (lit 112 3)) 730) 2 = lit 32704 2" by (simp add: fl_eval)
  ultimately show ?thesis by (simp add: extended_support_monthly_def HOURS_PER_MONTH_def)
qed
lemma pg13_reads:
  "eol_reads pg13_facts RDS_CONFIG (rds_fact ''engine'' (PStr ''postgres'') KNOWN) POSTGRES_MATCHER 13 4
     (pg_info (Date 2026 2 28) (Date 2029 2 28))"
proof -
  have "parse_postgres_major ''13.7'' = Some 13"  by (code_simp)
  then show ?thesis
  by (simp add: eol_reads_def Let_def eol_gates_def  pg13_eval RDS_CONFIG_def select_matcher_def POSTGRES_MATCHER_def
      postgres_eol_info_def POSTGRES_EOL_def)
qed
lemma pg13_found:
  "\<exists>i. rds_eol_evaluate 7 pg13_facts (Some (Date 2026 3 1)) clock = Inr (found i) \<and>
     ins_severity i = CRITICAL \<and> pget (ins_payload i) ''extended_support_monthly_usd'' = PFloat (lit 32704 2)"
proof -
  have v: "valid_date (Date 2026 3 1)" by (simp add: date_eval)
  have s: "eol_verdict (pg_info (Date 2026 2 28) (Date 2029 2 28)) (alert_window_days RDS_CONFIG) (Date 2026 3 1) = Some CRITICAL"
    by (simp add: eol_verdict_def pg_info_def date_eval)
  show ?thesis using rds.verdict [OF pg13_reads v, of 7 clock "Some CATALOG_VERSION"]
    by (auto simp: rds_eol_evaluate_def eol_insight_like_def pg13_monthly s)
qed


definition pg_no_region :: "fact list" where
  "pg_no_region = [rds_fact ''engine'' (PStr ''postgres'') KNOWN, rds_fact ''vcpu'' (PInt 4) KNOWN,
     rds_fact ''region'' PNone UNKNOWN]"


text \<open>C12: The severity of an RDS PostgreSQL finding is decided by the calendar alone. With the
  four facts \<open>KNOWN\<close>, a parsable version and a catalogued major, the rule is CRITICAL from the end-of-life date on, WARNING
  when that date is at most 90 days away and silent before; the monthly amount of the
  finding is \<open>round(vcpu * rate * 730, 2)\<close> at the rate of the day's tier in the region.\<close>

theorem rds_eol_by_calendar:
  assumes "\<forall>k \<in> {''aws.rds.engine'', ''aws.rds.engine_version'', ''aws.rds.vcpu'', ''aws.rds.region''}.
      known (index_facts facts) k"
    and "fact_val (index_facts facts) ''aws.rds.engine'' = PStr ''postgres''"
    and "parse_postgres_major (eol_version facts) = Some major"
    and "fact_val (index_facts facts) ''aws.rds.vcpu'' = PInt vcpu" and "0 \<le> vcpu" and "vcpu < 2 ^ 53"
    and "postgres_eol_info major = Some info" and "valid_date dt"
  shows "(if eol_date info \<le> dt \<or> days_between (eol_date info) dt \<le> 90
      then \<exists>i. rds_eol_evaluate rid facts (Some dt) clock = Inr (found i) \<and>
        ins_severity i = (if eol_date info \<le> dt then CRITICAL else WARNING) \<and>
        pget (ins_payload i) ''extended_support_monthly_usd'' =
          PFloat (py_round (fmul (fmul (of_int vcpu)
            (fst (es_price_per_vcpu_hour (extended_support_tier (eol_date info) dt) (eol_region facts)))) 730) 2)
      else rds_eol_evaluate rid facts (Some dt) clock = Inr no_match)"
proof -
  obtain engine where e: "dict_get (index_facts facts) ''aws.rds.engine'' = Some engine"
    using assms(1) by (auto simp: known_iff)
  then have ev: "fact_value engine = PStr ''postgres''" using assms(2) by (simp add: fact_val_def)
  have m: "select_matcher RDS_CONFIG ''postgres'' = Some POSTGRES_MATCHER"
    by (simp add: select_matcher_def RDS_CONFIG_def POSTGRES_MATCHER_def)
  have reads: "eol_reads facts RDS_CONFIG engine POSTGRES_MATCHER major vcpu info"
    using assms e ev m
    by (simp add: eol_reads_def Let_def eol_gates_Nil eol_version_def) (simp add: POSTGRES_MATCHER_def)
  have f: "extended_support_monthly vcpu r = Inr (py_round (fmul (fmul (of_int vcpu) r) 730) 2)" for r
    using assms(5,6) float_of_int_small [of vcpu] by (simp add: extended_support_monthly_def HOURS_PER_MONTH_def)
  have w: "alert_window_days RDS_CONFIG = 90" by (simp add: RDS_CONFIG_def)
  have t: "tier_rate POSTGRES_MATCHER info r dt = fst (es_price_per_vcpu_hour (extended_support_tier (eol_date info) dt) r)" for r
    by (simp add: tier_rate_def POSTGRES_MATCHER_def pg_compute_tier_def)
  show ?thesis
    using rds.verdict [OF reads assms(8), of rid clock "Some CATALOG_VERSION"]
    by (auto simp: rds_eol_evaluate_def eol_verdict_def w f t eol_insight_like_def)
qed

theorem rds_eol_by_calendar_witness:
  "\<exists>i. rds_eol_evaluate 7 pg13_facts (Some (Date 2026 1 15)) (Date 2026 1 1) = Inr (found i) \<and>
     ins_severity i = WARNING"
proof -
  have "parse_postgres_major ''13.7'' = Some 13" by code_simp
  moreover have "eol_version pg13_facts = ''13.7''" by (simp add: eol_version_def pg13_eval)
  moreover have d: "days_between (Date 2026 2 28) (Date 2026 1 15) \<le> 90" "\<not> Date 2026 2 28 \<le> Date 2026 1 15"
    by (simp_all add: days_between_def toordinal_def days_before_year_def days_before_month_def date_eval)
  ultimately show ?thesis
    using rds_eol_by_calendar [of pg13_facts 13 4 "pg_info (Date 2026 2 28) (Date 2029 2 28)" "Date 2026 1 15" 7 "Date 2026 1 1"]
    by (auto simp: pg13_eval postgres_eol_info_def POSTGRES_EOL_def date_eval pg_info_def)
qed

text \<open>C22: A finding never gets better by waiting. For each of the three Extended Support rules, a
  resource reported on one day is reported on every later day, with a severity that does
  not decrease and, for a non-negative vCPU count, a monthly amount that does not decrease.\<close>

theorem eol_findings_escalate:
  assumes "ev \<in> set eol_evaluators" and "ev rid facts (Some a) clock = Inr (found i)"
    and "valid_date a" and "valid_date b" and "a \<le> b"
    and "py_int (fact_val (index_facts facts) ''aws.rds.vcpu'') = Inr n" and "0 \<le> n"
  shows "\<exists>j x y. ev rid facts (Some b) clock = Inr (found j) \<and> ins_severity i \<le> ins_severity j \<and>
    pget (ins_payload i) ''extended_support_monthly_usd'' = PFloat x \<and>
    pget (ins_payload j) ''extended_support_monthly_usd'' = PFloat y \<and> x \<le> y"
proof -
  from assms(1) consider "ev = rds_eol_evaluate" | "ev = mysql_eol_evaluate" | "ev = aurora_eol_evaluate"
    by (auto simp: eol_evaluators_def)
  then show ?thesis
    by cases (use assms(2-) rds.escalates mysql.escalates aurora.escalates in
      \<open>fastforce simp: evaluate_defs\<close>)+
qed

theorem eol_findings_escalate_witness:
  "\<exists>i j x y. rds_eol_evaluate 7 pg13_facts (Some (Date 2026 3 1)) (Date 2026 1 1) = Inr (found i) \<and>
    rds_eol_evaluate 7 pg13_facts (Some (Date 2028 6 1)) (Date 2026 1 1) = Inr (found j) \<and> ins_severity i \<le> ins_severity j \<and>
    pget (ins_payload i) ''extended_support_monthly_usd'' = PFloat x \<and>
    pget (ins_payload j) ''extended_support_monthly_usd'' = PFloat y \<and> x \<le> y"
proof -
  obtain i where i: "rds_eol_evaluate 7 pg13_facts (Some (Date 2026 3 1)) (Date 2026 1 1) = Inr (found i)"
    using pg13_found by blast
  have v: "valid_date (Date 2026 3 1)" "valid_date (Date 2028 6 1)" "Date 2026 3 1 \<le> Date 2028 6 1"
    by (simp_all add: date_eval)
  have n: "py_int (fact_val (index_facts pg13_facts) ''aws.rds.vcpu'') = Inr 4" by (simp add: pg13_eval)
  show ?thesis using eol_findings_escalate [where ev = rds_eol_evaluate, OF _ i v n] i by (auto simp: eol_evaluators_def)
qed

text \<open>The only exception an Extended Support rule can raise is the overflow of an integer vCPU
  count beyond the float range. In particular the upgrade-target tables cover every
  catalogued major, so no \<open>KeyError\<close> can escape, and a malformed vCPU value is reported as inconclusive.\<close>

theorem eol_raises_only_overflow:
  assumes "ev \<in> set eol_evaluators" and "ev rid facts (Some d) clock = Inl e" and "valid_date d"
  shows "e = OverflowError \<and> (\<exists>n. py_int (fact_val (index_facts facts) ''aws.rds.vcpu'') = Inr n \<and>
    2 ^ 1024 - 2 ^ 970 \<le> \<bar>n\<bar>)"
  using assms(1)
proof -
  from assms(1) consider "ev = rds_eol_evaluate" | "ev = mysql_eol_evaluate" | "ev = aurora_eol_evaluate"
    by (auto simp: eol_evaluators_def)
  then show ?thesis
  proof cases
    case 1
    then show ?thesis using rds.only_overflow assms(2,3) unfolding evaluate_defs by blast
  next
    case 2
    then show ?thesis using mysql.only_overflow assms(2,3) unfolding evaluate_defs by blast
  next
    case 3
    then show ?thesis using aurora.only_overflow assms(2,3) unfolding evaluate_defs by blast
  qed
qed

definition pg13_absurd :: "fact list" where
  "pg13_absurd = [rds_fact ''engine'' (PStr ''postgres'') KNOWN, rds_fact ''engine_version'' (PStr ''13.7'') KNOWN,
     rds_fact ''vcpu'' (PInt (2 ^ 1024)) KNOWN, rds_fact ''region'' (PStr ''eu-west-1'') KNOWN]"

theorem eol_raises_only_overflow_witness:
  "rds_eol_evaluate 7 pg13_absurd (Some (Date 2026 3 1)) (Date 2026 1 1) = Inl OverflowError \<and>
   (\<exists>n. py_int (fact_val (index_facts pg13_absurd) ''aws.rds.vcpu'') = Inr n \<and> 2 ^ 1024 - 2 ^ 970 \<le> \<bar>n\<bar>)"
proof -
  have "parse_postgres_major ''13.7'' = Some 13" by code_simp
  then have reads: "eol_reads pg13_absurd RDS_CONFIG (rds_fact ''engine'' (PStr ''postgres'') KNOWN) POSTGRES_MATCHER 13
      (2 ^ 1024) (pg_info (Date 2026 2 28) (Date 2029 2 28))"
    by (simp add: eol_reads_def Let_def eol_gates_def known_def fact_val_def index_facts_def dict_of_def
        dotted_def pg13_absurd_def rds_fact_def RDS_CONFIG_def select_matcher_def POSTGRES_MATCHER_def
        postgres_eol_info_def POSTGRES_EOL_def)
  have v: "valid_date (Date 2026 3 1)" by (simp add: date_eval)
  have s: "eol_verdict (pg_info (Date 2026 2 28) (Date 2029 2 28)) (alert_window_days RDS_CONFIG) (Date 2026 3 1) = Some CRITICAL"
    by (simp add: eol_verdict_def pg_info_def date_eval)
  have f: "extended_support_monthly (2 ^ 1024) r = Inl OverflowError" for r
    by (simp add: extended_support_monthly_def float_of_int_def)
  have "rds_eol_evaluate 7 pg13_absurd (Some (Date 2026 3 1)) (Date 2026 1 1) = Inl OverflowError"
    using rds.verdict [OF reads v, of 7 "Date 2026 1 1" "Some CATALOG_VERSION"] s f
    by (simp add: rds_eol_evaluate_def)
  then show ?thesis using eol_raises_only_overflow [where ev = rds_eol_evaluate, OF _ _ v]
    by (auto simp: eol_evaluators_def)
qed

text \<open>The three Extended Support rules never speak about the same database. When the engine is
  known, at most one of them answers anything but "no match".\<close>

theorem eol_rules_exclusive:
  assumes "i < length eol_evaluators" and "j < length eol_evaluators" and "i \<noteq> j"
    and "known (index_facts facts) ''aws.rds.engine''"
  shows "(eol_evaluators ! i) rid facts today clock = Inr no_match \<or>
    (eol_evaluators ! j) rid facts today clock = Inr no_match"
proof -
  let ?s = "py_str (fact_val (index_facts facts) ''aws.rds.engine'')"
  have quiet: "select_matcher config ?s = None \<Longrightarrow> evaluate_eol rid facts config today clock cv = Inr no_match"
    for config :: "'m eol_rule_config" and cv
    using assms(4) by (simp add: evaluate_eol_def)
  have sel: "select_matcher RDS_CONFIG ?s \<noteq> None \<Longrightarrow> ?s = ''postgres''"
    "select_matcher MYSQL_CONFIG ?s \<noteq> None \<Longrightarrow> ?s = ''mysql''"
    "select_matcher AURORA_CONFIG ?s \<noteq> None \<Longrightarrow> ?s = ''aurora-mysql'' \<or> ?s = ''aurora-postgresql''"
    by (auto simp: select_matcher_def RDS_CONFIG_def MYSQL_CONFIG_def AURORA_CONFIG_def matcher_defs split: if_splits)
  have r: "rds_eol_evaluate rid facts today clock = Inr no_match \<or> ?s = ''postgres''"
    using sel(1) quiet [of RDS_CONFIG] unfolding rds_eol_evaluate_def by blast
  have m: "mysql_eol_evaluate rid facts today clock = Inr no_match \<or> ?s = ''mysql''"
    using sel(2) quiet [of MYSQL_CONFIG] unfolding mysql_eol_evaluate_def by blast
  have a: "aurora_eol_evaluate rid facts today clock = Inr no_match \<or> ?s = ''aurora-mysql'' \<or> ?s = ''aurora-postgresql''"
    using sel(3) quiet [of AURORA_CONFIG] unfolding aurora_eol_evaluate_def by blast
  have "i \<in> {0, 1, 2}" "j \<in> {0, 1, 2}" using assms(1,2) by (auto simp: eol_evaluators_def)
  then show ?thesis using assms(3) r m a by (auto simp: eol_evaluators_def)
qed

theorem eol_rules_exclusive_witness:
  "rds_eol_evaluate 7 pg13_facts (Some (Date 2026 3 1)) (Date 2026 1 1) = Inr no_match \<or>
   mysql_eol_evaluate 7 pg13_facts (Some (Date 2026 3 1)) (Date 2026 1 1) = Inr no_match"
proof -
  have "known (index_facts pg13_facts) ''aws.rds.engine''" by (simp add: pg13_eval)
  then show ?thesis
    using eol_rules_exclusive [of 0 1 pg13_facts 7 "Some (Date 2026 3 1)" "Date 2026 1 1"]
    by (simp add: eol_evaluators_def)
qed

text \<open>The advertised monthly amount is the product \<open>vcpu * rate * 730\<close> to half a cent. For up to 2^20 vCPUs and a
  rate between 2^-10 and 1 dollar per hour, the four float roundings together move the amount
  by no more than half a cent and a millionth.\<close>

theorem extended_support_monthly_accurate:
  assumes "extended_support_monthly n r = Inr m" and "0 \<le> n" and "n \<le> 2 ^ 20" and "0 \<le> r" and "r \<le> 1"
  shows "\<bar>m - of_int n * r * 730\<bar> \<le> 1 / 200 + 1 / 1000000"
proof -
  define x1 where "x1 = fl (of_int n * r)"
  define x2 where "x2 = fl (x1 * 730)"
  define q where "q = of_int (round_half_even (x2 * 100)) / (100 :: rat)"
  have n: "(of_int n :: rat) \<le> 2 ^ 20" using assms(3) by (metis of_int_le_iff of_int_numeral of_int_power)
  have m: "m = fl q"
    using assms(1-3) float_of_int_small [of n]
    by (simp add: extended_support_monthly_def HOURS_PER_MONTH_def py_round_def fmul_def x1_def x2_def q_def)
  have nr0: "0 \<le> of_int n * r" using assms by simp
  have "of_int n * r \<le> of_int n * 1" using assms by (intro mult_left_mono) auto
  then have nr: "of_int n * r \<le> 1048576" using n by simp
  have e1: "\<bar>x1 - of_int n * r\<bar> \<le> 1 / 8589934592"
    using fl_bound [of "of_int n * r" 20] nr nr0 by (simp add: pow2_numeral x1_def)
  have x10: "0 \<le> x1" using nr0 by (simp add: x1_def fl_nonneg)
  have e2: "\<bar>x2 - x1 * 730\<bar> \<le> 1 / 4194304"
  proof -
    have "x1 - of_int n * r \<le> 1 / 8589934592" using abs_ge_self e1 by (rule order_trans)
    then have "x1 \<le> 1048577" using nr by simp
    then have "x1 * 730 \<le> 2147483648" by simp
    then have "\<bar>x1 * 730\<bar> \<le> pow2 31" using x10 by (simp add: pow2_numeral)
    then show ?thesis using fl_bound [of "x1 * 730" 31] by (simp add: pow2_numeral x2_def)
  qed
  have e3: "\<bar>q - x2\<bar> \<le> 1 / 200"
    using decimal_round_error [of x2 2] by (simp add: q_def)
  have "\<bar>q\<bar> \<le> 2147483648" using e1 e2 e3 nr nr0 by linarith
  then have e4: "\<bar>m - q\<bar> \<le> 1 / 4194304" using fl_bound [of q 31] by (simp add: pow2_numeral m)
  show ?thesis using e1 e2 e3 e4 by linarith
qed

theorem extended_support_monthly_accurate_witness:
  "\<exists>m. extended_support_monthly 4 (lit 112 3) = Inr m \<and> \<bar>m - of_int 4 * lit 112 3 * 730\<bar> \<le> 1 / 200 + 1 / 1000000"
proof -
  obtain m where m: "extended_support_monthly 4 (lit 112 3) = Inr m"
    by (simp add: extended_support_monthly_def)
  moreover have "0 \<le> lit 112 3" "lit 112 3 \<le> 1" by (simp_all add: fl_eval)
  ultimately show ?thesis using extended_support_monthly_accurate [OF m] by auto
qed

text \<open>Past the end of Extended Support the finding announces a force-upgrade in a negative
  number of days: \<open>days_to_event\<close> is below zero and the title prints it as it is, although
  the date of the forced upgrade already lies behind.\<close>

theorem force_upgrade_in_negative_days:
  assumes "eol_branches config matcher rid acct major version vcpu region info d cv = Inr (found i)"
    and "end_of_extended_support info < d" and "valid_date (end_of_extended_support info)" and "valid_date d"
    and "vcpu_payload_key matcher \<noteq> ''days_to_event''"
  shows "\<exists>n < 0. pget (ins_payload i) ''days_to_event'' = PInt n \<and>
    ins_title i = display_name matcher @ '' '' @ format_major matcher major @
      '' will be force-upgraded in '' @ str_of_int n @ '' days''"
proof -
  let ?n = "days_between (end_of_extended_support info) d"
  have n: "?n < 0" using days_between_sign(2) [OF assms(3,4)] assms(2) by simp
  have key: "pget (eol_payload config matcher major version vcpu info ?n tier price monthly rec cv) ''days_to_event'' = PInt ?n"
    for tier price monthly rec
  proof -
    obtain rate used exact where p: "price = (rate, used, exact)" by (cases price)
    show ?thesis using assms(5) unfolding eol_payload_def p Let_def prod.case pget_def get_default_def
      by (cases "matcher_value_basis matcher"; simp add: dict_get_of)
  qed
  obtain target where "upgrade_target matcher major = Inr target"
    using assms(1) by (cases "upgrade_target matcher major") (auto simp: eol_branches_def)
  then have "ins_title i = display_name matcher @ '' '' @ format_major matcher major @
      '' will be force-upgraded in '' @ str_of_int ?n @ '' days'' \<and>
    pget (ins_payload i) ''days_to_event'' = PInt ?n"
    using assms(1,2)
    by (auto simp: eol_branches_def Let_def make_eol_insight_cases key split: sum.splits)
  then show ?thesis using n by blast
qed

theorem force_upgrade_in_negative_days_witness:
  "\<exists>i. rds_eol_evaluate 7 pg13_facts (Some (Date 2029 3 10)) (Date 2026 1 1) = Inr (found i) \<and>
     (\<exists>n < 0. pget (ins_payload i) ''days_to_event'' = PInt n)"
proof -
  have v: "valid_date (Date 2029 3 10)" "valid_date (Date 2029 2 28)" "Date 2029 2 28 < Date 2029 3 10"
    by (simp_all add: date_eval)
  obtain i0 where i0: "rds_eol_evaluate 7 pg13_facts (Some (Date 2026 3 1)) (Date 2026 1 1) = Inr (found i0)"
    using pg13_found by blast
  obtain i where i: "rds_eol_evaluate 7 pg13_facts (Some (Date 2029 3 10)) (Date 2026 1 1) = Inr (found i)"
    using rds.escalates [of 7 pg13_facts "Date 2026 3 1" "Date 2026 1 1" "Some CATALOG_VERSION" i0 "Date 2029 3 10"] i0
    by (auto simp: rds_eol_evaluate_def date_eval)
  then have "eol_branches RDS_CONFIG POSTGRES_MATCHER 7 (Some ''acct'') 13 (eol_version pg13_facts) 4
      (eol_region pg13_facts) (pg_info (Date 2026 2 28) (Date 2029 2 28)) (Date 2029 3 10) (Some CATALOG_VERSION) = Inr (found i)"
    by (simp add: rds_eol_evaluate_def evaluate_eol_reads [OF pg13_reads] rds_fact_def)
  from force_upgrade_in_negative_days [OF this] v i show ?thesis
    by (auto simp: pg_info_def POSTGRES_MATCHER_def)
qed

end
