(* ===== verification/Collectors.thy ===== *)
theory Collectors
  imports StoppedStorage EolEngines
begin

text \<open>
  The AWS collectors: pagination with the injected region
  (\<open>constat_core/collectors/aws.py\<close>), the mappers of an API item to a resource, its facts
  and its observation (\<open>constat_aws_rds\<close> and \<open>constat_aws_ec2\<close>, \<open>collector.py\<close>) and the
  cross-resource correlation of one region. The AWS client is not part of the
  repository: the pages it returns are a parameter, a list of pages and possibly the
  exception that ends the iteration.
\<close>

section \<open>Reading API items\<close>

text \<open>\<open>d.get(key)\<close> on a value: only a dictionary has it. \<open>d[key]\<close> raises when absent.\<close>

fun py_get :: "pyval \<Rightarrow> string \<Rightarrow> pyval res" where
  "py_get (PDict d) k = Inr (pget d k)"
| "py_get v k = Inl AttributeError"

definition subscript :: "payload \<Rightarrow> string \<Rightarrow> pyval res" where
  "subscript d k = (case dict_get d k of None \<Rightarrow> Inl (KeyError k) | Some v \<Rightarrow> Inr v)"

text \<open>\<open>v or default\<close>.\<close>

definition py_or :: "pyval \<Rightarrow> pyval \<Rightarrow> pyval" where
  "py_or v w = (if truthy v then v else w)"

fun as_list :: "pyval \<Rightarrow> pyval list res" where
  "as_list (PList vs) = Inr vs"
| "as_list (PDict d) = Inr (map (\<lambda>(k, v). PStr k) d)"
| "as_list (PStr s) = Inr (map (\<lambda>c. PStr [c]) s)"
| "as_list v = Inl TypeError"

fun first_item :: "pyval \<Rightarrow> pyval res" where
  "first_item (PList (v # vs)) = Inr v"
| "first_item (PList []) = Inl IndexError"
| "first_item (PStr (c # cs)) = Inr (PStr [c])"
| "first_item (PStr []) = Inl IndexError"
| "first_item (PDict d) = Inl (KeyError ''0'')"
| "first_item v = Inl TypeError"

text \<open>\<open>t.isoformat() if t else None\<close>.\<close>

definition iso_or_none :: "pyval \<Rightarrow> pyval res" where
  "iso_or_none v = (if truthy v then
     (case v of PDateTime t \<Rightarrow> Inr (PStr (dt_isoformat t)) | _ \<Rightarrow> Inl AttributeError) else Inr PNone)"

text \<open>A string field of a validated model: anything else fails validation.\<close>

fun as_str :: "pyval \<Rightarrow> string res" where
  "as_str (PStr s) = Inr s"
| "as_str v = Inl ValueError"

text \<open>A dictionary key as the JSON column stores it; lists and dictionaries are not hashable.\<close>

fun json_key :: "pyval \<Rightarrow> string res" where
  "json_key (PStr s) = Inr s"
| "json_key PNone = Inr ''null''"
| "json_key (PBool b) = Inr (if b then ''true'' else ''false'')"
| "json_key (PInt i) = Inr (str_of_int i)"
| "json_key (PFloat x) = Inr (float_repr x)"
| "json_key (PDateTime t) = Inl TypeError"
| "json_key (PList vs) = Inl TypeError"
| "json_key (PDict d) = Inl TypeError"

definition tags_of :: "payload \<Rightarrow> pyval res" where
  "tags_of item =
    rbind (as_list (py_or (pget item ''Tags'') (PList []))) (\<lambda>ts.
    rmap (\<lambda>kvs. PDict (dict_of kvs))
      (mapM (\<lambda>t. rbind (py_get t ''Key'') (\<lambda>k. rbind (json_key k) (\<lambda>key. rmap (Pair key) (py_get t ''Value'')))) ts))"

section \<open>Pagination\<close>

text \<open>A paginated call: the pages delivered, then possibly the exception that ends it.\<close>

type_synonym stream = "payload list \<times> exn option"

definition DEFAULT_REGIONS :: "string list" where
  "DEFAULT_REGIONS = [''eu-west-1'', ''eu-west-2'', ''eu-west-3'', ''eu-central-1'', ''us-east-1'', ''us-east-2'', ''us-west-2'']"

definition tag_region :: "string \<Rightarrow> payload \<Rightarrow> payload" where
  "tag_region region item = dict_set ''_region'' (PStr region) item"

text \<open>The items of one page in order; the extractor may raise.\<close>

fun yield_pages :: "(payload \<Rightarrow> payload list res) \<Rightarrow> string \<Rightarrow> payload list \<Rightarrow> exn option \<Rightarrow> stream" where
  "yield_pages extract region [] e = ([], e)"
| "yield_pages extract region (p # ps) e =
    (case extract p of
       Inl x \<Rightarrow> ([], Some x)
     | Inr items \<Rightarrow> (let (rest, e') = yield_pages extract region ps e in (map (tag_region region) items @ rest, e')))"

fun paginate_regions ::
    "(string \<Rightarrow> stream) \<Rightarrow> (payload \<Rightarrow> payload list res) \<Rightarrow> string list \<Rightarrow> stream" where
  "paginate_regions pages extract [] = ([], None)"
| "paginate_regions pages extract (r # rs) =
    (let (ps, e) = pages r; (items, e') = yield_pages extract r ps e in
     case e' of Some x \<Rightarrow> (items, Some x)
     | None \<Rightarrow> (let (rest, e'') = paginate_regions pages extract rs in (items @ rest, e'')))"

definition paginate_aws ::
    "(string \<Rightarrow> stream) \<Rightarrow> string list option \<Rightarrow> (payload \<Rightarrow> payload list res) \<Rightarrow> stream" where
  "paginate_aws pages regions extract =
    paginate_regions pages extract (case regions of None \<Rightarrow> DEFAULT_REGIONS | Some rs \<Rightarrow> rs)"

definition dict_items :: "pyval list \<Rightarrow> payload list res" where
  "dict_items vs = mapM (\<lambda>v. case v of PDict d \<Rightarrow> Inr d | _ \<Rightarrow> Inl TypeError) vs"

definition items_under :: "string \<Rightarrow> payload \<Rightarrow> payload list res" where
  "items_under key page = (case dict_get page key of
     None \<Rightarrow> Inr [] | Some v \<Rightarrow> rbind (as_list v) dict_items)"

definition volumes_in_page :: "payload \<Rightarrow> payload list res" where
  "volumes_in_page page = items_under ''Volumes'' page"

definition snapshots_in_page :: "payload \<Rightarrow> payload list res" where
  "snapshots_in_page page = items_under ''Snapshots'' page"

definition instances_in_page :: "payload \<Rightarrow> payload list res" where
  "instances_in_page page =
    rbind (items_under ''Reservations'' page) (\<lambda>rs. rmap concat (mapM (items_under ''Instances'') rs))"

definition db_instances_in_page :: "payload \<Rightarrow> payload list res" where
  "db_instances_in_page page = items_under ''DBInstances'' page"

section \<open>Resources\<close>

definition VOLUME_RESOURCE_TYPE :: string where "VOLUME_RESOURCE_TYPE = ''AWS::EC2::Volume''"
definition SNAPSHOT_RESOURCE_TYPE :: string where "SNAPSHOT_RESOURCE_TYPE = ''AWS::EC2::Snapshot''"
definition INSTANCE_RESOURCE_TYPE :: string where "INSTANCE_RESOURCE_TYPE = ''AWS::EC2::Instance''"
definition RDS_RESOURCE_TYPE :: string where "RDS_RESOURCE_TYPE = ''AWS::RDS::DBInstance''"
definition EC2_SOURCE :: string where "EC2_SOURCE = ''aws_ec2''"
definition RDS_SOURCE :: string where "RDS_SOURCE = ''aws_rds''"

text \<open>The four \<open>*_to_resource\<close> mappers differ in the type and the key of the native id. The
  clock reading and the generated id are arguments.\<close>

definition item_to_resource :: "string \<Rightarrow> string \<Rightarrow> uuid \<Rightarrow> instant \<Rightarrow> payload \<Rightarrow> string \<Rightarrow> resource res" where
  "item_to_resource rtype id_key fresh now item account_id =
    rbind (rbind (subscript item ''_region'') as_str) (\<lambda>region.
    rmap (\<lambda>native. \<lparr>res_id = fresh, res_account = account_id, res_region = region, res_type = rtype,
        res_native_id = native, res_first_seen = now, res_last_seen = now, res_retired = None\<rparr>)
      (rbind (subscript item id_key) as_str))"

definition volume_to_resource :: "uuid \<Rightarrow> instant \<Rightarrow> payload \<Rightarrow> string \<Rightarrow> resource res" where
  "volume_to_resource = item_to_resource VOLUME_RESOURCE_TYPE ''VolumeId''"

definition snapshot_to_resource :: "uuid \<Rightarrow> instant \<Rightarrow> payload \<Rightarrow> string \<Rightarrow> resource res" where
  "snapshot_to_resource = item_to_resource SNAPSHOT_RESOURCE_TYPE ''SnapshotId''"

definition instance_to_resource :: "uuid \<Rightarrow> instant \<Rightarrow> payload \<Rightarrow> string \<Rightarrow> resource res" where
  "instance_to_resource = item_to_resource INSTANCE_RESOURCE_TYPE ''InstanceId''"

definition db_to_resource :: "uuid \<Rightarrow> instant \<Rightarrow> payload \<Rightarrow> string \<Rightarrow> resource res" where
  "db_to_resource = item_to_resource RDS_RESOURCE_TYPE ''DBInstanceArn''"

section \<open>Facts\<close>

definition plain_fact :: "(uuid \<Rightarrow> string \<Rightarrow> pyval \<Rightarrow> value_state \<Rightarrow> fact) \<Rightarrow> uuid \<Rightarrow> string \<Rightarrow> pyval \<Rightarrow> fact" where
  "plain_fact build rid k v = build rid k v (known_or_unknown v)"

definition volume_to_facts :: "uuid \<Rightarrow> string \<Rightarrow> payload \<Rightarrow> instant \<Rightarrow> fact list res" where
  "volume_to_facts rid account_id vol observed_at =
    (let g = pget vol; attachments = py_or (g ''Attachments'') (PList []);
         build = make_fact_builder ''aws.ec2.volume'' EC2_SOURCE account_id observed_at;
         att = (\<lambda>k. if truthy attachments then rbind (first_item attachments) (\<lambda>a. py_get a k) else Inr PNone)
     in rbind (att ''InstanceId'') (\<lambda>attached_instance. rbind (att ''Device'') (\<lambda>attached_device.
        rmap (\<lambda>created.
          [plain_fact build rid ''size_gb'' (g ''Size''), plain_fact build rid ''volume_type'' (g ''VolumeType''),
           plain_fact build rid ''state'' (g ''State''), plain_fact build rid ''encrypted'' (g ''Encrypted''),
           plain_fact build rid ''iops'' (g ''Iops''), plain_fact build rid ''throughput'' (g ''Throughput''),
           plain_fact build rid ''attached_instance_id'' attached_instance,
           plain_fact build rid ''attached_device'' attached_device,
           build rid ''create_time'' created (known_or_unknown (g ''CreateTime'')),
           plain_fact build rid ''region'' (g ''_region'')])
        (iso_or_none (g ''CreateTime'')))))"

definition snapshot_to_facts :: "uuid \<Rightarrow> string \<Rightarrow> payload \<Rightarrow> instant \<Rightarrow> fact list res" where
  "snapshot_to_facts rid account_id snap observed_at =
    (let g = pget snap; build = make_fact_builder ''aws.ec2.snapshot'' EC2_SOURCE account_id observed_at in
     rmap (\<lambda>started.
       [plain_fact build rid ''state'' (g ''State''), plain_fact build rid ''size_gb'' (g ''VolumeSize''),
        plain_fact build rid ''storage_tier'' (g ''StorageTier''), plain_fact build rid ''volume_id'' (g ''VolumeId''),
        build rid ''start_time'' started (known_or_unknown (g ''StartTime'')),
        plain_fact build rid ''description'' (g ''Description''), plain_fact build rid ''region'' (g ''_region'')])
     (iso_or_none (g ''StartTime'')))"

text \<open>\<open>(inst.get("State") or {}).get("Name")\<close> and \<open>m.get("Ebs") or {}\<close>.\<close>

definition nested :: "payload \<Rightarrow> string \<Rightarrow> string \<Rightarrow> pyval res" where
  "nested item outer inner = py_get (py_or (pget item outer) (PDict [])) inner"

definition mapping_volume_id :: "pyval \<Rightarrow> pyval res" where
  "mapping_volume_id m = rbind (py_get m ''Ebs'') (\<lambda>ebs. py_get (py_or ebs (PDict [])) ''VolumeId'')"

definition block_mappings :: "payload \<Rightarrow> pyval list res" where
  "block_mappings inst = as_list (py_or (pget inst ''BlockDeviceMappings'') (PList []))"

definition instance_to_facts :: "uuid \<Rightarrow> string \<Rightarrow> payload \<Rightarrow> instant \<Rightarrow> fact list res" where
  "instance_to_facts rid account_id inst observed_at =
    (let g = pget inst; build = make_fact_builder ''aws.ec2.instance'' EC2_SOURCE account_id observed_at in
     rbind (nested inst ''State'' ''Name'') (\<lambda>state.
     rbind (rbind (block_mappings inst) (mapM mapping_volume_id)) (\<lambda>ids.
     rmap (\<lambda>launched.
       [plain_fact build rid ''state'' state, plain_fact build rid ''instance_type'' (g ''InstanceType''),
        build rid ''launch_time'' launched (known_or_unknown (g ''LaunchTime'')),
        build rid ''block_device_volume_ids'' (PList (filter truthy ids)) KNOWN,
        plain_fact build rid ''region'' (g ''_region'')])
     (iso_or_none (g ''LaunchTime'')))))"

text \<open>The vCPU count comes from the catalog. \<open>RDS_INSTANCE_VCPU.get\<close> of a value that is not
  a string finds nothing, of a list or a dictionary raises.\<close>

definition db_to_facts :: "uuid \<Rightarrow> string \<Rightarrow> payload \<Rightarrow> instant \<Rightarrow> fact list res" where
  "db_to_facts rid account_id db observed_at =
    (let g = pget db; instance_class = py_or (g ''DBInstanceClass'') (PStr '''');
         build = make_fact_builder ''aws.rds'' RDS_SOURCE account_id observed_at in
     rmap (\<lambda>vcpu.
       [plain_fact build rid ''engine'' (g ''Engine''), plain_fact build rid ''engine_version'' (g ''EngineVersion''),
        build rid ''instance_class'' (py_or instance_class PNone) (known_or_unknown instance_class),
        build rid ''vcpu'' (case vcpu of None \<Rightarrow> PNone | Some n \<Rightarrow> PInt n) (if vcpu \<noteq> None then KNOWN else UNKNOWN),
        plain_fact build rid ''region'' (g ''_region'')])
     (get_by_value RDS_INSTANCE_VCPU instance_class))"

section \<open>Observations\<close>

definition make_observation :: "uuid \<Rightarrow> string \<Rightarrow> instant \<Rightarrow> payload \<Rightarrow> observation" where
  "make_observation rid source observed_at payload =
    \<lparr>obs_resource = rid, obs_source = source, obs_observed_at = observed_at, obs_payload = payload\<rparr>"

text \<open>The keys copied from the item as they are.\<close>

definition copy_keys :: "payload \<Rightarrow> string list \<Rightarrow> payload" where
  "copy_keys item ks = map (\<lambda>k. (k, pget item k)) ks"

definition attachment_row :: "pyval \<Rightarrow> pyval res" where
  "attachment_row a =
    rmap (\<lambda>vs. PDict (zip [''InstanceId'', ''Device'', ''State''] vs))
      (mapM (py_get a) [''InstanceId'', ''Device'', ''State''])"

definition volume_to_observation :: "uuid \<Rightarrow> payload \<Rightarrow> instant \<Rightarrow> observation res" where
  "volume_to_observation rid vol observed_at =
    rbind (iso_or_none (pget vol ''CreateTime'')) (\<lambda>created.
    rbind (rbind (as_list (py_or (pget vol ''Attachments'') (PList []))) (mapM attachment_row)) (\<lambda>rows.
    rmap (\<lambda>tags. make_observation rid EC2_SOURCE observed_at
      (copy_keys vol [''VolumeId'', ''VolumeType'', ''State'', ''Size'', ''Iops'', ''Throughput'', ''Encrypted'',
         ''AvailabilityZone''] @
       [(''CreateTime'', created), (''Attachments'', PList rows), (''Tags'', tags)])) (tags_of vol)))"

definition snapshot_to_observation :: "uuid \<Rightarrow> payload \<Rightarrow> instant \<Rightarrow> observation res" where
  "snapshot_to_observation rid snap observed_at =
    rbind (iso_or_none (pget snap ''StartTime'')) (\<lambda>started.
    rmap (\<lambda>tags. make_observation rid EC2_SOURCE observed_at
      (copy_keys snap [''SnapshotId'', ''State'', ''VolumeSize'', ''VolumeId'', ''Encrypted'', ''OwnerId''] @
       [(''StartTime'', started), (''Description'', pget snap ''Description''), (''Tags'', tags)])) (tags_of snap))"

definition mapping_row :: "pyval \<Rightarrow> pyval res" where
  "mapping_row m = rbind (py_get m ''DeviceName'') (\<lambda>d. rmap (\<lambda>v. PDict [(''DeviceName'', d), (''VolumeId'', v)])
     (mapping_volume_id m))"

definition instance_to_observation :: "uuid \<Rightarrow> payload \<Rightarrow> instant \<Rightarrow> observation res" where
  "instance_to_observation rid inst observed_at =
    rbind (nested inst ''State'' ''Name'') (\<lambda>state.
    rbind (iso_or_none (pget inst ''LaunchTime'')) (\<lambda>launched.
    rbind (rbind (block_mappings inst) (mapM mapping_row)) (\<lambda>rows.
    rmap (\<lambda>tags. make_observation rid EC2_SOURCE observed_at
      (copy_keys inst [''InstanceId'', ''InstanceType''] @ [(''State'', state)] @ copy_keys inst [''ImageId''] @
       [(''LaunchTime'', launched)] @ copy_keys inst [''PrivateIpAddress'', ''PublicIpAddress''] @
       [(''BlockDeviceMappings'', PList rows), (''Tags'', tags)])) (tags_of inst))))"

definition db_to_observation :: "uuid \<Rightarrow> payload \<Rightarrow> instant \<Rightarrow> observation res" where
  "db_to_observation rid db observed_at =
    rbind (iso_or_none (pget db ''InstanceCreateTime'')) (\<lambda>created.
    rbind (nested db ''DBSubnetGroup'' ''DBSubnetGroupName'') (\<lambda>subnet.
    rmap (\<lambda>endpoint. make_observation rid RDS_SOURCE observed_at
      (copy_keys db [''DBInstanceArn'', ''DBInstanceIdentifier'', ''Engine'', ''EngineVersion'', ''DBInstanceClass'',
         ''DBInstanceStatus'', ''AllocatedStorage''] @
       [(''InstanceCreateTime'', created)] @ copy_keys db [''MultiAZ'', ''StorageEncrypted''] @
       [(''DBSubnetGroup'', subnet), (''Endpoint'', endpoint)])) (nested db ''Endpoint'' ''Address'')))"

section \<open>Correlation within one region\<close>

type_synonym collected = "(uuid \<times> payload) list"

text \<open>Volume ids are the strings AWS assigns; a list or a dictionary there is not hashable.\<close>

fun hashable :: "pyval \<Rightarrow> bool" where
  "hashable (PList vs) = False"
| "hashable (PDict d) = False"
| "hashable v = True"

definition volume_index :: "collected \<Rightarrow> (pyval, payload) dict res" where
  "volume_index volumes =
    rmap dict_of (mapM (\<lambda>raw. let k = pget raw ''VolumeId'' in if hashable k then Inr (k, raw) else Inl TypeError)
      (filter (\<lambda>raw. truthy (pget raw ''VolumeId'')) (map snd volumes)))"

definition index_lookup :: "(pyval, payload) dict \<Rightarrow> pyval \<Rightarrow> payload option res" where
  "index_lookup idx k = (if hashable k then Inr (dict_get idx k) else Inl TypeError)"

definition correlated :: "string \<Rightarrow> string \<Rightarrow> instant \<Rightarrow> uuid \<Rightarrow> string \<Rightarrow> pyval \<Rightarrow> fact" where
  "correlated namespace account_id observed_at rid k v =
    make_fact_builder namespace EC2_SOURCE account_id observed_at rid k v KNOWN"

definition volume_exists_fact ::
    "(pyval, payload) dict \<Rightarrow> string \<Rightarrow> instant \<Rightarrow> uuid \<times> payload \<Rightarrow> fact res" where
  "volume_exists_fact idx account_id observed_at = (\<lambda>(rid, snap).
    let volume_id = pget snap ''VolumeId'' in
    rmap (\<lambda>b. correlated ''aws.ec2.snapshot'' account_id observed_at rid ''volume_exists'' (PBool b))
      (if truthy volume_id then rmap (\<lambda>r. r \<noteq> None) (index_lookup idx volume_id) else Inr False))"

text \<open>One block-device mapping: the volume it names, when the scan saw it.\<close>

definition attached_row :: "(pyval, payload) dict \<Rightarrow> pyval \<Rightarrow> pyval list res" where
  "attached_row idx m =
    rbind (mapping_volume_id m) (\<lambda>volume_id.
    if \<not> truthy volume_id then Inr []
    else rmap (\<lambda>raw. case raw of None \<Rightarrow> [] | Some vol \<Rightarrow>
        [PDict [(''volume_id'', volume_id), (''size_gb'', pget vol ''Size''), (''volume_type'', pget vol ''VolumeType'')]])
      (index_lookup idx volume_id))"

definition attached_volumes_fact ::
    "(pyval, payload) dict \<Rightarrow> string \<Rightarrow> instant \<Rightarrow> uuid \<times> payload \<Rightarrow> fact list res" where
  "attached_volumes_fact idx account_id observed_at = (\<lambda>(rid, inst).
    rbind (nested inst ''State'' ''Name'') (\<lambda>state.
    if state \<noteq> PStr ''stopped'' then Inr []
    else rmap (\<lambda>rows. [correlated ''aws.ec2.instance'' account_id observed_at rid ''attached_volumes''
        (PList (concat rows))]) (rbind (block_mappings inst) (mapM (attached_row idx)))))"

definition correlation_facts ::
    "collected option \<Rightarrow> collected \<Rightarrow> collected \<Rightarrow> string \<Rightarrow> instant \<Rightarrow> fact list res" where
  "correlation_facts volumes snapshots instances account_id observed_at =
    (case volumes of
       None \<Rightarrow> Inr []
     | Some vs \<Rightarrow>
       rbind (volume_index vs) (\<lambda>idx.
       rbind (mapM (volume_exists_fact idx account_id observed_at) snapshots) (\<lambda>snap_facts.
       rmap (\<lambda>inst_facts. snap_facts @ concat inst_facts)
         (mapM (attached_volumes_fact idx account_id observed_at) instances))))"

section \<open>Lemmas\<close>

lemma yield_pages_tagged:
  "yield_pages extract region ps e = (items, e') \<Longrightarrow> it \<in> set items \<Longrightarrow> pget it ''_region'' = PStr region"
  by (induction ps arbitrary: items e')
    (fastforce simp: tag_region_def split: sum.splits prod.splits)+

lemma paginate_regions_tagged:
  "paginate_regions pages extract rs = (items, e) \<Longrightarrow> it \<in> set items \<Longrightarrow>
    \<exists>r \<in> set rs. pget it ''_region'' = PStr r"
  by (induction rs arbitrary: items e)
    (fastforce split: prod.splits option.splits dest: yield_pages_tagged)+

lemma volume_index_dom:
  assumes "volume_index vs = Inr idx"
  shows "dict_get idx k \<noteq> None \<longleftrightarrow> truthy k \<and> (\<exists>(rid, raw) \<in> set vs. pget raw ''VolumeId'' = k)"
proof -
  let ?f = "\<lambda>raw. let k = pget raw ''VolumeId'' in if hashable k then Inr (k, raw) else Inl TypeError :: (pyval \<times> payload) res"
  let ?raws = "filter (\<lambda>raw. truthy (pget raw ''VolumeId'')) (map snd vs)"
  obtain kvs where kvs: "mapM ?f ?raws = Inr kvs" and idx: "idx = dict_of kvs"
    using assms by (auto simp: volume_index_def rmap_Inr_iff)
  have "kvs = map (\<lambda>raw. (pget raw ''VolumeId'', raw)) ?raws"
    using kvs by (rule mapM_Inr_map) (auto simp: Let_def split: if_splits)
  then have "dict_get idx k \<noteq> None \<longleftrightarrow> k \<in> (\<lambda>raw. pget raw ''VolumeId'') ` set ?raws"
    by (simp add: idx dict_get_of map_of_eq_None_iff image_image)
  then show ?thesis by force
qed

section \<open>Properties\<close>

lemma vcpu_table_ok: "vcpu_for_instance_class c = Some n \<Longrightarrow> 0 < n \<and> n \<le> 96 \<and> c \<noteq> []"
proof -
  have "list_all (\<lambda>(c, n). 0 < n \<and> n \<le> 96 \<and> c \<noteq> []) RDS_INSTANCE_VCPU"
    by (simp add: RDS_INSTANCE_VCPU_def)
  then show "vcpu_for_instance_class c = Some n \<Longrightarrow> 0 < n \<and> n \<le> 96 \<and> c \<noteq> []"
    by (auto simp: vcpu_for_instance_class_def list_all_iff dest!: map_of_SomeD)
qed

text \<open>From an API item to the finding. For an RDS PostgreSQL item with a parsable version of a catalogued major, a
  catalogued instance class and its region, the collector's facts never leave the rule inconclusive: it reports from 90 days
  before the end-of-life date on, CRITICAL from that date, at the price of the class's vCPUs in the item's region.\<close>

theorem rds_item_to_finding:
  assumes "db_to_facts rid acct db t = Inr fs" and "pget db ''Engine'' = PStr ''postgres''"
    and "pget db ''EngineVersion'' = PStr v" and "parse_postgres_major v = Some major"
    and "postgres_eol_info major = Some info" and "pget db ''DBInstanceClass'' = PStr c"
    and "vcpu_for_instance_class c = Some n" and "pget db ''_region'' = PStr r" and "r \<noteq> []" and "valid_date d"
  shows "if eol_date info \<le> d \<or> days_between (eol_date info) d \<le> 90
    then \<exists>i. rds_eol_evaluate rid fs (Some d) clock = Inr (found i) \<and> ins_account i = Some acct \<and>
      ins_severity i = (if eol_date info \<le> d then CRITICAL else WARNING) \<and>
      (\<exists>m. extended_support_monthly n (fst (es_price_per_vcpu_hour (extended_support_tier (eol_date info) d) (Some r))) = Inr m \<and>
        pget (ins_payload i) ''extended_support_monthly_usd'' = PFloat m)
    else rds_eol_evaluate rid fs (Some d) clock = Inr no_match"
proof -
  have vne: "v \<noteq> []" using assms(4) by (auto simp: parse_postgres_major_def str_isdigit_def)
  have cne: "c \<noteq> []" and n: "0 \<le> n" "n \<le> 96"
    using vcpu_table_ok [OF assms(7)] by simp_all
  let ?f = "make_fact_builder ''aws.rds'' RDS_SOURCE acct t rid"
  have fs: "fs = [?f ''engine'' (PStr ''postgres'') KNOWN, ?f ''engine_version'' (PStr v) KNOWN,
      ?f ''instance_class'' (PStr c) KNOWN, ?f ''vcpu'' (PInt n) KNOWN, ?f ''region'' (PStr r) KNOWN]"
    using assms vne cne by (auto simp: db_to_facts_def Let_def plain_fact_def py_or_def vcpu_for_instance_class_def)
  have m: "select_matcher RDS_CONFIG ''postgres'' = Some POSTGRES_MATCHER"
    by (simp add: select_matcher_def RDS_CONFIG_def POSTGRES_MATCHER_def)
  have reads: "eol_reads fs RDS_CONFIG (?f ''engine'' (PStr ''postgres'') KNOWN) POSTGRES_MATCHER major n info"
    using assms(4,5) m
    by (simp add: eol_reads_def Let_def eol_gates_Nil fs fact_eval) (simp add: POSTGRES_MATCHER_def)
  have reg: "eol_region fs = Some r" by (simp add: eol_region_def fs fact_eval)
  have w: "alert_window_days RDS_CONFIG = 90" by (simp add: RDS_CONFIG_def)
  have tr: "tier_rate POSTGRES_MATCHER info (Some r) d = fst (es_price_per_vcpu_hour (extended_support_tier (eol_date info) d) (Some r))"
    by (simp add: tier_rate_def POSTGRES_MATCHER_def pg_compute_tier_def)
  obtain m where f: "extended_support_monthly n (fst (es_price_per_vcpu_hour (extended_support_tier (eol_date info) d) (Some r))) = Inr m"
    using float_of_int_small [of n] n by (auto simp: extended_support_monthly_def)
  show ?thesis
    using rds.verdict [OF reads assms(10), of rid clock "Some CATALOG_VERSION"] f
    by (auto simp: rds_eol_evaluate_def eol_verdict_def w tr reg eol_insight_like_def split: sum.splits)
qed

definition pg13_item :: payload where
  "pg13_item = [(''DBInstanceArn'', PStr ''arn:db-1''), (''Engine'', PStr ''postgres''), (''EngineVersion'', PStr ''13.7''),
     (''DBInstanceClass'', PStr ''db.m5.xlarge''), (''_region'', PStr ''eu-west-1'')]"

lemma pg13_item_facts: "\<exists>fs. db_to_facts 7 ''acct'' pg13_item 0 = Inr fs"
  by (simp add: db_to_facts_def Let_def pg13_item_def py_or_def)

theorem rds_item_to_finding_witness:
  "\<exists>fs i. db_to_facts 7 ''acct'' pg13_item 0 = Inr fs \<and>
    rds_eol_evaluate 7 fs (Some (Date 2026 3 1)) (Date 2026 1 1) = Inr (found i) \<and> ins_severity i = CRITICAL"
proof -
  obtain fs where fs: "db_to_facts 7 ''acct'' pg13_item 0 = Inr fs" using pg13_item_facts by blast
  have "parse_postgres_major ''13.7'' = Some 13" by code_simp
  moreover have "postgres_eol_info 13 = Some (pg_info (Date 2026 2 28) (Date 2029 2 28))"
    by (simp add: postgres_eol_info_def POSTGRES_EOL_def)
  moreover have "vcpu_for_instance_class ''db.m5.xlarge'' = Some 4"
    by (simp add: vcpu_for_instance_class_def RDS_INSTANCE_VCPU_def)
  moreover have "Date 2026 2 28 \<le> Date 2026 3 1" "valid_date (Date 2026 3 1)" by (simp_all add: date_eval)
  ultimately show ?thesis
    using rds_item_to_finding [OF fs, of "''13.7''" 13 "pg_info (Date 2026 2 28) (Date 2029 2 28)" "''db.m5.xlarge''" 4
        "''eu-west-1''" "Date 2026 3 1" "Date 2026 1 1"] fs
    by (auto simp: pg13_item_def pg_info_def)
qed

text \<open>Every item the paginator yields carries the region it was read from, so no rule can price it on another grid by
  accident, and regions without an explicit list are the default ones.\<close>

theorem paginate_tags_items:
  assumes "paginate_aws pages regions extract = (items, e)" and "it \<in> set items"
  shows "\<exists>r. pget it ''_region'' = PStr r \<and>
    r \<in> set (case regions of None \<Rightarrow> DEFAULT_REGIONS | Some rs \<Rightarrow> rs)"
  using paginate_regions_tagged assms unfolding paginate_aws_def by blast

theorem paginate_tags_items_witness:
  "\<exists>it r. it \<in> set (fst (paginate_aws (\<lambda>r. ([[(''DBInstances'', PList [PDict pg13_item])]], None)) None db_instances_in_page)) \<and>
    pget it ''_region'' = PStr r \<and> r \<in> set DEFAULT_REGIONS"
proof -
  let ?p = "paginate_aws (\<lambda>r. ([[(''DBInstances'', PList [PDict pg13_item])]], None)) None db_instances_in_page"
  have "fst ?p \<noteq> []"
    by (simp add: paginate_aws_def DEFAULT_REGIONS_def db_instances_in_page_def items_under_def dict_items_def split: prod.splits)
  then obtain it where it: "it \<in> set (fst ?p)" by (rule that [OF list.set_sel(1)])
  have "?p = (fst ?p, snd ?p)" by simp
  from paginate_tags_items [OF this it] it show ?thesis by auto
qed

section \<open>No claim without the region's volume scan\<close>

text \<open>The facts of one resource after a region was collected: its own, then the correlated
  ones stored for it.\<close>

definition facts_after :: "uuid \<Rightarrow> fact list \<Rightarrow> fact list \<Rightarrow> fact list" where
  "facts_after rid own correlated_facts = own @ filter (\<lambda>f. fact_resource f = Some rid) correlated_facts"

lemma snapshot_own_facts:
  "snapshot_to_facts rid acct snap t = Inr own \<Longrightarrow> f \<in> set own \<Longrightarrow> dotted f \<noteq> ''aws.ec2.snapshot.volume_exists''"
  by (auto simp: snapshot_to_facts_def Let_def rmap_Inr_iff plain_fact_def dotted_def)

lemma instance_own_facts:
  "instance_to_facts rid acct inst t = Inr own \<Longrightarrow> f \<in> set own \<Longrightarrow> dotted f \<noteq> ''aws.ec2.instance.attached_volumes''"
  by (auto simp: instance_to_facts_def Let_def rbind_Inr_iff rmap_Inr_iff plain_fact_def dotted_def)

lemma index_facts_None: "(\<And>f. f \<in> set fs \<Longrightarrow> dotted f \<noteq> k) \<Longrightarrow> dict_get (index_facts fs) k = None"
  by (auto simp: index_facts_get find_None_iff)

lemma attached_facts_dotted:
  "attached_volumes_fact idx acct t x = Inr fs \<Longrightarrow> f \<in> set fs \<Longrightarrow>
    dotted f = ''aws.ec2.instance.attached_volumes'' \<and> fact_resource f = Some (fst x)"
  by (cases x) (auto simp: attached_volumes_fact_def rbind_Inr_iff rmap_Inr_iff correlated_def dotted_def split: if_splits)

lemma volume_exists_dotted:
  "volume_exists_fact idx acct t x = Inr f \<Longrightarrow>
    dotted f = ''aws.ec2.snapshot.volume_exists'' \<and> fact_resource f = Some (fst x)"
  by (cases x) (auto simp: volume_exists_fact_def Let_def rmap_Inr_iff correlated_def dotted_def)

lemma mapM_mem: "mapM f xs = Inr ys \<Longrightarrow> y \<in> set ys \<Longrightarrow> \<exists>x \<in> set xs. f x = Inr y"
  by (induction xs arbitrary: ys) (auto simp: rbind_Inr_iff rmap_Inr_iff)

lemma volume_exists_value:
  assumes "volume_exists_fact idx acct t (rid, snap) = Inr f" and "volume_index vs = Inr idx"
    and "fact_value f = PBool False"
  shows "\<not> (\<exists>(r, raw) \<in> set vs. truthy (pget snap ''VolumeId'') \<and> pget raw ''VolumeId'' = pget snap ''VolumeId'')"
  using assms volume_index_dom [OF assms(2), of "pget snap ''VolumeId''"]
  by (auto simp: volume_exists_fact_def Let_def correlated_def index_lookup_def rmap_Inr_iff split: if_splits)

text \<open>C25: An orphan claim needs the region's volume scan, and the scan must not have seen the volume. With the facts
  a region's collection stores for a snapshot: when the volume job did not run or failed, \<open>snapshot_orphan\<close> emits no
  finding; when it ran, a finding means that none of the scanned volumes has the snapshot's volume id.\<close>

theorem orphan_claim_needs_scan:
  assumes "snapshot_to_facts rid acct snap t = Inr own"
    and "correlation_facts volumes snapshots instances acct t' = Inr corr"
    and "(rid, snap) \<in> set snapshots" and "distinct (map fst snapshots)"
    and "snapshot_orphan_evaluate rid (facts_after rid own corr) today clock = Inr (found i)"
  shows "\<exists>vs. volumes = Some vs \<and>
    \<not> (\<exists>(r, raw) \<in> set vs. truthy (pget snap ''VolumeId'') \<and> pget raw ''VolumeId'' = pget snap ''VolumeId'')"
proof -
  let ?fs = "facts_after rid own corr" and ?k = "''aws.ec2.snapshot.volume_exists''"
  have ne: "insights (found i) \<noteq> []" by simp
  have k: "list_all (known (index_facts ?fs)) (required_facts SNAPSHOT_CONFIG)" and em: "should_emit SNAPSHOT_CONFIG (index_facts ?fs) = Inr True"
    using evaluate_storage_found [OF assms(5) [unfolded snapshot_orphan_evaluate_def] ne] by metis+
  have ve: "known (index_facts ?fs) ?k" "fact_val (index_facts ?fs) ?k = PBool False"
    using k em by (auto simp: SNAPSHOT_CONFIG_def snapshot_should_emit_def idx_value_known split: if_splits pyval.splits)
  then obtain f where f: "dict_get (index_facts ?fs) ?k = Some f" "fact_value f = PBool False"
    by (auto simp: known_iff fact_val_def)
  have fin: "f \<in> set ?fs" "dotted f = ?k"
    using find_Some_iff' [of "\<lambda>f. dotted f = ?k" "rev ?fs" f] f(1) by (auto simp: index_facts_get)
  then have fc: "f \<in> set corr" "fact_resource f = Some rid"
    using snapshot_own_facts [OF assms(1)] by (auto simp: facts_after_def)
  obtain vs where vs: "volumes = Some vs" using fc assms(2) by (cases volumes) (auto simp: correlation_facts_def)
  obtain idx sf jf where idx: "volume_index vs = Inr idx" and sf: "mapM (volume_exists_fact idx acct t') snapshots = Inr sf"
    and jf: "mapM (attached_volumes_fact idx acct t') instances = Inr jf" and corr: "corr = sf @ concat jf"
    using assms(2) by (auto simp: vs correlation_facts_def rbind_Inr_iff rmap_Inr_iff)
  have "f \<notin> set (concat jf)"
    using fin(2) attached_facts_dotted mapM_mem [OF jf] by fastforce
  then have "f \<in> set sf" using fc corr by simp
  then obtain x where x: "x \<in> set snapshots" "volume_exists_fact idx acct t' x = Inr f" using mapM_mem [OF sf] by blast
  then have "fst x = rid" using volume_exists_dotted [OF x(2)] fc(2) by simp
  then have "x = (rid, snap)" using x(1) assms(3,4) by (metis eq_key_imp_eq_value prod.collapse)
  then show ?thesis using volume_exists_value [OF _ idx f(2)] x(2) vs by blast
qed

definition snap_item :: payload where
  "snap_item = [(''SnapshotId'', PStr ''snap-1''), (''State'', PStr ''completed''), (''VolumeSize'', PInt 1000),
     (''VolumeId'', PStr ''vol-gone''), (''Description'', PStr ''nightly''), (''_region'', PStr ''us-east-1'')]"

theorem orphan_claim_needs_scan_witness:
  "\<exists>own corr i. snapshot_to_facts 9 ''acct'' snap_item 0 = Inr own \<and>
    correlation_facts (Some [(1, [(''VolumeId'', PStr ''vol-1'')])]) [(9, snap_item)] [] ''acct'' 0 = Inr corr \<and>
    snapshot_orphan_evaluate 9 (facts_after 9 own corr) None (Date 2026 7 1) = Inr (found i) \<and>
    \<not> (\<exists>(r, raw) \<in> set [(1 :: uuid, [(''VolumeId'', PStr ''vol-1'')])]. pget raw ''VolumeId'' = pget snap_item ''VolumeId'')"
proof -
  obtain own where own: "snapshot_to_facts 9 ''acct'' snap_item 0 = Inr own"
    by (simp add: snapshot_to_facts_def Let_def iso_or_none_def snap_item_def)
  obtain corr where corr: "correlation_facts (Some [(1, [(''VolumeId'', PStr ''vol-1'')])]) [(9, snap_item)] [] ''acct'' 0 = Inr corr"
    by (simp add: correlation_facts_def volume_index_def Let_def volume_exists_fact_def index_lookup_def snap_item_def)
  obtain i where i: "snapshot_orphan_evaluate 9 (facts_after 9 own corr) None (Date 2026 7 1) = Inr (found i)"
  proof -
    have own': "own = [snap_fact ''state'' (PStr ''completed''), snap_fact ''size_gb'' (PInt 1000), snap_fact ''storage_tier'' PNone,
        snap_fact ''volume_id'' (PStr ''vol-gone''), snap_fact ''start_time'' PNone, snap_fact ''description'' (PStr ''nightly''),
        snap_fact ''region'' (PStr ''us-east-1'')]"
      using own by (simp add: snapshot_to_facts_def Let_def iso_or_none_def snap_item_def plain_fact_def snap_fact_def EC2_SOURCE_def)
    have corr': "corr = [snap_fact ''volume_exists'' (PBool False)]"
      using corr by (simp add: correlation_facts_def volume_index_def Let_def volume_exists_fact_def index_lookup_def snap_item_def
          dict_of_def correlated_def snap_fact_def EC2_SOURCE_def)
    have "\<exists>i. snapshot_orphan_evaluate 9 (facts_after 9 own corr) None (Date 2026 7 1) = Inr (found i)"
      by (rule orphan_found_if) (simp_all add: own' corr' facts_after_def fact_eval snap_fact_def snapshot_tier_def)
    then show ?thesis using that by blast
  qed
  show ?thesis using orphan_claim_needs_scan [OF own corr _ _ i] own corr i by (force simp: snap_item_def)
qed

text \<open>Without a volume scan no stopped instance is charged either: when the region's volume job did not run, the facts stored for
  an instance never make \<open>ec2_stopped_with_storage\<close> emit a finding.\<close>

theorem stopped_claim_needs_scan:
  assumes "instance_to_facts rid acct inst t = Inr own"
    and "correlation_facts None snapshots instances acct t' = Inr corr"
    and "ec2_stopped_evaluate rid (facts_after rid own corr) today clock = Inr r"
  shows "insights r = []"
proof -
  have "corr = []" using assms(2) by (simp add: correlation_facts_def)
  then have "dict_get (index_facts (facts_after rid own corr)) ''aws.ec2.instance.attached_volumes'' = None"
    using instance_own_facts [OF assms(1)] by (intro index_facts_None) (auto simp: facts_after_def)
  then show ?thesis using assms(3)
    by (auto simp: ec2_stopped_evaluate_def Let_def split: option.splits if_splits)
qed

definition stopped_item :: payload where
  "stopped_item = [(''InstanceId'', PStr ''i-1''), (''State'', PDict [(''Name'', PStr ''stopped'')]), (''_region'', PStr ''eu-west-1'')]"

theorem stopped_claim_needs_scan_witness:
  "\<exists>own r. instance_to_facts 5 ''acct'' stopped_item 0 = Inr own \<and>
    ec2_stopped_evaluate 5 (facts_after 5 own []) None (Date 2026 7 1) = Inr r \<and>
    insights r = [] \<and> inconclusive_reasons r = [''aws.ec2.instance.attached_volumes'']"
proof -
  obtain own where own: "instance_to_facts 5 ''acct'' stopped_item 0 = Inr own"
    and own': "own = [make_fact_builder ''aws.ec2.instance'' EC2_SOURCE ''acct'' 0 5 ''state'' (PStr ''stopped'') KNOWN,
      make_fact_builder ''aws.ec2.instance'' EC2_SOURCE ''acct'' 0 5 ''instance_type'' PNone UNKNOWN,
      make_fact_builder ''aws.ec2.instance'' EC2_SOURCE ''acct'' 0 5 ''launch_time'' PNone UNKNOWN,
      make_fact_builder ''aws.ec2.instance'' EC2_SOURCE ''acct'' 0 5 ''block_device_volume_ids'' (PList []) KNOWN,
      make_fact_builder ''aws.ec2.instance'' EC2_SOURCE ''acct'' 0 5 ''region'' (PStr ''eu-west-1'') KNOWN]"
    by (simp add: instance_to_facts_def Let_def nested_def py_or_def block_mappings_def iso_or_none_def stopped_item_def plain_fact_def)
  have r: "ec2_stopped_evaluate 5 (facts_after 5 own []) None (Date 2026 7 1) = Inr (unsure [''aws.ec2.instance.attached_volumes''])"
    by (simp add: ec2_stopped_evaluate_def Let_def own' facts_after_def fact_eval STOPPED_STATE_def)
  have c: "correlation_facts None [] [] ''acct'' 0 = Inr []" by (simp add: correlation_facts_def)
  show ?thesis using stopped_claim_needs_scan [OF own c r] own r by auto
qed

end
