(* ===== verification/PyDecimal.thy ===== *)
theory PyDecimal
  imports PyVal
begin

text \<open>
  Python's \<open>decimal.Decimal\<close> under the default context: 28 significant digits, ties to
  even, exponents up to 999999, with the \<open>InvalidOperation\<close> and \<open>Overflow\<close> traps enabled.

  A decimal is the number it denotes: the program never looks at trailing zeros or at
  the sign of zero. The infinities and the two kinds of NaN are values of their own,
  because \<open>Decimal(s)\<close> reads them from text. An exact result is rounded to 28 digits by
  \<open>dround\<close>; the lemmas at the end say when no digit is lost: numbers on a common grid of
  \<open>10 ^ -k\<close> whose absolute values add up to less than \<open>10 ^ (28 - k)\<close>.
\<close>

named_theorems dec_simps \<open>evaluation of decimal operations\<close>

datatype decimal = Dec rat | DInf bool | DNaN | DSNaN

abbreviation dzero :: decimal where
  "dzero \<equiv> Dec 0"

text \<open>The exponent of the last digit that a 28-digit result keeps.\<close>

definition dquantum :: "rat \<Rightarrow> int" where
  "dquantum r = max (dec_exp \<bar>r\<bar> - 27) (- 1000026)"

definition dround :: "rat \<Rightarrow> decimal res" where
  "dround r = (if r = 0 then Inr dzero else
     let p = pow10 (dquantum r); v = of_int (round_half_even (r / p)) * p in
     if v \<noteq> 0 \<and> 999999 < dec_exp \<bar>v\<bar> then Inl DecimalOverflow else Inr (Dec v))"

definition is_nan :: "decimal \<Rightarrow> bool" where
  "is_nan d = (d = DNaN \<or> d = DSNaN)"

text \<open>A signalling NaN raises in every operation, a quiet one is passed on.\<close>

definition with_nans :: "decimal \<Rightarrow> decimal \<Rightarrow> decimal res \<Rightarrow> decimal res" where
  "with_nans x y r = (if x = DSNaN \<or> y = DSNaN then Inl InvalidOperation
     else if x = DNaN \<or> y = DNaN then Inr DNaN else r)"

fun dneg :: "decimal \<Rightarrow> decimal" where
  "dneg (Dec a) = Dec (- a)"
| "dneg (DInf s) = DInf (\<not> s)"
| "dneg d = d"

text \<open>\<open>DInf True\<close> is the negative infinity.\<close>

definition dadd :: "decimal \<Rightarrow> decimal \<Rightarrow> decimal res" where
  "dadd x y = with_nans x y (case (x, y) of
      (Dec a, Dec b) \<Rightarrow> dround (a + b)
    | (DInf s, DInf t) \<Rightarrow> if s = t then Inr (DInf s) else Inl InvalidOperation
    | (DInf s, _) \<Rightarrow> Inr (DInf s)
    | (_, d) \<Rightarrow> Inr d)"

definition dsub :: "decimal \<Rightarrow> decimal \<Rightarrow> decimal res" where
  "dsub x y = dadd x (dneg y)"

definition dsign :: "decimal \<Rightarrow> bool" where
  "dsign d = (case d of Dec a \<Rightarrow> a < 0 | DInf s \<Rightarrow> s | _ \<Rightarrow> False)"

definition dmul :: "decimal \<Rightarrow> decimal \<Rightarrow> decimal res" where
  "dmul x y = with_nans x y (case (x, y) of
      (Dec a, Dec b) \<Rightarrow> dround (a * b)
    | _ \<Rightarrow> if x = dzero \<or> y = dzero then Inl InvalidOperation else Inr (DInf (dsign x \<noteq> dsign y)))"

text \<open>\<open>Decimal(m) / Decimal(n)\<close> for a positive \<open>n\<close>, the only division of the program
  besides the one by a rate.\<close>

definition ddiv :: "rat \<Rightarrow> rat \<Rightarrow> decimal res" where
  "ddiv a b = dround (a / b)"

text \<open>\<open>x > 0\<close>: an ordering comparison with a NaN raises.\<close>

definition dpos :: "decimal \<Rightarrow> bool res" where
  "dpos d = (case d of Dec a \<Rightarrow> Inr (0 < a) | DInf s \<Rightarrow> Inr (\<not> s) | _ \<Rightarrow> Inl InvalidOperation)"

definition dminus :: "decimal \<Rightarrow> bool res" where
  "dminus d = (case d of Dec a \<Rightarrow> Inr (a < 0) | DInf s \<Rightarrow> Inr s | _ \<Rightarrow> Inl InvalidOperation)"

text \<open>\<open>f"{abs(x):.2f}"\<close>.\<close>

definition dabs_fmt2 :: "decimal \<Rightarrow> string" where
  "dabs_fmt2 d = (case d of Dec a \<Rightarrow> fmt2 \<bar>a\<bar> | DInf s \<Rightarrow> ''Infinity'' | _ \<Rightarrow> ''NaN'')"

text \<open>\<open>float(x)\<close>, correctly rounded. Beyond the largest float Python answers an
  infinity, which no JSON column can hold and which has no value here: the model stops
  there with \<open>OverflowError\<close>. A signalling NaN raises \<open>ValueError\<close>.\<close>

definition dec_float :: "decimal \<Rightarrow> pyfloat res" where
  "dec_float d = (case d of
      Dec a \<Rightarrow> if \<bar>fl a\<bar> < pow2 1024 then Inr (fl a) else Inl OverflowError
    | DSNaN \<Rightarrow> Inl ValueError
    | _ \<Rightarrow> Inl OverflowError)"

text \<open>\<open>sum(ds, Decimal("0"))\<close>.\<close>

definition dsum :: "decimal list \<Rightarrow> decimal res" where
  "dsum ds = foldM (\<lambda>d acc. dadd acc d) ds dzero"

section \<open>\<open>Decimal(s)\<close>\<close>

text \<open>The text is stripped and underscores are removed; then comes an optional sign and
  either digits with an optional point and an optional exponent, or \<open>Infinity\<close>, \<open>Inf\<close>,
  \<open>NaN\<close> or \<open>sNaN\<close> (the NaNs with optional diagnostic digits), in any case of letters.
  The constructor does not round. An exponent of more than 18 digits is refused.\<close>

definition lower_char :: "char \<Rightarrow> char" where
  "lower_char c = (let n = (of_char c :: nat) in if 65 \<le> n \<and> n \<le> 90 then char_of (n + 32) else c)"

definition str_lower :: "string \<Rightarrow> string" where
  "str_lower s = map lower_char s"

definition parse_exponent :: "string \<Rightarrow> int option" where
  "parse_exponent s = (let (neg, ds) = (case s of [] \<Rightarrow> (False, [])
       | c # cs \<Rightarrow> if c = CHR ''-'' then (True, cs) else if c = CHR ''+'' then (False, cs) else (False, s))
     in if str_isdigit ds \<and> length ds \<le> 18
        then Some ((if neg then - 1 else 1) * int (nat_of_digits ds)) else None)"

definition parse_finite :: "string \<Rightarrow> rat option" where
  "parse_finite s =
    (let ip = takeWhile is_digit s; r1 = dropWhile is_digit s;
         (fp, r2) = (case r1 of [] \<Rightarrow> ([], [])
            | c # cs \<Rightarrow> if c = CHR ''.'' then (takeWhile is_digit cs, dropWhile is_digit cs) else ([], r1));
         ex = (case r2 of [] \<Rightarrow> Some 0 | c # cs \<Rightarrow> if c = CHR ''e'' then parse_exponent cs else None)
     in if ip @ fp = [] then None
        else map_option (\<lambda>e. of_nat (nat_of_digits (ip @ fp)) * pow10 (e - int (length fp))) ex)"

definition nan_digits :: "string \<Rightarrow> string \<Rightarrow> bool" where
  "nan_digits pre s = (is_prefix_of pre s \<and> list_all is_digit (drop (length pre) s))"

definition decimal_of_string :: "string \<Rightarrow> decimal res" where
  "decimal_of_string raw =
    (let s = str_lower (filter (\<lambda>c. c \<noteq> CHR ''_'') (str_strip raw));
         (neg, t) = (case s of [] \<Rightarrow> (False, [])
           | c # cs \<Rightarrow> if c = CHR ''-'' then (True, cs) else if c = CHR ''+'' then (False, cs) else (False, s))
     in case parse_finite t of
          Some r \<Rightarrow> Inr (Dec (if neg then - r else r))
        | None \<Rightarrow>
            if t = ''inf'' \<or> t = ''infinity'' then Inr (DInf neg)
            else if nan_digits ''nan'' t then Inr DNaN
            else if nan_digits ''snan'' t then Inr DSNaN
            else Inl InvalidOperation)"

lemma decimal_of_string_error: "decimal_of_string s = Inl e \<Longrightarrow> e = InvalidOperation"
  by (auto simp: decimal_of_string_def Let_def split: option.splits if_splits prod.splits)

section \<open>Exactness\<close>

lemma pow10_powi: "pow10 e = 10 powi e"
  by (cases "0 \<le> e") (simp_all add: pow10_def power_int_def power_one_over inverse_eq_divide)

lemma pow10_pos [simp]: "0 < pow10 e"
  by (simp add: pow10_def)

lemma pow10_neq0 [simp]: "pow10 e \<noteq> 0"
  using pow10_pos [of e] by linarith

lemma pow10_add: "pow10 (a + b) = pow10 a * pow10 b"
  by (simp add: pow10_powi power_int_add)

lemma pow10_mono: "a \<le> b \<Longrightarrow> pow10 a \<le> pow10 b"
  by (simp add: pow10_powi power_int_increasing)

lemma pow10_nat: "pow10 (int k) = 10 ^ k"
  by (simp add: pow10_def)

lemma pow10_less_cancel: "pow10 a < pow10 b \<Longrightarrow> a < b"
  by (metis leD leI pow10_mono)

lemma str_of_nat_bounds: "n < 10 ^ length (str_of_nat n)" "0 < n \<Longrightarrow> 10 ^ (length (str_of_nat n) - 1) \<le> n"
proof (induction n rule: str_of_nat.induct)
  case (1 n)
  have d: "str_of_nat n = (if n < 10 then [digit_char n] else str_of_nat (n div 10) @ [digit_char (n mod 10)])"
    by (rule str_of_nat.simps)
  show "n < 10 ^ length (str_of_nat n)"
  proof (cases "n < 10")
    case False
    then have "n div 10 < 10 ^ length (str_of_nat (n div 10))" using 1(1) by simp
    then have "n < 10 * 10 ^ length (str_of_nat (n div 10))" by auto
    then show ?thesis using False d by simp
  qed (simp add: d)
  show "10 ^ (length (str_of_nat n) - 1) \<le> n" if "0 < n"
  proof (cases "n < 10")
    case False
    let ?k = "length (str_of_nat (n div 10))"
    have "10 ^ (?k - 1) \<le> n div 10" using False 1(2) by simp
    moreover have "0 < ?k" by simp
    then have "(10 :: nat) ^ ?k = 10 * 10 ^ (?k - 1)" by (simp flip: power_Suc)
    ultimately have "10 ^ ?k \<le> n" by (simp add: less_eq_div_iff_mult_less_eq)
    then show ?thesis using False d by simp
  qed (use that in \<open>simp add: d\<close>)
qed

lemma dec_exp_bounds:
  assumes "0 < x"
  shows "pow10 (dec_exp x) \<le> x" and "x < pow10 (dec_exp x + 1)"
proof -
  have len: "0 < length (str_of_nat n)" for n by simp
  have p: "pow10 (int (length (str_of_nat n)) - 1) = of_nat (10 ^ (length (str_of_nat n) - 1))" for n
    using len [of n] by (simp add: pow10_def nat_diff_distrib)
  have "pow10 (dec_exp x) \<le> x \<and> x < pow10 (dec_exp x + 1)"
  proof (cases "1 \<le> x")
    case True
    let ?n = "nat \<lfloor>x\<rfloor>"
    have n: "of_nat ?n \<le> x" "x < of_nat ?n + 1" "0 < ?n"
      using True floor_correct [of x] by (simp_all add: le_floor_iff)
    have e: "dec_exp x = int (length (str_of_nat ?n)) - 1" using True by (simp add: dec_exp_def)
    have "of_nat (10 ^ (length (str_of_nat ?n) - 1)) \<le> (of_nat ?n :: rat)"
      using str_of_nat_bounds(2) n(3) by (simp only: of_nat_le_iff)
    then have "pow10 (dec_exp x) \<le> x" unfolding e p using n(1) by linarith
    moreover have "(of_nat ?n :: rat) + 1 \<le> of_nat (10 ^ length (str_of_nat ?n))"
      using str_of_nat_bounds(1) [of ?n] by (metis Suc_eq_plus1 Suc_leI of_nat_1 of_nat_add of_nat_le_iff)
    then have "x < pow10 (dec_exp x + 1)" using n(2) e by (simp add: pow10_nat)
    ultimately show ?thesis ..
  next
    case False
    let ?c = "\<lceil>1 / x\<rceil>" and ?n = "nat (\<lceil>1 / x\<rceil> - 1)"
    have y: "1 < 1 / x" using False assms by simp
    then have c: "of_int ?c - 1 < 1 / x" "1 / x \<le> of_int ?c" "2 \<le> ?c"
      using ceiling_correct [of "1 / x"] by (auto simp: less_ceiling_iff)
    have "(of_nat ?n :: rat) = of_int ?c - 1" 
      by (subst of_nat_nat) (use c(3) in linarith, simp)
    then have n: "of_nat ?n < 1 / x" "1 / x \<le> of_nat ?n + 1" "0 < ?n" using c by linarith+
    let ?k = "length (str_of_nat ?n)"
    have e: "dec_exp x = - int ?k" using False by (simp add: dec_exp_def)
    have "(of_nat ?n :: rat) + 1 \<le> of_nat (10 ^ ?k)"
      using str_of_nat_bounds(1) [of ?n] by (metis Suc_eq_plus1 Suc_leI of_nat_1 of_nat_add of_nat_le_iff)
    then have "1 / x \<le> 10 ^ ?k" using n(2) by simp
    then have "1 / 10 ^ ?k \<le> x" using assms by (simp add: field_simps)
    then have a: "pow10 (dec_exp x) \<le> x" using e by (simp add: pow10_def)
    have "of_nat (10 ^ (?k - 1)) \<le> (of_nat ?n :: rat)"
      using str_of_nat_bounds(2) n(3) by (simp only: of_nat_le_iff)
    then have "of_nat (10 ^ (?k - 1)) < 1 / x" using n(1) by (rule le_less_trans)
    then have "10 ^ (?k - 1) < 1 / x" by simp
    then have "x < 1 / 10 ^ (?k - 1)" using assms by (simp add: field_simps)
    moreover have "pow10 (dec_exp x + 1) = 1 / 10 ^ (?k - 1)"
      using len [of ?n] e by (auto simp: pow10_def nat_diff_distrib) (simp add: le_eq_less_or_eq)?
    ultimately show ?thesis using a by simp
  qed
  then show "pow10 (dec_exp x) \<le> x" and "x < pow10 (dec_exp x + 1)" by simp_all
qed

lemma dec_exp_eqI:
  assumes "pow10 e \<le> x" and "x < pow10 (e + 1)"
  shows "dec_exp x = e"
proof -
  have x: "0 < x" using assms(1) pow10_pos [of e] by linarith
  have "pow10 (dec_exp x) < pow10 (e + 1)" "pow10 e < pow10 (dec_exp x + 1)"
    using dec_exp_bounds [OF x] assms by linarith+
  then have "dec_exp x < e + 1" "e < dec_exp x + 1" by (auto dest: pow10_less_cancel)
  then show ?thesis by simp
qed

text \<open>The values on the grid of \<open>10 ^ -k\<close>.\<close>

definition on_grid :: "nat \<Rightarrow> decimal \<Rightarrow> bool" where
  "on_grid k d = (case d of Dec r \<Rightarrow> r * 10 ^ k = of_int \<lfloor>r * 10 ^ k\<rfloor> | _ \<Rightarrow> False)"

definition dec_val :: "decimal \<Rightarrow> rat" where
  "dec_val d = (case d of Dec r \<Rightarrow> r | _ \<Rightarrow> 0)"

lemma dec_val_Dec [simp, dec_simps]: "dec_val (Dec r) = r"
  by (simp add: dec_val_def)

lemma on_grid_Dec [dec_simps]: "on_grid k (Dec r) \<longleftrightarrow> r * 10 ^ k \<in> \<int>"
proof -
  have "r * 10 ^ k = of_int \<lfloor>r * 10 ^ k\<rfloor>" if "r * 10 ^ k \<in> \<int>"
    using that by (metis Ints_cases floor_of_int)
  then show ?thesis by (auto simp: on_grid_def) (metis Ints_of_int)
qed

lemma on_gridD: "on_grid k d \<Longrightarrow> d = Dec (dec_val d)"
  by (auto simp: on_grid_def split: decimal.splits)

lemma on_grid_add: "on_grid k (Dec a) \<Longrightarrow> on_grid k (Dec b) \<Longrightarrow> on_grid k (Dec (a + b))"
  by (simp add: on_grid_Dec ring_distribs)

lemma on_grid_0 [simp]: "on_grid k (Dec 0)"
  by (simp add: on_grid_Dec)

lemma dround_exact:
  assumes "on_grid k (Dec r)" and "\<bar>r\<bar> * 10 ^ k < 10 ^ 28" and "k \<le> 1000000"
  shows "dround r = Inr (Dec r)"
proof (cases "r = 0")
  case True
  then show ?thesis by (simp add: dround_def)
next
  case False
  let ?q = "dquantum r"
  have "pow10 (dec_exp \<bar>r\<bar>) \<le> \<bar>r\<bar>" using False dec_exp_bounds(1) [of "\<bar>r\<bar>"] by simp
  also have "\<bar>r\<bar> < pow10 (28 - int k)"
  proof -
    have "pow10 (28 - int k) * 10 ^ k = 10 ^ 28"
      using pow10_add [of "28 - int k" "int k"] by (simp add: pow10_nat) (simp add: pow10_def)
    then have "\<bar>r\<bar> * 10 ^ k < pow10 (28 - int k) * 10 ^ k" using assms(2) by simp
    then show ?thesis by (simp only: mult_less_cancel_right) simp
  qed
  finally have e: "dec_exp \<bar>r\<bar> < 28 - int k" by (rule pow10_less_cancel)
  then have q: "?q \<le> - int k" using assms(3) by (simp add: dquantum_def)
  obtain n where n: "r * 10 ^ k = of_int n"
    using assms(1) by (auto simp: on_grid_Dec elim: Ints_cases)
  have "r / pow10 ?q = (r * 10 ^ k) * 10 ^ nat (- ?q - int k)"
  proof -
    have "pow10 ?q * (10 ^ k * 10 ^ nat (- ?q - int k)) = 1"
    proof -
      have "10 ^ k * 10 ^ nat (- ?q - int k) = pow10 (int k + (- ?q - int k))"
        using q by (simp only: pow10_add) (simp add: pow10_def)
      then show ?thesis by (simp add: pow10_def)
    qed
    then show ?thesis by (simp add: field_simps)
  qed
  then have "r / pow10 ?q = of_int (n * 10 ^ nat (- ?q - int k))" using n by simp
  then have "of_int (round_half_even (r / pow10 ?q)) = r / pow10 ?q" by (simp only: round_half_even_of_int)
  then have "of_int (round_half_even (r / pow10 ?q)) * pow10 ?q = r" by simp
  then show ?thesis using False e assms(3) by (simp add: dround_def Let_def)
qed

lemma dadd_exact:
  assumes "on_grid k x" and "on_grid k y" and "(\<bar>dec_val x\<bar> + \<bar>dec_val y\<bar>) * 10 ^ k < 10 ^ 28" and "k \<le> 1000000"
  shows "dadd x y = Inr (Dec (dec_val x + dec_val y))"
proof -
  obtain a b where ab: "x = Dec a" "y = Dec b" using assms(1,2) by (metis on_gridD)
  have "\<bar>a + b\<bar> * 10 ^ k \<le> (\<bar>a\<bar> + \<bar>b\<bar>) * 10 ^ k" by (intro mult_right_mono) (auto simp: abs_triangle_ineq)
  then have "\<bar>a + b\<bar> * 10 ^ k < 10 ^ 28" by (rule le_less_trans) (use assms(3) ab in simp)
  moreover have "on_grid k (Dec (a + b))" using assms(1,2) ab by (simp add: on_grid_add)
  ultimately have "dround (a + b) = Inr (Dec (a + b))" using assms(4) by (intro dround_exact)
  then show ?thesis by (simp add: dadd_def with_nans_def ab)
qed

text \<open>\<open>fits k ds\<close>: the decimals lie on the grid and their absolute values add up to less
  than 28 digits.\<close>

definition fits :: "nat \<Rightarrow> decimal list \<Rightarrow> bool" where
  "fits k ds = (list_all (on_grid k) ds \<and> sum_list (map (\<lambda>d. \<bar>dec_val d\<bar>) ds) * 10 ^ k < 10 ^ 28 \<and> k \<le> 1000000)"

lemma abs_vals_nonneg: "0 \<le> sum_list (map (\<lambda>d. \<bar>dec_val d\<bar>) ds)"
  by (induction ds) auto

lemma abs_sum_vals: "\<bar>sum_list (map dec_val ds)\<bar> \<le> sum_list (map (\<lambda>d. \<bar>dec_val d\<bar>) ds)"
  by (induction ds) auto

lemma on_grid_sum: "list_all (on_grid k) ds \<Longrightarrow> on_grid k (Dec (sum_list (map dec_val ds)))"
proof (induction ds)
  case (Cons d ds)
  then have "on_grid k (Dec (dec_val d))" by (metis list.pred_inject(2) on_gridD)
  then show ?case using Cons by (simp add: on_grid_add)
qed simp

lemma foldM_dadd_exact:
  "fits k (d # ds) \<Longrightarrow> foldM (\<lambda>d acc. dadd acc d) ds d = Inr (Dec (dec_val d + sum_list (map dec_val ds)))"
proof (induction ds arbitrary: d)
  case Nil
  then show ?case using on_gridD by (auto simp: fits_def)
next
  case (Cons e ds)
  have g: "on_grid k d" "on_grid k e" and k: "k \<le> 1000000" using Cons.prems by (auto simp: fits_def)
  let ?s = "sum_list (map (\<lambda>d. \<bar>dec_val d\<bar>) ds)"
  have b: "(\<bar>dec_val d\<bar> + \<bar>dec_val e\<bar> + ?s) * 10 ^ k < 10 ^ 28" using Cons.prems by (simp add: fits_def ac_simps)
  have "(\<bar>dec_val d\<bar> + \<bar>dec_val e\<bar>) * 10 ^ k \<le> (\<bar>dec_val d\<bar> + \<bar>dec_val e\<bar> + ?s) * 10 ^ k"
    using abs_vals_nonneg [of ds] by (intro mult_right_mono) auto
  then have "(\<bar>dec_val d\<bar> + \<bar>dec_val e\<bar>) * 10 ^ k < 10 ^ 28" using b by (rule le_less_trans)
  then have "dadd d e = Inr (Dec (dec_val d + dec_val e))" using g k by (intro dadd_exact)
  moreover have "fits k (Dec (dec_val d + dec_val e) # ds)"
  proof -
    have "on_grid k (Dec (dec_val d + dec_val e))" using g by (metis on_gridD on_grid_add)
    moreover have "(\<bar>dec_val d + dec_val e\<bar> + ?s) * 10 ^ k \<le> (\<bar>dec_val d\<bar> + \<bar>dec_val e\<bar> + ?s) * 10 ^ k"
      by (intro mult_right_mono) (auto simp: abs_triangle_ineq)
    moreover note le_less_trans [OF this b]
    ultimately show ?thesis using Cons.prems by (simp add: fits_def)
  qed
  ultimately show ?case using Cons.IH by (simp add: add.assoc)
qed

lemma dsum_exact: "fits k ds \<Longrightarrow> dsum ds = Inr (Dec (sum_list (map dec_val ds)))"
  using foldM_dadd_exact [of k "Dec 0" ds] by (simp add: dsum_def fits_def)

text \<open>A NaN among the terms is the sum.\<close>

lemma dsum_nan:
  assumes "DNaN \<in> set ds" and "\<forall>d\<in>set ds. d = DNaN \<or> (\<exists>r. d = Dec r)" and "dsum ds = Inr s"
  shows "s = DNaN"
proof -
  have keep: "s = DNaN" if "foldM (\<lambda>d acc. dadd acc d) ds DNaN = Inr s" for ds s
    using that
  proof (induction ds)
    case (Cons d ds)
    then show ?case by (auto simp: dadd_def with_nans_def rbind_Inr_iff split: if_splits)
  qed simp
  have "s = DNaN" if "DNaN \<in> set ds" "foldM (\<lambda>d acc. dadd acc d) ds a = Inr s" for a
    using that
  proof (induction ds arbitrary: a)
    case (Cons d ds)
    from Cons.prems(2) obtain b where b: "dadd a d = Inr b" "foldM (\<lambda>d acc. dadd acc d) ds b = Inr s"
      by (auto simp: rbind_Inr_iff)
    show ?case
    proof (cases "d = DNaN")
      case True
      then have "b = DNaN" using b(1) by (auto simp: dadd_def with_nans_def split: if_splits)
      then show ?thesis using b(2) keep by simp
    next
      case False
      then show ?thesis using Cons b by auto
    qed
  qed simp
  then show ?thesis using assms(1,3) by (simp add: dsum_def)
qed

end
