(* ===== verification/Store.thy ===== *)
theory Store
  imports Collectors PyDecimal "HOL-Library.List_Lexorder" "HOL-Library.Product_Lexorder"
begin

text \<open>
  The store of the collected inventory: the tables of \<open>orm.py\<close> that the collector and the
  rule runner use, and the repositories over them (\<open>repositories/source_runs.py\<close>,
  \<open>resources.py\<close>, \<open>facts.py\<close>, \<open>observations.py\<close>, \<open>accounts.py\<close>).

  A table is the list of its rows in insertion order. A \<open>world\<close> is one database session
  with its surroundings: \<open>w_db\<close> is what the session sees, \<open>w_saved\<close> what is committed, the
  clock and the generator of identifiers are sequences of which every reading takes
  the next element, and \<open>w_begin\<close> is the start of the transaction, which is what
  \<open>now()\<close> of the database returns. The rows are those visible to the tenant of the session, so the
  tenant columns are left out. Row order stands for the order the database returns
  rows in where a query leaves it open.
\<close>

section \<open>Tables\<close>

record account_row =
  ac_id :: uuid
  ac_external :: string
  ac_name :: string

record resource_row =
  rr_id :: uuid
  rr_account :: uuid
  rr_region :: string
  rr_type :: string
  rr_native :: string
  rr_first_seen :: instant
  rr_last_seen :: instant
  rr_retired :: "instant option"

record observation_row =
  or_id :: uuid
  or_observation :: observation
  or_run :: "uuid option"
  or_ingested :: instant

record fact_row =
  fr_id :: uuid
  fr_fact :: fact
  fr_run :: "uuid option"

datatype run_status = Running | Success | Failed | Partial

record source_run =
  sr_id :: uuid
  sr_account :: uuid
  sr_region :: string
  sr_type :: string
  sr_source :: string
  sr_started :: instant
  sr_finished :: "instant option"
  sr_status :: run_status
  sr_found :: "nat option"
  sr_error :: "string option"
  sr_job :: "uuid option"

record insight_row =
  ir_id :: uuid
  ir_insight :: insight
  ir_computed :: instant
  ir_ack :: "(string \<times> instant \<times> string option) option"

record inconclusive_row =
  nr_id :: uuid
  nr_inconclusive :: inconclusive
  nr_computed :: instant
  nr_owner :: "string option"
  nr_due :: "date option"
  nr_status :: string

datatype life_event = Appeared | Resolved

record event_row =
  ev_fingerprint :: string
  ev_rule :: string
  ev_resource :: "uuid option"
  ev_account :: "string option"
  ev_title :: string
  ev_event :: life_event
  ev_monthly :: "pyfloat option"
  ev_run :: "uuid option"
  ev_at :: instant

record insight_run =
  nu_id :: uuid
  nu_rule :: string
  nu_started :: instant
  nu_finished :: "instant option"
  nu_status :: run_status
  nu_scanned :: "nat option"
  nu_emitted :: "nat option"

record collect_job =
  cj_id :: uuid
  cj_actor :: string
  cj_total :: int
  cj_summary :: payload
  cj_enqueue_error :: "string option"
  cj_evaluation :: "string option"

record audit_row =
  au_actor :: string
  au_action :: string
  au_target_type :: "string option"
  au_target_id :: "string option"
  au_metadata :: payload

record pii_row =
  pi_type :: string
  pi_resource :: string
  pi_field :: string
  pi_sensitivity :: string
  pi_hash :: string

record focus_row =
  fo_id :: nat
  fo_account :: uuid
  fo_start :: date
  fo_end :: date
  fo_service :: string
  fo_canonical :: "string option"
  fo_region :: "string option"
  fo_pricing :: "string option"
  fo_billed :: decimal
  fo_amortized :: decimal
  fo_resource :: "string option"
  fo_sub_account :: "string option"
  fo_tags :: "(string, string) dict list"
  fo_count :: nat
  fo_currency :: string
  fo_ingested :: instant

record focus_tag_row =
  ft_charge :: nat
  ft_key :: string
  ft_value :: string
  ft_index :: nat
  ft_billed :: decimal
  ft_amortized :: decimal

record target_row =
  tr_account :: string
  tr_role :: string
  tr_external :: string
  tr_name :: "string option"
  tr_regions :: "string list option"
  tr_types :: "string list option"
  tr_created :: instant
  tr_updated :: instant

record policy_row =
  po_table :: string
  po_days :: int
  po_enabled :: bool
  po_applied :: "instant option"
  po_deleted :: "nat option"

record db =
  t_accounts :: "account_row list"
  t_resources :: "resource_row list"
  t_observations :: "observation_row list"
  t_facts :: "fact_row list"
  t_runs :: "source_run list"
  t_insights :: "insight_row list"
  t_inconclusive :: "inconclusive_row list"
  t_events :: "event_row list"
  t_insight_runs :: "insight_run list"
  t_jobs :: "collect_job list"
  t_audit :: "audit_row list"
  t_pii :: "pii_row list"
  t_focus :: "focus_row list"
  t_focus_tags :: "focus_tag_row list"
  t_targets :: "target_row list"
  t_policies :: "policy_row list"

definition empty_db :: db where
  "empty_db = \<lparr>t_accounts = [], t_resources = [], t_observations = [], t_facts = [], t_runs = [], t_insights = [],
     t_inconclusive = [], t_events = [], t_insight_runs = [], t_jobs = [], t_audit = [], t_pii = [],
     t_focus = [], t_focus_tags = [], t_targets = [], t_policies = []\<rparr>"

section \<open>Sessions\<close>

record world =
  w_db :: db
  w_saved :: db
  w_clock :: "nat \<Rightarrow> instant"
  w_tick :: nat
  w_uuids :: "nat \<Rightarrow> uuid"
  w_next :: nat
  w_begin :: instant

definition now :: "world \<Rightarrow> instant \<times> world" where
  "now w = (w_clock w (w_tick w), w\<lparr>w_tick := Suc (w_tick w)\<rparr>)"

definition fresh :: "world \<Rightarrow> uuid \<times> world" where
  "fresh w = (w_uuids w (w_next w), w\<lparr>w_next := Suc (w_next w)\<rparr>)"

definition begin_tx :: "world \<Rightarrow> world" where
  "begin_tx w = (let (t, w) = now w in w\<lparr>w_begin := t\<rparr>)"

definition commit :: "world \<Rightarrow> world" where
  "commit w = begin_tx (w\<lparr>w_saved := w_db w\<rparr>)"

definition rollback :: "world \<Rightarrow> world" where
  "rollback w = begin_tx (w\<lparr>w_db := w_saved w\<rparr>)"

definition with_runs :: "(source_run list \<Rightarrow> source_run list) \<Rightarrow> world \<Rightarrow> world" where
  "with_runs f w = w\<lparr>w_db := (w_db w)\<lparr>t_runs := f (t_runs (w_db w))\<rparr>\<rparr>"

definition with_resources :: "(resource_row list \<Rightarrow> resource_row list) \<Rightarrow> world \<Rightarrow> world" where
  "with_resources f w = w\<lparr>w_db := (w_db w)\<lparr>t_resources := f (t_resources (w_db w))\<rparr>\<rparr>"

definition with_facts :: "(fact_row list \<Rightarrow> fact_row list) \<Rightarrow> world \<Rightarrow> world" where
  "with_facts f w = w\<lparr>w_db := (w_db w)\<lparr>t_facts := f (t_facts (w_db w))\<rparr>\<rparr>"

definition with_observations :: "(observation_row list \<Rightarrow> observation_row list) \<Rightarrow> world \<Rightarrow> world" where
  "with_observations f w = w\<lparr>w_db := (w_db w)\<lparr>t_observations := f (t_observations (w_db w))\<rparr>\<rparr>"

definition with_accounts :: "(account_row list \<Rightarrow> account_row list) \<Rightarrow> world \<Rightarrow> world" where
  "with_accounts f w = w\<lparr>w_db := (w_db w)\<lparr>t_accounts := f (t_accounts (w_db w))\<rparr>\<rparr>"

definition with_audit :: "(audit_row list \<Rightarrow> audit_row list) \<Rightarrow> world \<Rightarrow> world" where
  "with_audit f w = w\<lparr>w_db := (w_db w)\<lparr>t_audit := f (t_audit (w_db w))\<rparr>\<rparr>"

definition with_pii :: "(pii_row list \<Rightarrow> pii_row list) \<Rightarrow> world \<Rightarrow> world" where
  "with_pii f w = w\<lparr>w_db := (w_db w)\<lparr>t_pii := f (t_pii (w_db w))\<rparr>\<rparr>"

definition with_insights :: "(insight_row list \<Rightarrow> insight_row list) \<Rightarrow> world \<Rightarrow> world" where
  "with_insights f w = w\<lparr>w_db := (w_db w)\<lparr>t_insights := f (t_insights (w_db w))\<rparr>\<rparr>"

definition with_inconclusive :: "(inconclusive_row list \<Rightarrow> inconclusive_row list) \<Rightarrow> world \<Rightarrow> world" where
  "with_inconclusive f w = w\<lparr>w_db := (w_db w)\<lparr>t_inconclusive := f (t_inconclusive (w_db w))\<rparr>\<rparr>"

definition with_events :: "(event_row list \<Rightarrow> event_row list) \<Rightarrow> world \<Rightarrow> world" where
  "with_events f w = w\<lparr>w_db := (w_db w)\<lparr>t_events := f (t_events (w_db w))\<rparr>\<rparr>"

definition with_insight_runs :: "(insight_run list \<Rightarrow> insight_run list) \<Rightarrow> world \<Rightarrow> world" where
  "with_insight_runs f w = w\<lparr>w_db := (w_db w)\<lparr>t_insight_runs := f (t_insight_runs (w_db w))\<rparr>\<rparr>"

definition with_jobs :: "(collect_job list \<Rightarrow> collect_job list) \<Rightarrow> world \<Rightarrow> world" where
  "with_jobs f w = w\<lparr>w_db := (w_db w)\<lparr>t_jobs := f (t_jobs (w_db w))\<rparr>\<rparr>"

definition with_focus :: "(focus_row list \<Rightarrow> focus_row list) \<Rightarrow> world \<Rightarrow> world" where
  "with_focus f w = w\<lparr>w_db := (w_db w)\<lparr>t_focus := f (t_focus (w_db w))\<rparr>\<rparr>"

definition with_focus_tags :: "(focus_tag_row list \<Rightarrow> focus_tag_row list) \<Rightarrow> world \<Rightarrow> world" where
  "with_focus_tags f w = w\<lparr>w_db := (w_db w)\<lparr>t_focus_tags := f (t_focus_tags (w_db w))\<rparr>\<rparr>"

definition with_targets :: "(target_row list \<Rightarrow> target_row list) \<Rightarrow> world \<Rightarrow> world" where
  "with_targets f w = w\<lparr>w_db := (w_db w)\<lparr>t_targets := f (t_targets (w_db w))\<rparr>\<rparr>"

definition with_policies :: "(policy_row list \<Rightarrow> policy_row list) \<Rightarrow> world \<Rightarrow> world" where
  "with_policies f w = w\<lparr>w_db := (w_db w)\<lparr>t_policies := f (t_policies (w_db w))\<rparr>\<rparr>"

text \<open>An \<open>UPDATE\<close> of the rows that satisfy a condition.\<close>

definition update_where :: "('a \<Rightarrow> bool) \<Rightarrow> ('a \<Rightarrow> 'a) \<Rightarrow> 'a list \<Rightarrow> 'a list" where
  "update_where p f xs = map (\<lambda>x. if p x then f x else x) xs"

section \<open>Source runs\<close>

record scope =
  sc_account :: uuid
  sc_region :: string
  sc_type :: string
  sc_source :: string

definition in_scope :: "scope \<Rightarrow> source_run \<Rightarrow> bool" where
  "in_scope s r = (sr_account r = sc_account s \<and> sr_region r = sc_region s \<and> sr_type r = sc_type s \<and> sr_source r = sc_source s)"

definition active :: "scope \<Rightarrow> source_run \<Rightarrow> bool" where
  "active s r = (in_scope s r \<and> sr_status r = Running)"

text \<open>\<open>_abort_active_run\<close>.\<close>

definition abort_active_run :: "scope \<Rightarrow> world \<Rightarrow> world" where
  "abort_active_run s w =
    (let (t, w) = now w in
     with_runs (update_where (active s) (\<lambda>r. r\<lparr>sr_finished := Some t, sr_status := Failed,
        sr_error := Some ''aborted: superseded by force-start''\<rparr>)) w)"

text \<open>The insert is refused by the partial unique index \<open>uq_source_run_active\<close> when the
  scope has a running run; then the whole transaction is rolled back.\<close>

definition start_run :: "scope \<Rightarrow> bool \<Rightarrow> uuid option \<Rightarrow> world \<Rightarrow> source_run option \<times> world" where
  "start_run s force job w =
    (let w = (if force then abort_active_run s w else w);
         (i, w) = fresh w;
         run = \<lparr>sr_id = i, sr_account = sc_account s, sr_region = sc_region s, sr_type = sc_type s,
           sr_source = sc_source s, sr_started = w_begin w, sr_finished = None, sr_status = Running,
           sr_found = None, sr_error = None, sr_job = job\<rparr>
     in if \<exists>r\<in>set (t_runs (w_db w)). active s r then (None, rollback w)
        else (Some run, with_runs (\<lambda>rs. rs @ [run]) w))"

definition finish_run :: "uuid \<Rightarrow> run_status \<Rightarrow> nat option \<Rightarrow> string option \<Rightarrow> world \<Rightarrow> world" where
  "finish_run i status n_found err w =
    (let (t, w) = now w in
     with_runs (update_where (\<lambda>r. sr_id r = i) (\<lambda>r. r\<lparr>sr_finished := Some t, sr_status := status,
        sr_found := (if n_found = None then sr_found r else n_found),
        sr_error := (if err = None then sr_error r else err)\<rparr>)) w)"

definition hours :: "int \<Rightarrow> int" where
  "hours n = n * 3600 * 1000000"

definition DEFAULT_STUCK_RUN_THRESHOLD :: int where
  "DEFAULT_STUCK_RUN_THRESHOLD = hours 2"

text \<open>\<open>show_at\<close> is the text of an instant in the error message.\<close>

definition cleanup_stuck_runs :: "(instant \<Rightarrow> string) \<Rightarrow> int \<Rightarrow> world \<Rightarrow> nat \<times> world" where
  "cleanup_stuck_runs show_at threshold w =
    (let (t0, w) = now w;
         stuck = (\<lambda>r. sr_status r = Running \<and> sr_started r < t0 - threshold);
         n = length (filter stuck (t_runs (w_db w)));
         (t, w) = now w;
         w = with_runs (update_where stuck (\<lambda>r. r\<lparr>sr_finished := Some t, sr_status := Failed,
               sr_error := Some (''stuck_run_cleanup: started_at='' @ show_at (sr_started r))\<rparr>)) w
     in (n, if n = 0 then w else commit w))"

text \<open>\<open>ORDER BY finished_at DESC\<close>: a null comes first.\<close>

definition by_finished :: "source_run list \<Rightarrow> source_run list" where
  "by_finished rs = filter (\<lambda>r. sr_finished r = None) rs @
     sort_key (\<lambda>r. - the (sr_finished r)) (filter (\<lambda>r. sr_finished r \<noteq> None) rs)"

definition latest_successful_run :: "scope \<Rightarrow> int option \<Rightarrow> world \<Rightarrow> source_run option \<times> world" where
  "latest_successful_run s max_age w =
    (case by_finished (filter (\<lambda>r. in_scope s r \<and> sr_status r = Success) (t_runs (w_db w))) of
       [] \<Rightarrow> (None, w)
     | r # _ \<Rightarrow>
       (case max_age of
          None \<Rightarrow> (Some r, w)
        | Some age \<Rightarrow>
          (case sr_finished r of
             None \<Rightarrow> (None, w)
           | Some f \<Rightarrow> let (t, w) = now w in (if t - f > age then None else Some r, w))))"

definition list_runs :: "uuid option \<Rightarrow> run_status option \<Rightarrow> nat \<Rightarrow> db \<Rightarrow> source_run list" where
  "list_runs account status limit d = take limit (filter (\<lambda>r. pred_option ((=) (sr_account r)) account \<and>
     pred_option ((=) (sr_status r)) status) (sort_key (\<lambda>r. - sr_started r) (t_runs d)))"

section \<open>Resources\<close>

definition CONSECUTIVE_SCANS_FOR_RETIREMENT :: nat where
  "CONSECUTIVE_SCANS_FOR_RETIREMENT = 2"

definition natural_key :: "uuid \<Rightarrow> string \<Rightarrow> string \<Rightarrow> string \<Rightarrow> resource_row \<Rightarrow> bool" where
  "natural_key account region rtype native r =
    (rr_account r = account \<and> rr_region r = region \<and> rr_type r = rtype \<and> rr_native r = native)"

definition upsert_resource :: "uuid \<Rightarrow> string \<Rightarrow> string \<Rightarrow> string \<Rightarrow> world \<Rightarrow> resource_row \<times> world" where
  "upsert_resource account region rtype native w =
    (let (t, w) = now w in
     case find (natural_key account region rtype native) (t_resources (w_db w)) of
       Some r \<Rightarrow> (r\<lparr>rr_last_seen := t, rr_retired := None\<rparr>,
         with_resources (update_where (\<lambda>x. rr_id x = rr_id r) (\<lambda>x. x\<lparr>rr_last_seen := t, rr_retired := None\<rparr>)) w)
     | None \<Rightarrow>
        let (i, w) = fresh w;
            r = \<lparr>rr_id = i, rr_account = account, rr_region = region, rr_type = rtype, rr_native = native,
                 rr_first_seen = t, rr_last_seen = t, rr_retired = None\<rparr>
        in (r, with_resources (\<lambda>rs. rs @ [r]) w))"

definition recent_successful_runs :: "scope \<Rightarrow> nat \<Rightarrow> db \<Rightarrow> source_run list" where
  "recent_successful_runs s limit d =
    take limit (sort_key (\<lambda>r. - sr_started r) (filter (\<lambda>r. in_scope s r \<and> sr_status r = Success) (t_runs d)))"

definition stale :: "scope \<Rightarrow> instant \<Rightarrow> resource_row \<Rightarrow> bool" where
  "stale s oldest r = (rr_account r = sc_account s \<and> rr_region r = sc_region s \<and> rr_type r = sc_type s \<and>
     rr_retired r = None \<and> rr_last_seen r < oldest)"

definition retire_stale_resources :: "scope \<Rightarrow> world \<Rightarrow> nat \<times> world" where
  "retire_stale_resources s w =
    (let runs = recent_successful_runs s CONSECUTIVE_SCANS_FOR_RETIREMENT (w_db w) in
     if length runs < CONSECUTIVE_SCANS_FOR_RETIREMENT then (0, w)
     else let oldest = sr_started (last runs); (t, w) = now w in
       (length (filter (stale s oldest) (t_resources (w_db w))),
        with_resources (update_where (stale s oldest) (\<lambda>r. r\<lparr>rr_retired := Some t\<rparr>)) w))"

section \<open>Observations, facts and accounts\<close>

definition insert_observation :: "observation \<Rightarrow> uuid option \<Rightarrow> world \<Rightarrow> world" where
  "insert_observation obs run w =
    (let (i, w) = fresh w in with_observations (\<lambda>os. os @ [\<lparr>or_id = i, or_observation = obs, or_run = run, or_ingested = w_begin w\<rparr>]) w)"

text \<open>The query for the stored row of a fact; a null resource matches a null resource.\<close>

definition same_fact :: "fact \<Rightarrow> fact \<Rightarrow> bool" where
  "same_fact f g = (fact_resource g = fact_resource f \<and> fact_namespace g = fact_namespace f \<and>
     fact_key g = fact_key f \<and> fact_source g = fact_source f)"

definition refresh_fact :: "uuid option \<Rightarrow> fact \<Rightarrow> fact_row \<Rightarrow> fact_row" where
  "refresh_fact run f r = r\<lparr>fr_fact := (fr_fact r)\<lparr>fact_value := fact_value f, fact_state := fact_state f,
     fact_observed_at := fact_observed_at f\<rparr>, fr_run := run\<rparr>"

text \<open>The loop of \<open>upsert_facts\<close>: an update is seen at once, an added row is pending until the
  flush at the end, so it is not found by the query for a later fact of the batch. More
  than one stored row raises \<open>MultipleResultsFound\<close>. The last argument counts the updates.\<close>

fun upsert_loop :: "uuid option \<Rightarrow> fact list \<Rightarrow> fact_row list \<Rightarrow> fact_row list \<Rightarrow> nat \<Rightarrow> world \<Rightarrow>
    (fact_row list \<times> fact_row list \<times> nat) res \<times> world" where
  "upsert_loop run [] rows pending n w = (Inr (rows, pending, n), w)"
| "upsert_loop run (f # fs) rows pending n w =
    (case filter (\<lambda>r. same_fact f (fr_fact r)) rows of
       [] \<Rightarrow> (let (i, w) = fresh w in
          upsert_loop run fs rows (pending @ [\<lparr>fr_id = i, fr_fact = f, fr_run = run\<rparr>]) n w)
     | [_] \<Rightarrow> upsert_loop run fs (update_where (\<lambda>r. same_fact f (fr_fact r)) (refresh_fact run f) rows) pending (Suc n) w
     | _ \<Rightarrow> (Inl (RuntimeError ''MultipleResultsFound''), w))"

text \<open>The unique constraint \<open>uq_fact_current\<close>; a null resource never collides.\<close>

definition facts_unique :: "fact_row list \<Rightarrow> bool" where
  "facts_unique rows = distinct (map (\<lambda>r. (fact_resource (fr_fact r), fact_namespace (fr_fact r), fact_key (fr_fact r), fact_source (fr_fact r)))
     (filter (\<lambda>r. fact_resource (fr_fact r) \<noteq> None) rows))"

definition upsert_facts :: "fact list \<Rightarrow> uuid option \<Rightarrow> world \<Rightarrow> (nat \<times> nat) res \<times> world" where
  "upsert_facts fs run w =
    (case upsert_loop run fs (t_facts (w_db w)) [] 0 w of
       (Inl e, w) \<Rightarrow> (Inl e, w)
     | (Inr (rows, pending, n), w) \<Rightarrow>
         if facts_unique (rows @ pending) then (Inr (length pending, n), with_facts (\<lambda>_. rows @ pending) w)
         else (Inl IntegrityError, w))"

definition list_facts_for_resources :: "uuid list \<Rightarrow> db \<Rightarrow> fact list" where
  "list_facts_for_resources ids d =
    sort_key (\<lambda>f. (fact_namespace f, fact_key f, - fact_observed_at f))
      (filter (\<lambda>f. case fact_resource f of None \<Rightarrow> False | Some i \<Rightarrow> i \<in> set ids) (map fr_fact (t_facts d)))"

definition get_or_create :: "string \<Rightarrow> string option \<Rightarrow> world \<Rightarrow> account_row \<times> world" where
  "get_or_create external name w =
    (case find (\<lambda>a. ac_external a = external) (t_accounts (w_db w)) of
       Some a \<Rightarrow> (a, w)
     | None \<Rightarrow>
       let (i, w) = fresh w;
           a = \<lparr>ac_id = i, ac_external = external,
             ac_name = (case name of None \<Rightarrow> ''account-'' @ external | Some n \<Rightarrow> if n = [] then ''account-'' @ external else n)\<rparr>
       in (a, with_accounts (\<lambda>as. as @ [a]) w))"

section \<open>Frame rules\<close>

lemma now_frame [simp]:
  "w_db (snd (now w)) = w_db w" "w_saved (snd (now w)) = w_saved w" "w_clock (snd (now w)) = w_clock w"
  "w_uuids (snd (now w)) = w_uuids w" "w_begin (snd (now w)) = w_begin w" "w_next (snd (now w)) = w_next w"
  "w_tick (snd (now w)) = Suc (w_tick w)" "fst (now w) = w_clock w (w_tick w)"
  by (simp_all add: now_def)

lemma update_where_simps [simp]:
  "update_where p f [] = []"
  "update_where p f (x # xs) = (if p x then f x else x) # update_where p f xs"
  "length (update_where p f xs) = length xs"
  by (simp_all add: update_where_def)

lemma set_update_where: "set (update_where p f xs) = f ` {x \<in> set xs. p x} \<union> {x \<in> set xs. \<not> p x}"
  by (auto simp: update_where_def)

lemma map_update_where: "(\<And>x. p x \<Longrightarrow> g (f x) = g x) \<Longrightarrow> map g (update_where p f xs) = map g xs"
  by (induction xs) auto

text \<open>What every repository call leaves alone: the committed state, the clock, the generator and the
  transaction.\<close>

definition session_step :: "world \<Rightarrow> world \<Rightarrow> bool" where
  "session_step w w' = (w_saved w' = w_saved w \<and> w_clock w' = w_clock w \<and> w_uuids w' = w_uuids w \<and>
     w_begin w' = w_begin w \<and> w_tick w \<le> w_tick w' \<and> w_next w \<le> w_next w')"

lemma session_step_refl [simp]: "session_step w w"
  by (simp add: session_step_def)

lemma session_step_trans: "session_step w w1 \<Longrightarrow> session_step w1 w2 \<Longrightarrow> session_step w w2"
  by (auto simp: session_step_def)

lemma upsert_loop_step: "upsert_loop run fs rows pending n w = (res, w') \<Longrightarrow> session_step w w' \<and> w_db w' = w_db w \<and> w_tick w' = w_tick w"
proof (induction fs arbitrary: rows pending n w)
  case (Cons f fs)
  then show ?case
    by (fastforce simp: Let_def fresh_def session_step_def split: list.splits)
qed (auto simp: session_step_def)

lemma facts_frame [simp]:
  "w_db (with_facts f w) = (w_db w)\<lparr>t_facts := f (t_facts (w_db w))\<rparr>"
  "session_step w (with_facts f w)" "session_step w (with_runs g w)" "session_step w (with_resources h w)"
  "session_step w (with_observations k w)"
  by (simp_all add: session_step_def with_facts_def with_runs_def with_resources_def with_observations_def)

lemma upsert_facts_step:
  "upsert_facts fs run w = (res, w') \<Longrightarrow> session_step w w' \<and> t_resources (w_db w') = t_resources (w_db w) \<and> t_runs (w_db w') = t_runs (w_db w)"
  by (auto simp: upsert_facts_def session_step_def with_facts_def dest!: upsert_loop_step split: prod.splits sum.splits if_splits)

lemma insert_observation_step:
  "session_step w (insert_observation obs run w) \<and> t_resources (w_db (insert_observation obs run w)) = t_resources (w_db w) \<and>
   t_runs (w_db (insert_observation obs run w)) = t_runs (w_db w)"
  by (simp add: insert_observation_def fresh_def session_step_def with_observations_def)

section \<open>Identities of resources\<close>

definition resource_key :: "resource_row \<Rightarrow> uuid \<times> string \<times> string \<times> string" where
  "resource_key r = (rr_account r, rr_region r, rr_type r, rr_native r)"

lemma natural_key_iff: "natural_key a g t n r \<longleftrightarrow> resource_key r = (a, g, t, n)"
  by (auto simp: natural_key_def resource_key_def)

text \<open>No two resources share the natural key.\<close>

definition resources_ok :: "world \<Rightarrow> bool" where
  "resources_ok w = distinct (map resource_key (t_resources (w_db w)))"

text \<open>The clock does not run backwards and the transaction began before its next reading.\<close>

definition clock_ok :: "world \<Rightarrow> bool" where
  "clock_ok w = (mono (w_clock w) \<and> w_begin w \<le> w_clock w (w_tick w))"

lemma clock_ok_step: "clock_ok w \<Longrightarrow> session_step w w' \<Longrightarrow> clock_ok w'"
  unfolding clock_ok_def session_step_def by (metis monoD order_trans)

lemma resources_ok_step:
  "resources_ok w \<Longrightarrow> session_step w w' \<Longrightarrow> t_resources (w_db w') = t_resources (w_db w) \<Longrightarrow> resources_ok w'"
  by (auto simp: resources_ok_def session_step_def)

text \<open>What a scan does to the resources: the rows that are new or changed are alive and seen in this
  transaction.\<close>

definition seen_since :: "world \<Rightarrow> world \<Rightarrow> bool" where
  "seen_since w w' = (\<forall>r\<in>set (t_resources (w_db w')). r \<in> set (t_resources (w_db w)) \<or> (w_begin w \<le> rr_last_seen r \<and> rr_retired r = None))"

lemma seen_since_refl [simp]: "t_resources (w_db w') = t_resources (w_db w) \<Longrightarrow> seen_since w w'"
  by (simp add: seen_since_def)

lemma seen_since_trans: "seen_since w w1 \<Longrightarrow> seen_since w1 w2 \<Longrightarrow> w_begin w1 = w_begin w \<Longrightarrow> seen_since w w2"
  by (fastforce simp: seen_since_def)

definition has_live :: "uuid \<Rightarrow> string \<Rightarrow> string \<Rightarrow> string \<Rightarrow> world \<Rightarrow> bool" where
  "has_live a g t n w = (\<exists>r\<in>set (t_resources (w_db w)). natural_key a g t n r \<and> w_begin w \<le> rr_last_seen r)"

lemma upsert_resource_facts:
  assumes "resources_ok w" and "clock_ok w" and "upsert_resource a g t n w = (r, w')"
  shows "session_step w w' \<and> t_runs (w_db w') = t_runs (w_db w) \<and> resources_ok w' \<and> seen_since w w' \<and> has_live a g t n w'"
    and "has_live a' g' t' n' w \<Longrightarrow> has_live a' g' t' n' w'"
proof -
  let ?t = "w_clock w (w_tick w)" and ?rs = "t_resources (w_db w)"
  have b: "w_begin w \<le> ?t" using assms(2) by (simp add: clock_ok_def)
  have all: "(session_step w w' \<and> t_runs (w_db w') = t_runs (w_db w) \<and> resources_ok w' \<and> seen_since w w' \<and> has_live a g t n w') \<and>
    (has_live a' g' t' n' w \<longrightarrow> has_live a' g' t' n' w')" for a' g' t' n'
  proof (cases "find (natural_key a g t n) ?rs")
    case None
    then have new: "\<forall>x\<in>set ?rs. \<not> natural_key a g t n x" by (simp add: find_None_iff)
    define x where "x = \<lparr>rr_id = w_uuids w (w_next w), rr_account = a, rr_region = g, rr_type = t, rr_native = n,
      rr_first_seen = ?t, rr_last_seen = ?t, rr_retired = None\<rparr>"
    have db: "t_resources (w_db w') = ?rs @ [x]" and runs: "t_runs (w_db w') = t_runs (w_db w)"
      and st: "session_step w w'" and nx: "w_next w' = Suc (w_next w)" and u: "w_uuids w' = w_uuids w" "w_begin w' = w_begin w"
      using assms(3) None by (auto simp: upsert_resource_def Let_def now_def fresh_def with_resources_def x_def session_step_def)
    have k: "resource_key x = (a, g, t, n)" "rr_id x = w_uuids w (w_next w)" by (simp_all add: x_def resource_key_def)
    have "resources_ok w'"
      using assms(1) new by (auto simp: resources_ok_def db k natural_key_iff)
    moreover have "seen_since w w'" using b by (auto simp: seen_since_def db x_def)
    moreover have "has_live a g t n w'" using b by (auto simp: has_live_def db x_def natural_key_def u)
    moreover have "has_live a' g' t' n' w \<longrightarrow> has_live a' g' t' n' w'" by (auto simp: has_live_def db u)
    ultimately show ?thesis using runs st by blast
  next
    case (Some x)
    then have x: "x \<in> set ?rs" "natural_key a g t n x" by (auto simp: find_Some_iff)
    define f where "f = (\<lambda>y :: resource_row. y\<lparr>rr_last_seen := ?t, rr_retired := None\<rparr>)"
    have f: "rr_id (f y) = rr_id y" "resource_key (f y) = resource_key y" "rr_last_seen (f y) = ?t" "rr_retired (f y) = None" for y
      by (simp_all add: f_def resource_key_def)
    have db: "t_resources (w_db w') = update_where (\<lambda>y. rr_id y = rr_id x) f ?rs" and runs: "t_runs (w_db w') = t_runs (w_db w)"
      and st: "session_step w w'" and u: "w_uuids w' = w_uuids w" "w_begin w' = w_begin w" "w_next w' = w_next w"
      using assms(3) Some by (auto simp: upsert_resource_def Let_def now_def with_resources_def f_def session_step_def)
    have "map resource_key (t_resources (w_db w')) = map resource_key ?rs"
      unfolding db by (rule map_update_where) (simp add: f)
    then have "resources_ok w'" using assms(1) by (simp add: resources_ok_def)
    moreover have "seen_since w w'" using b by (auto simp: seen_since_def db set_update_where f)
    moreover have "has_live a g t n w'"
      using b x unfolding has_live_def db set_update_where u by (intro bexI [of _ "f x"]) (auto simp: f natural_key_iff)
    moreover have "has_live a' g' t' n' w \<longrightarrow> has_live a' g' t' n' w'"
    proof
      assume "has_live a' g' t' n' w"
      then obtain y where y: "y \<in> set ?rs" "natural_key a' g' t' n' y" "w_begin w \<le> rr_last_seen y" by (auto simp: has_live_def)
      then show "has_live a' g' t' n' w'" using b unfolding has_live_def db set_update_where u
        by (intro bexI [of _ "if rr_id y = rr_id x then f y else y"]) (auto simp: f natural_key_iff)
    qed
    ultimately show ?thesis using runs st by blast
  qed
  then show "session_step w w' \<and> t_runs (w_db w') = t_runs (w_db w) \<and> resources_ok w' \<and> seen_since w w' \<and> has_live a g t n w'" by blast
  show "has_live a' g' t' n' w \<Longrightarrow> has_live a' g' t' n' w'" using all by blast
qed

end
