(* ===== verification/Compliance.thy ===== *)
theory Compliance
  imports Store
begin

text \<open>
  Sensitivity labels (\<open>apps/api/src/constat_api/pii.py\<close>) and the audit log (\<open>audit.py\<close>). The
  SHA-256 digest in hexadecimal is a parameter.
\<close>

section \<open>Classification\<close>

definition ALL_SENSITIVITIES :: "string list" where
  "ALL_SENSITIVITIES = [''public'', ''internal'', ''confidential'', ''restricted'']"

definition SENSITIVITY_RULES :: "(string, string) dict" where
  "SENSITIVITY_RULES = [
    (''account_id'', ''confidential''), (''aws_account_id'', ''confidential''), (''arn'', ''confidential''),
    (''db_instance_arn'', ''confidential''), (''sub_account_id'', ''confidential''),
    (''billing_account_id'', ''confidential''), (''billing_account_name'', ''internal''),
    (''resource_id'', ''confidential''), (''instance_id'', ''confidential''),
    (''db_instance_identifier'', ''confidential''),
    (''tag_key'', ''internal''), (''tag_value'', ''confidential''), (''tag'', ''confidential''),
    (''engine'', ''public''), (''engine_version'', ''public''), (''instance_class'', ''public''),
    (''region'', ''internal''), (''pricing_category'', ''internal''), (''availability_zone'', ''internal''),
    (''billed_cost'', ''internal''), (''amortized_cost'', ''internal''), (''effective_cost'', ''internal'')]"

definition default_sensitivity :: "string \<Rightarrow> string" where
  "default_sensitivity field =
    (case dict_get SENSITIVITY_RULES field of
       Some s \<Rightarrow> s
     | None \<Rightarrow>
       if CHR '':'' \<in> set field then get_default SENSITIVITY_RULES (takeWhile (\<lambda>c. c \<noteq> CHR '':'') field) ''internal''
       else ''internal'')"

definition classify :: "(string \<Rightarrow> string) \<Rightarrow> string \<Rightarrow> string \<Rightarrow> string \<times> string" where
  "classify sha field v = (default_sensitivity field, sha v)"

definition pii_record :: "(string \<Rightarrow> string) \<Rightarrow> string \<Rightarrow> string \<Rightarrow> string \<Rightarrow> string \<Rightarrow> string option \<Rightarrow> world \<Rightarrow> pii_row option res \<times> world" where
  "pii_record sha rtype rid field v sensitivity w =
    (if v = [] then (Inr None, w)
     else let add = (\<lambda>s h. let row = \<lparr>pi_type = rtype, pi_resource = rid, pi_field = field, pi_sensitivity = s, pi_hash = h\<rparr>
                in (Inr (Some row), with_pii (\<lambda>rs. rs @ [row]) w))
          in (case sensitivity of
                None \<Rightarrow> (case classify sha field v of (s, h) \<Rightarrow> add s h)
              | Some s \<Rightarrow> if s \<in> set ALL_SENSITIVITIES then add s (sha v) else (Inl ValueError, w)))"

section \<open>The audit log\<close>

definition PII_FORBIDDEN_METADATA_KEYS :: "string list" where
  "PII_FORBIDDEN_METADATA_KEYS = [''account_id'', ''aws_account_id'', ''arn'', ''db_instance_arn'', ''billing_account_id'',
     ''sub_account_id'', ''tag_value'', ''tag_values'', ''external_id'', ''iam_role_arn'', ''secret_access_key'',
     ''access_key_id'', ''api_key'', ''value'']"

definition actor_for_api_key :: "(string \<Rightarrow> string) \<Rightarrow> string option \<Rightarrow> string" where
  "actor_for_api_key sha key = (case key of None \<Rightarrow> ''system'' | Some k \<Rightarrow> if k = [] then ''system'' else ''api_key:'' @ take 16 (sha k))"

definition validate_metadata :: "payload \<Rightarrow> unit res" where
  "validate_metadata d = (if \<exists>k\<in>set (dict_keys d). k \<in> set PII_FORBIDDEN_METADATA_KEYS then Inl ValueError else Inr ())"

definition record_event :: "string \<Rightarrow> string option \<Rightarrow> string option \<Rightarrow> string option \<Rightarrow> payload \<Rightarrow> world \<Rightarrow> audit_row res \<times> world" where
  "record_event action actor target_type target_id d w =
    (case validate_metadata d of
       Inl e \<Rightarrow> (Inl e, w)
     | Inr _ \<Rightarrow>
       let row = \<lparr>au_actor = (case actor of None \<Rightarrow> ''system'' | Some a \<Rightarrow> if a = [] then ''system'' else a), au_action = action,
             au_target_type = target_type, au_target_id = target_id, au_metadata = d\<rparr>
       in (Inr row, with_audit (\<lambda>rs. rs @ [row]) w))"

text \<open>\<open>record_read\<close> on the independent audit session; \<open>broken\<close> says that the database refuses the
  commit, which is swallowed.\<close>

definition record_read :: "bool \<Rightarrow> string \<Rightarrow> string \<Rightarrow> string \<Rightarrow> (string, bool) dict \<Rightarrow> int \<Rightarrow> world \<Rightarrow> world" where
  "record_read broken actor target_type route filters row_count w =
    (let d = foldl (\<lambda>d (k, present). dict_set (''filter_'' @ k) (PBool present) d)
           [(''route'', PStr route), (''row_count'', PInt row_count)] filters
     in case record_event ''api.read'' (Some actor) (Some target_type) None d w of
          (Inl e, w) \<Rightarrow> rollback w
        | (Inr _, w) \<Rightarrow> if broken then rollback w else commit w)"

end
