(* ===== verification/InsightStore.thy ===== *)
theory InsightStore
  imports CollectQueue Compliance Monetary
begin

text \<open>
  What the rules leave in the store: insights with the operator's acknowledgements
  (\<open>repositories/insights.py\<close>), the appeared and resolved events
  (\<open>repositories/insight_events.py\<close>), the work queue of inconclusive records
  (\<open>repositories/inconclusive.py\<close>) and the FOCUS context of an amount
  (\<open>insights/reconcile.py\<close>). The account of a stored row is a UUID in its canonical text.
\<close>

section \<open>Insights\<close>

definition ACK_STATUSES :: "string list" where
  "ACK_STATUSES = [''acknowledged'', ''in_progress'', ''resolved'', ''dismissed'']"

definition account_uuid :: "string option \<Rightarrow> uuid option res" where
  "account_uuid a = (case a of None \<Rightarrow> Inr None | Some s \<Rightarrow> if s = [] then Inr None else rmap Some (uuid_of_str s))"

abbreviation rule_of :: "insight_row \<Rightarrow> string" where
  "rule_of r \<equiv> ins_rule (ir_insight r)"

text \<open>The stamp \<open>computed_at\<close>, taken when the insight is made, is read here. A row about neither a
  resource nor an account violates \<open>insight_scope_present\<close>.\<close>

definition insert_insight :: "insight \<Rightarrow> world \<Rightarrow> insight_row res \<times> world" where
  "insert_insight i w =
    (case account_uuid (ins_account i) of
       Inl e \<Rightarrow> (Inl e, w)
     | Inr a \<Rightarrow>
       (let (t, w) = now w;
            (u, w) = fresh w;
            row = \<lparr>ir_id = u, ir_insight = i\<lparr>ins_account := map_option uuid_str a\<rparr>, ir_computed = t, ir_ack = None\<rparr>
        in if ins_resource i = None \<and> a = None then (Inl IntegrityError, w)
           else (Inr row, with_insights (\<lambda>rs. rs @ [row]) w)))"

definition delete_insights_for_rule :: "string \<Rightarrow> world \<Rightarrow> nat \<times> world" where
  "delete_insights_for_rule rule w =
    (length (filter (\<lambda>r. rule_of r = rule) (t_insights (w_db w))),
     with_insights (filter (\<lambda>r. rule_of r \<noteq> rule)) w)"

definition page :: "nat \<Rightarrow> nat \<Rightarrow> 'a list \<Rightarrow> 'a list" where
  "page limit offset xs = take limit (drop offset xs)"

definition list_insights :: "string option \<Rightarrow> severity option \<Rightarrow> uuid option \<Rightarrow> string option \<Rightarrow> nat \<Rightarrow> nat \<Rightarrow> db \<Rightarrow> insight_row list res" where
  "list_insights rule severity account ack_status limit offset d =
    (let rows = filter (\<lambda>r. pred_option ((=) (rule_of r)) rule \<and>
           pred_option ((=) (ins_severity (ir_insight r))) severity \<and>
           pred_option (\<lambda>a. ins_account (ir_insight r) = Some (uuid_str a)) account)
         (sort_key (\<lambda>r. - ir_computed r) (t_insights d)) in
     case ack_status of
       None \<Rightarrow> Inr (page limit offset rows)
     | Some s \<Rightarrow>
         if s = ''open'' then Inr (page limit offset (filter (\<lambda>r. ir_ack r = None) rows))
         else if s \<in> set ACK_STATUSES then Inr (page limit offset (filter (\<lambda>r. map_option fst (ir_ack r) = Some s) rows))
         else Inl ValueError)"

definition get_insight :: "uuid \<Rightarrow> db \<Rightarrow> insight_row option" where
  "get_insight i d = find (\<lambda>r. ir_id r = i) (t_insights d)"

definition count_insights :: "string option \<Rightarrow> db \<Rightarrow> nat" where
  "count_insights rule d = length (filter (\<lambda>r. pred_option ((=) (rule_of r)) rule) (t_insights d))"

definition update_ack :: "uuid \<Rightarrow> string \<Rightarrow> string option \<Rightarrow> instant option \<Rightarrow> world \<Rightarrow> insight_row option res \<times> world" where
  "update_ack i status ack_by ack_at w =
    (if status \<notin> set ACK_STATUSES then (Inl ValueError, w)
     else case get_insight i (w_db w) of
       None \<Rightarrow> (Inr None, w)
     | Some r \<Rightarrow>
       (let (t, w) = (case ack_at of None \<Rightarrow> now w | Some t \<Rightarrow> (t, w)) in
        (Inr (Some (r\<lparr>ir_ack := Some (status, t, ack_by)\<rparr>)),
         with_insights (update_where (\<lambda>x. ir_id x = i) (\<lambda>x. x\<lparr>ir_ack := Some (status, t, ack_by)\<rparr>)) w)))"

section \<open>Acknowledgements across a replacement\<close>

definition str_or :: "pyval \<Rightarrow> string \<Rightarrow> string" where
  "str_or v d = (if truthy v then py_str v else d)"

definition stable_id_of :: "string \<Rightarrow> uuid option \<Rightarrow> string option \<Rightarrow> payload \<Rightarrow> string" where
  "stable_id_of rule rid account p =
    (case rid of
       Some u \<Rightarrow> ''resource:'' @ rule @ '':'' @ uuid_str u
     | None \<Rightarrow> ''chargeback:'' @ (case account of None \<Rightarrow> ''None'' | Some a \<Rightarrow> a) @ '':'' @
         py_str (get_default p ''service'' (PStr [])) @ '':'' @ py_str (get_default p ''period_label'' (PStr [])) @ '':'' @
         str_or (pget p ''tag_key'') [] @ '':'' @ str_or (pget p ''tag_value'') ''UNTAGGED'')"

definition ack_snapshot_key :: "insight_row \<Rightarrow> string" where
  "ack_snapshot_key r = stable_id_of (rule_of r) (ins_resource (ir_insight r)) (ins_account (ir_insight r)) (ins_payload (ir_insight r))"

type_synonym ack = "string \<times> instant \<times> string option"

definition snapshot_acks :: "string \<Rightarrow> db \<Rightarrow> (string, ack) dict" where
  "snapshot_acks rule d = dict_of (map (\<lambda>r. (ack_snapshot_key r, the (ir_ack r)))
     (filter (\<lambda>r. rule_of r = rule \<and> ir_ack r \<noteq> None) (t_insights d)))"

definition apply_acks_to_rule :: "string \<Rightarrow> (string, ack) dict \<Rightarrow> world \<Rightarrow> nat \<times> world" where
  "apply_acks_to_rule rule snapshot w =
    (let hit = (\<lambda>r. rule_of r = rule \<and> ir_ack r = None \<and> dict_get snapshot (ack_snapshot_key r) \<noteq> None) in
     (length (filter hit (t_insights (w_db w))),
      with_insights (update_where hit (\<lambda>r. r\<lparr>ir_ack := dict_get snapshot (ack_snapshot_key r)\<rparr>)) w))"

section \<open>Appeared and resolved\<close>

definition fingerprint_of :: "(string \<Rightarrow> string) \<Rightarrow> string \<Rightarrow> uuid option \<Rightarrow> string \<Rightarrow> string" where
  "fingerprint_of sha rule rid title = sha (rule @ ''|'' @ (case rid of None \<Rightarrow> [] | Some u \<Rightarrow> uuid_str u) @ ''|'' @ title)"

definition row_fingerprint :: "(string \<Rightarrow> string) \<Rightarrow> insight_row \<Rightarrow> string" where
  "row_fingerprint sha r = fingerprint_of sha (rule_of r) (ins_resource (ir_insight r)) (ins_title (ir_insight r))"

definition snapshot_rule :: "(string \<Rightarrow> string) \<Rightarrow> string \<Rightarrow> db \<Rightarrow> (string, insight_row) dict" where
  "snapshot_rule sha rule d = dict_of (map (\<lambda>r. (row_fingerprint sha r, r)) (filter (\<lambda>r. rule_of r = rule) (t_insights d)))"

text \<open>\<open>_monthly_of\<close>.\<close>

definition monthly_of :: "string \<Rightarrow> insight_row \<Rightarrow> pyfloat option res" where
  "monthly_of rule r = rmap fst (monthly_cost_and_basis rule (ins_payload (ir_insight r)))"

definition event_of :: "string \<Rightarrow> uuid option \<Rightarrow> instant \<Rightarrow> life_event \<Rightarrow> string \<times> insight_row \<Rightarrow> event_row res" where
  "event_of rule run t e = (\<lambda>(fp, r). rmap (\<lambda>monthly.
     \<lparr>ev_fingerprint = fp, ev_rule = rule, ev_resource = ins_resource (ir_insight r), ev_account = ins_account (ir_insight r),
      ev_title = ins_title (ir_insight r), ev_event = e, ev_monthly = monthly, ev_run = run, ev_at = t\<rparr>) (monthly_of rule r))"

definition missing_from :: "('k, 'v) dict \<Rightarrow> ('k, 'v) dict \<Rightarrow> ('k, 'v) dict" where
  "missing_from other d = filter (\<lambda>(k, _). dict_get other k = None) d"

text \<open>The events are pending until the flush at the end; an amount beyond the float range raises before.\<close>

definition diff_and_record_events ::
    "(string \<Rightarrow> string) \<Rightarrow> string \<Rightarrow> (string, insight_row) dict \<Rightarrow> uuid option \<Rightarrow> world \<Rightarrow> (nat \<times> nat) res \<times> world" where
  "diff_and_record_events sha rule previous run w =
    (let current = snapshot_rule sha rule (w_db w) in
     case rbind (mapM (event_of rule run (w_begin w) Appeared) (missing_from previous current)) (\<lambda>new.
          rmap (Pair new) (mapM (event_of rule run (w_begin w) Resolved) (missing_from current previous))) of
       Inl e \<Rightarrow> (Inl e, w)
     | Inr (new, gone) \<Rightarrow> (Inr (length new, length gone), with_events (\<lambda>es. es @ new @ gone) w))"

definition filtered_events :: "string option \<Rightarrow> instant option \<Rightarrow> life_event option \<Rightarrow> event_row list \<Rightarrow> event_row list" where
  "filtered_events rule since event es = filter (\<lambda>e. pred_option ((=) (ev_rule e)) rule \<and>
     pred_option (\<lambda>t. t \<le> ev_at e) since \<and> pred_option ((=) (ev_event e)) event) es"

definition list_events :: "string option \<Rightarrow> instant option \<Rightarrow> life_event option \<Rightarrow> nat \<Rightarrow> nat \<Rightarrow> db \<Rightarrow> event_row list" where
  "list_events rule since event limit offset d =
    page limit offset (sort_key (\<lambda>e. - ev_at e) (filtered_events rule since event (t_events d)))"

text \<open>The database adds the amounts, in the order it likes: \<open>db_sum\<close>.\<close>

definition summarize_events ::
    "(pyfloat list \<Rightarrow> pyfloat) \<Rightarrow> string option \<Rightarrow> instant option \<Rightarrow> life_event option \<Rightarrow> db \<Rightarrow> nat \<times> nat \<times> pyfloat" where
  "summarize_events db_sum rule since event d =
    (let es = filtered_events rule since event (t_events d);
         gone = filter (\<lambda>e. ev_event e = Resolved) es;
         amounts = List.map_filter ev_monthly gone
     in (length (filter (\<lambda>e. ev_event e = Appeared) es), length gone, if amounts = [] then 0 else db_sum amounts))"

section \<open>Inconclusive records\<close>

abbreviation inc_rule_of :: "inconclusive_row \<Rightarrow> string" where
  "inc_rule_of r \<equiv> inc_rule (nr_inconclusive r)"

definition WORKFLOW_STATUSES :: "string list" where
  "WORKFLOW_STATUSES = [''open'', ''acknowledged'', ''resolved'']"

definition SORTS :: "string list" where
  "SORTS = [''computed_at'', ''rule_name'']"

definition sorted_inconclusive :: "string \<Rightarrow> inconclusive_row list \<Rightarrow> inconclusive_row list" where
  "sorted_inconclusive order rows =
    (if order = ''computed_at'' then sort_key (\<lambda>r. - nr_computed r) rows
     else sort_key (\<lambda>r. (inc_rule_of r, - nr_computed r)) rows)"

definition list_inconclusive :: "string option \<Rightarrow> uuid option \<Rightarrow> string option \<Rightarrow> string \<Rightarrow> nat \<Rightarrow> nat \<Rightarrow> db \<Rightarrow> inconclusive_row list res" where
  "list_inconclusive rule account status order limit offset d =
    (if order \<notin> set SORTS then Inl ValueError
     else if \<not> pred_option (\<lambda>s. s \<in> set WORKFLOW_STATUSES) status then Inl ValueError
     else Inr (page limit offset (filter (\<lambda>r. pred_option ((=) (inc_rule_of r)) rule \<and>
         pred_option (\<lambda>a. inc_account (nr_inconclusive r) = Some (uuid_str a)) account \<and>
         pred_option ((=) (nr_status r)) status) (sorted_inconclusive order (t_inconclusive d)))))"

definition get_inconclusive :: "uuid \<Rightarrow> db \<Rightarrow> inconclusive_row option" where
  "get_inconclusive i d = find (\<lambda>r. nr_id r = i) (t_inconclusive d)"

definition insert_inconclusive :: "inconclusive \<Rightarrow> world \<Rightarrow> inconclusive_row res \<times> world" where
  "insert_inconclusive x w =
    (case account_uuid (inc_account x) of
       Inl e \<Rightarrow> (Inl e, w)
     | Inr a \<Rightarrow>
       (let (t, w) = now w;
            (u, w) = fresh w;
            row = \<lparr>nr_id = u, nr_inconclusive = x\<lparr>inc_account := map_option uuid_str a\<rparr>, nr_computed = t,
              nr_owner = None, nr_due = None, nr_status = ''open''\<rparr>
        in (Inr row, with_inconclusive (\<lambda>rs. rs @ [row]) w)))"

text \<open>The values of the workflow fields: a text, a date or null.\<close>

datatype field_value = Text string | Day date | Null

fun text_field :: "field_value option \<Rightarrow> string option \<Rightarrow> string option" where
  "text_field (Some (Text s)) old = Some s"
| "text_field (Some Null) old = None"
| "text_field _ old = old"

fun day_field :: "field_value option \<Rightarrow> date option \<Rightarrow> date option" where
  "day_field (Some (Day d)) old = Some d"
| "day_field (Some Null) old = None"
| "day_field _ old = old"

definition workflow_status :: "(string, field_value) dict \<Rightarrow> string option res" where
  "workflow_status changes =
    (case dict_get changes ''status'' of
       None \<Rightarrow> Inr None
     | Some (Text s) \<Rightarrow> if s \<in> set WORKFLOW_STATUSES then Inr (Some s) else Inl ValueError
     | Some _ \<Rightarrow> Inl ValueError)"

definition update_workflow :: "uuid \<Rightarrow> (string, field_value) dict \<Rightarrow> world \<Rightarrow> inconclusive_row option res \<times> world" where
  "update_workflow i changes w =
    (if \<not> set (dict_keys changes) \<subseteq> {''owner'', ''due_date'', ''status''} then (Inl ValueError, w)
     else case workflow_status changes of
       Inl e \<Rightarrow> (Inl e, w)
     | Inr status \<Rightarrow>
       (case get_inconclusive i (w_db w) of
          None \<Rightarrow> (Inr None, w)
        | Some r \<Rightarrow>
          (let f = (\<lambda>r. r\<lparr>nr_owner := text_field (dict_get changes ''owner'') (nr_owner r),
                 nr_due := day_field (dict_get changes ''due_date'') (nr_due r),
                 nr_status := (case status of None \<Rightarrow> nr_status r | Some s \<Rightarrow> s)\<rparr>)
           in (Inr (Some (f r)), with_inconclusive (update_where (\<lambda>x. nr_id x = i) f) w))))"

definition count_inconclusive :: "string option \<Rightarrow> db \<Rightarrow> nat" where
  "count_inconclusive rule d = length (filter (\<lambda>r. pred_option ((=) (inc_rule_of r)) rule) (t_inconclusive d))"

definition delete_inconclusive_for_rule :: "string \<Rightarrow> world \<Rightarrow> nat \<times> world" where
  "delete_inconclusive_for_rule rule w =
    (length (filter (\<lambda>r. inc_rule_of r = rule) (t_inconclusive (w_db w))),
     with_inconclusive (filter (\<lambda>r. inc_rule_of r \<noteq> rule)) w)"

definition in_days :: "int \<Rightarrow> int" where
  "in_days n = n * 86400 * 1000000"

definition delete_older_than :: "int \<Rightarrow> world \<Rightarrow> nat res \<times> world" where
  "delete_older_than older_than_days w =
    (if older_than_days < 0 then (Inl ValueError, w)
     else let (t, w) = now w; old = (\<lambda>r. nr_computed r < t - in_days older_than_days)
       in (Inr (length (filter old (t_inconclusive (w_db w)))), with_inconclusive (filter (\<lambda>r. \<not> old r)) w))"

section \<open>FOCUS context\<close>

definition RULE_FOCUS_SERVICES :: "(string, string) dict" where
  "RULE_FOCUS_SERVICES = [
    (''rds_eol'', ''Amazon Relational Database Service''),
    (''mysql_eol'', ''Amazon Relational Database Service''),
    (''aurora_eol'', ''Amazon Relational Database Service''),
    (''ebs_gp2_to_gp3'', ''Amazon Elastic Compute Cloud - Compute''),
    (''ebs_unattached'', ''Amazon Elastic Compute Cloud - Compute''),
    (''snapshot_orphan'', ''Amazon Elastic Compute Cloud - Compute''),
    (''ec2_stopped_with_storage'', ''Amazon Elastic Compute Cloud - Compute'')]"

definition DAYS_IN_MONTH :: int where
  "DAYS_IN_MONTH = 30"

definition latest_period_lines :: "string \<Rightarrow> string option \<Rightarrow> db \<Rightarrow> focus_row list" where
  "latest_period_lines native service d =
    (let rows = filter (\<lambda>r. fo_resource r = Some native \<and> pred_option ((=) (fo_service r)) service) (t_focus d) in
     case rows of [] \<Rightarrow> [] | _ \<Rightarrow> filter (\<lambda>r. fo_end r = Max (set (map fo_end rows))) rows)"

fun has_number :: "pyval \<Rightarrow> bool" where
  "has_number (PInt i) = True"
| "has_number (PFloat x) = True"
| "has_number _ = False"

text \<open>The context of one insight, \<open>None\<close> where the loop continues without adding any.\<close>

definition focus_context :: "string option \<Rightarrow> db \<Rightarrow> string \<Rightarrow> insight \<Rightarrow> payload option res" where
  "focus_context service d key i =
    (if \<not> has_number (pget (ins_payload i) key) then Inr None
     else case Option.bind (ins_resource i) (\<lambda>rid. find (\<lambda>r. rr_id r = rid) (t_resources d)) of
       None \<Rightarrow> Inr None
     | Some resource \<Rightarrow>
       (case latest_period_lines (rr_native resource) service d of
          [] \<Rightarrow> Inr None
        | line # lines \<Rightarrow>
          (let period_start = Min (set (map fo_start (line # lines)));
               period_end = Max (set (map fo_end (line # lines)));
               n = days_between period_end period_start + 1
           in if n \<le> 0 then Inr None
              else rbind (dsum (map fo_amortized (line # lines))) (\<lambda>total.
                rbind (dec_float total) (\<lambda>x.
                rmap (\<lambda>q. Some [(''focus_confirmed'', PBool True), (''focus_resource_monthly_usd'', PFloat (fmul q (of_int DAYS_IN_MONTH))),
                    (''focus_period'', PStr (isoformat period_start @ ''..'' @ isoformat period_end)),
                    (''focus_billing_currency'', PStr (fo_currency line))])
                  (fdiv x (of_int n)))))))"

definition reconcile_row :: "string \<Rightarrow> string option \<Rightarrow> db \<Rightarrow> string \<Rightarrow> insight_row \<Rightarrow> (insight_row \<times> nat) res" where
  "reconcile_row rule service d key r =
    (if rule_of r \<noteq> rule then Inr (r, 0)
     else rmap (\<lambda>c. case c of None \<Rightarrow> (r, 0)
         | Some ctx \<Rightarrow> (r\<lparr>ir_insight := (ir_insight r)\<lparr>ins_payload := dict_update (ins_payload (ir_insight r)) ctx\<rparr>\<rparr>, 1))
       (focus_context service d key (ir_insight r)))"

definition reconcile_with_focus :: "string \<Rightarrow> world \<Rightarrow> nat res \<times> world" where
  "reconcile_with_focus rule w =
    (case dict_get MONETARY rule of
       None \<Rightarrow> (Inr 0, w)
     | Some entry \<Rightarrow>
       (case mapM (reconcile_row rule (dict_get RULE_FOCUS_SERVICES rule) (w_db w) (payload_key entry)) (t_insights (w_db w)) of
          Inl e \<Rightarrow> (Inl e, w)
        | Inr rs \<Rightarrow> (Inr (sum_list (map snd rs)), with_insights (\<lambda>_. map fst rs) w)))"

end
