(* ===== verification/FocusLoader.thy ===== *)
theory FocusLoader
  imports PyDecimal Json
begin

text \<open>
  The FOCUS 1.0 loader (\<open>packages/connectors/focus/src/constat_focus/\<close>): the cell parsers
  and the row loader of \<open>loader.py\<close>, the dialects that recognise the provider of an export
  (\<open>dialects/\<close>), and the service catalog that maps native service names to cross-provider
  ones (\<open>service_catalog.py\<close>).

  A CSV file is its header and its data rows as \<open>csv.DictReader\<close> delivers them: a cell
  missing from a short row is \<open>None\<close>. A Parquet file is its column names and its rows of
  values. Reading the bytes of either, and the catalog's YAML data (not part of the
  repository), are parameters. A generator that yields charges and reports skipped
  rows is the pair of both lists; what it raises ends it.
\<close>

type_synonym str_dict = "(string, string) dict"
type_synonym csv_row = "(string, string option) dict"

record focus_charge =
  fc_account :: string
  fc_account_name :: string
  fc_service :: string
  fc_region :: "string option"
  fc_pricing :: "string option"
  fc_start :: "date option"
  fc_end :: "date option"
  fc_billed :: decimal
  fc_amortized :: decimal
  fc_resource :: "string option"
  fc_sub_account :: "string option"
  fc_tags :: "str_dict list"
  fc_currency :: string
  fc_row_costs :: "(decimal \<times> decimal) list"
  fc_canonical :: "string option"

definition FOCUS_REQUIRED_COLUMNS :: "string list" where
  "FOCUS_REQUIRED_COLUMNS = [''BillingAccountId'', ''BillingAccountName'', ''ServiceName'',
    ''ChargePeriodStart'', ''ChargePeriodEnd'', ''BilledCost'', ''EffectiveCost'', ''PricingCategory'',
    ''ResourceId'', ''SubAccountId'', ''BillingCurrency'']"

definition FOCUS_VALID_CURRENCIES :: "string list" where
  "FOCUS_VALID_CURRENCIES = [''USD'', ''EUR'', ''GBP'', ''JPY'', ''AUD'', ''CAD'', ''CHF'', ''CNY'',
    ''INR'', ''BRL'', ''SGD'', ''NZD'']"

definition FOCUS_REGION_COLUMNS :: "string list" where
  "FOCUS_REGION_COLUMNS = [''RegionId'', ''Region'']"

definition FOCUS_NULL_SENTINEL :: string where
  "FOCUS_NULL_SENTINEL = '' ''"

section \<open>Cells\<close>

text \<open>\<open>s.replace("Z", "+00:00")\<close>: every occurrence.\<close>

definition replace_z :: "string \<Rightarrow> string" where
  "replace_z s = concat (map (\<lambda>c. if c = CHR ''Z'' then ''+00:00'' else [c]) s)"

definition parse_date :: "string \<Rightarrow> date res" where
  "parse_date s = (case fromisoformat (replace_z s) of
      Inr t \<Rightarrow> Inr (dt_date t)
    | Inl e \<Rightarrow> if e = ValueError then date_fromisoformat (take 10 s) else Inl e)"

definition parse_decimal :: "string option \<Rightarrow> decimal" where
  "parse_decimal s = (case s of None \<Rightarrow> dzero
    | Some t \<Rightarrow> if t = [] then dzero
        else (case decimal_of_string t of Inl e \<Rightarrow> dzero | Inr d \<Rightarrow> d))"

definition opt_str :: "string option \<Rightarrow> string option" where
  "opt_str s = (case s of None \<Rightarrow> None
    | Some t \<Rightarrow> let u = str_strip t in if u = [] \<or> u = FOCUS_NULL_SENTINEL then None else Some u)"

definition is_upper :: "char \<Rightarrow> bool" where
  "is_upper c = (let n = (of_char c :: nat) in 65 \<le> n \<and> n \<le> 90)"

text \<open>\<open>BillingCurrencyError\<close> is a \<open>ValueError\<close>.\<close>

definition parse_billing_currency :: "string option \<Rightarrow> string res" where
  "parse_billing_currency raw = (case raw of None \<Rightarrow> Inl ValueError
    | Some s \<Rightarrow> let code = str_strip s in
        if code = [] \<or> code = FOCUS_NULL_SENTINEL then Inl ValueError
        else if length code \<noteq> 3 \<or> \<not> list_all is_upper code then Inl ValueError
        else if code \<notin> set FOCUS_VALID_CURRENCIES then Inl ValueError
        else Inr code)"

definition tag_items :: "payload \<Rightarrow> str_dict" where
  "tag_items d = map (\<lambda>(k, v). (k, py_str v)) (filter (\<lambda>(k, v). v \<noteq> PNone) d)"

definition parse_tags :: "string option \<Rightarrow> str_dict" where
  "parse_tags raw = (case raw of None \<Rightarrow> []
    | Some s \<Rightarrow> let t = str_strip s in
        if t = [] \<or> t = FOCUS_NULL_SENTINEL then []
        else (case json_loads t of
            Inr (PDict d) \<Rightarrow> tag_items d
          | _ \<Rightarrow> []))"

text \<open>\<open>row.get(col)\<close>: an absent column and an absent cell are both \<open>None\<close>;
  \<open>str(row.get(col, ""))\<close>: an absent column is empty, an absent cell is the text \<open>None\<close>.\<close>

definition row_get :: "csv_row \<Rightarrow> string \<Rightarrow> string option" where
  "row_get row col = get_default row col None"

definition cell_str :: "string option \<Rightarrow> string" where
  "cell_str c = (case c of None \<Rightarrow> ''None'' | Some s \<Rightarrow> s)"

definition row_str :: "csv_row \<Rightarrow> string \<Rightarrow> string" where
  "row_str row col = cell_str (get_default row col (Some []))"

definition row_index :: "csv_row \<Rightarrow> string \<Rightarrow> string res" where
  "row_index row col = (case dict_get row col of None \<Rightarrow> Inl (KeyError col) | Some c \<Rightarrow> Inr (cell_str c))"

section \<open>The service catalog\<close>

record service_mapping =
  sm_canonical :: string
  sm_category :: string
  sm_providers :: "(string \<times> pyval list) list"

type_synonym native_index = "(string \<times> string, string) dict"

text \<open>The constructor of \<open>ServiceCatalog\<close>: one entry per provider and lower-cased native
  name; a name claimed by two canonicals is refused.\<close>

definition catalog_add :: "string \<Rightarrow> string \<Rightarrow> pyval \<Rightarrow> native_index \<Rightarrow> native_index res" where
  "catalog_add canonical provider name idx = (case name of
     PStr s \<Rightarrow> let key = (provider, str_lower s) in
       (case dict_get idx key of
          Some c \<Rightarrow> if c \<noteq> canonical then Inl ValueError else Inr (dict_set key canonical idx)
        | None \<Rightarrow> Inr (dict_set key canonical idx))
   | _ \<Rightarrow> Inl AttributeError)"

definition build_catalog :: "service_mapping list \<Rightarrow> native_index res" where
  "build_catalog mappings =
    foldM (\<lambda>m idx. foldM (\<lambda>(provider, names) idx.
      foldM (\<lambda>name idx. catalog_add (sm_canonical m) provider name idx) names idx) (sm_providers m) idx)
    mappings []"

definition canonical_for :: "native_index \<Rightarrow> string \<Rightarrow> string \<Rightarrow> string option" where
  "canonical_for idx provider native_name = dict_get idx (provider, str_lower native_name)"

definition canonicals :: "service_mapping list \<Rightarrow> string list" where
  "canonicals mappings = map sm_canonical mappings"

text \<open>\<open>_load_catalog\<close> on the parsed YAML value. The names of a provider become a
  \<open>frozenset\<close>: an unhashable one raises \<open>TypeError\<close>; one that is no string fails later, in
  \<open>name.lower()\<close>.\<close>

definition hashable :: "pyval \<Rightarrow> bool" where
  "hashable v = (case v of PList _ \<Rightarrow> False | PDict _ \<Rightarrow> False | _ \<Rightarrow> True)"

definition catalog_provider :: "string \<times> pyval \<Rightarrow> (string \<times> pyval list) res" where
  "catalog_provider = (\<lambda>(prov, names). case names of
     PList vs \<Rightarrow> if list_all hashable vs then Inr (prov, remdups vs) else Inl TypeError
   | _ \<Rightarrow> Inl ValueError)"

definition catalog_entry :: "pyval \<Rightarrow> service_mapping res" where
  "catalog_entry entry = (case entry of
     PDict d \<Rightarrow>
       (case pget d ''canonical'' of
          PStr c \<Rightarrow> if c = [] then Inl ValueError else
            (case get_default d ''providers'' (PDict []) of
               PDict ps \<Rightarrow> rmap (\<lambda>provs. \<lparr>sm_canonical = c,
                   sm_category = py_str (get_default d ''category'' (PStr [])), sm_providers = provs\<rparr>)
                 (mapM catalog_provider ps)
             | _ \<Rightarrow> Inl ValueError)
        | _ \<Rightarrow> Inl ValueError)
   | _ \<Rightarrow> Inl ValueError)"

definition load_catalog :: "pyval \<Rightarrow> native_index res" where
  "load_catalog raw = (case raw of
     PDict d \<Rightarrow> (case dict_get d ''services'' of
         None \<Rightarrow> Inl ValueError
       | Some (PList es) \<Rightarrow> rbind (mapM catalog_entry es) build_catalog
       | Some (PStr t) \<Rightarrow> if t = [] then build_catalog [] else Inl ValueError
       | Some (PDict ps) \<Rightarrow> if ps = [] then build_catalog [] else Inl ValueError
       | Some _ \<Rightarrow> Inl TypeError)
   | _ \<Rightarrow> Inl ValueError)"

section \<open>Dialects\<close>

text \<open>\<open>(row.get(col) or "").strip()\<close>.\<close>

definition row_strip :: "csv_row \<Rightarrow> string \<Rightarrow> string" where
  "row_strip row col = (case row_get row col of None \<Rightarrow> [] | Some s \<Rightarrow> str_strip s)"

definition aws_detect :: "csv_row \<Rightarrow> pyfloat" where
  "aws_detect first_row =
    (if row_strip first_row ''ProviderName'' = ''AWS'' then 1
     else if row_strip first_row ''PublisherName'' = ''Amazon Web Services'' then 1
     else if str_contains ''Amazon Web Services'' (row_strip first_row ''InvoiceIssuerName'') then lit 9 1
     else 0)"

definition azure_detect :: "csv_row \<Rightarrow> pyfloat" where
  "azure_detect first_row =
    (if row_strip first_row ''ProviderName'' = ''Microsoft'' then 1
     else if row_strip first_row ''PublisherName'' = ''Microsoft'' then 1
     else if str_contains ''Microsoft'' (row_strip first_row ''InvoiceIssuerName'') then lit 9 1
     else 0)"

definition REGISTRY :: "(string, csv_row \<Rightarrow> pyfloat) dict" where
  "REGISTRY = [(''aws'', aws_detect), (''azure'', azure_detect)]"

definition get_dialect :: "string \<Rightarrow> (csv_row \<Rightarrow> pyfloat) res" where
  "get_dialect provider = (case dict_get REGISTRY provider of None \<Rightarrow> Inl (KeyError provider) | Some d \<Rightarrow> Inr d)"

text \<open>The provider with the highest score; the first registered one on a tie.\<close>

definition auto_detect :: "csv_row \<Rightarrow> string" where
  "auto_detect first_row = fst (foldl (\<lambda>(best, best_score) (prov, detect).
      if prov = ''aws'' then (best, best_score)
      else if best_score < detect first_row then (prov, detect first_row) else (best, best_score))
    (''aws'', aws_detect first_row) REGISTRY)"


section \<open>Rows and files\<close>

text \<open>\<open>_row_to_charge\<close>: \<open>catalog\<close> is the process-wide service catalog.\<close>

definition row_to_charge :: "native_index \<Rightarrow> string option \<Rightarrow> csv_row \<Rightarrow> focus_charge res" where
  "row_to_charge catalog provider row =
    (let raw_tags = parse_tags (row_get row ''Tags'') in
     rbind (parse_billing_currency (row_get row ''BillingCurrency'')) (\<lambda>currency.
     let billed = parse_decimal (row_get row ''BilledCost'');
         amortized = parse_decimal (row_get row ''EffectiveCost'');
         service = str_strip (row_str row ''ServiceName'');
         service_canonical = (case provider of None \<Rightarrow> None
           | Some p \<Rightarrow> if p = [] then None else canonical_for catalog p service) in
     rbind (rbind (row_index row ''ChargePeriodStart'') parse_date) (\<lambda>ps.
     rbind (rbind (row_index row ''ChargePeriodEnd'') parse_date) (\<lambda>pe.
     Inr \<lparr>fc_account = str_strip (row_str row ''BillingAccountId''),
       fc_account_name = str_strip (row_str row ''BillingAccountName''),
       fc_service = service,
       fc_region = (case opt_str (row_get row ''RegionId'') of Some r \<Rightarrow> Some r
         | None \<Rightarrow> opt_str (row_get row ''Region'')),
       fc_pricing = opt_str (row_get row ''PricingCategory''),
       fc_start = Some ps, fc_end = Some pe,
       fc_billed = billed, fc_amortized = amortized,
       fc_resource = opt_str (row_get row ''ResourceId''),
       fc_sub_account = opt_str (row_get row ''SubAccountId''),
       fc_tags = [raw_tags], fc_currency = currency,
       fc_row_costs = [(billed, amortized)], fc_canonical = service_canonical\<rparr>))))"

definition validate_columns :: "string list option \<Rightarrow> unit res" where
  "validate_columns fieldnames = (case fieldnames of None \<Rightarrow> Inl ValueError
    | Some fs \<Rightarrow> if \<not> set FOCUS_REQUIRED_COLUMNS \<subseteq> set fs then Inl ValueError
        else if \<not> (\<exists>c\<in>set FOCUS_REGION_COLUMNS. c \<in> set fs) then Inl ValueError
        else Inr ())"

definition check_provider :: "string option \<Rightarrow> unit res" where
  "check_provider provider = (case provider of None \<Rightarrow> Inr ()
    | Some p \<Rightarrow> if p \<in> {''aws'', ''azure''} then Inr () else Inl ValueError)"

text \<open>The row loop: a row that raises is reported with its number and skipped.\<close>

record load_result =
  lr_charges :: "focus_charge list"
  lr_skipped :: "(nat \<times> exn) list"

fun load_rows :: "native_index \<Rightarrow> string option \<Rightarrow> nat \<Rightarrow> csv_row list \<Rightarrow> load_result" where
  "load_rows catalog provider line [] = \<lparr>lr_charges = [], lr_skipped = []\<rparr>"
| "load_rows catalog provider line (row # rows) =
    (let rest = load_rows catalog provider (Suc line) rows in
     case row_to_charge catalog provider row of
       Inr c \<Rightarrow> rest\<lparr>lr_charges := c # lr_charges rest\<rparr>
     | Inl e \<Rightarrow> rest\<lparr>lr_skipped := (line, e) # lr_skipped rest\<rparr>)"

definition load_focus_csv ::
    "native_index \<Rightarrow> string option \<Rightarrow> string list option \<Rightarrow> csv_row list \<Rightarrow> load_result res" where
  "load_focus_csv catalog provider fieldnames rows =
    rbind (validate_columns fieldnames) (\<lambda>_.
     if provider = Some ''auto'' then
       (let first_row = (case rows of [] \<Rightarrow> [] | r # rs \<Rightarrow> r); detected = Some (auto_detect first_row);
            first = (if first_row = [] then \<lparr>lr_charges = [], lr_skipped = []\<rparr>
              else case row_to_charge catalog detected first_row of
                  Inr c \<Rightarrow> \<lparr>lr_charges = [c], lr_skipped = []\<rparr>
                | Inl e \<Rightarrow> \<lparr>lr_charges = [], lr_skipped = [(2, e)]\<rparr>) in
        rmap (\<lambda>_. let rest = load_rows catalog detected 3 (tl rows) in
            \<lparr>lr_charges = lr_charges first @ lr_charges rest, lr_skipped = lr_skipped first @ lr_skipped rest\<rparr>)
          (check_provider detected))
     else rmap (\<lambda>_. load_rows catalog provider 2 rows) (check_provider provider))"

text \<open>\<open>{k: "" if v is None else str(v) for k, v in raw.items()}\<close>.\<close>

definition parquet_row :: "payload \<Rightarrow> csv_row" where
  "parquet_row raw = map (\<lambda>(k, v). (k, Some (if v = PNone then [] else py_str v))) raw"

definition load_focus_parquet ::
    "native_index \<Rightarrow> string option \<Rightarrow> string list \<Rightarrow> payload list \<Rightarrow> load_result res" where
  "load_focus_parquet catalog provider column_names table =
    rbind (validate_columns (Some column_names)) (\<lambda>_.
     let provider' = (if provider = Some ''auto'' then
           (case table of [] \<Rightarrow> provider | r # rs \<Rightarrow> Some (auto_detect (parquet_row r))) else provider) in
     rmap (\<lambda>_. load_rows catalog provider' 0 (map parquet_row table)) (check_provider provider'))"

text \<open>\<open>path.suffix\<close>: from the last dot of the file name, which is neither its first nor its
  last character.\<close>

definition path_name :: "string \<Rightarrow> string" where
  "path_name path = rev (takeWhile (\<lambda>c. c \<noteq> CHR ''/'') (dropWhile (\<lambda>c. c = CHR ''/'') (rev path)))"

definition path_suffix :: "string \<Rightarrow> string" where
  "path_suffix path = (let name = path_name path; ext = rev (takeWhile (\<lambda>c. c \<noteq> CHR ''.'') (rev name)) in
     if ext = [] \<or> length name \<le> Suc (length ext) then [] else CHR ''.'' # ext)"

definition load_focus ::
    "native_index \<Rightarrow> (string \<Rightarrow> string list option \<times> csv_row list) \<Rightarrow> (string \<Rightarrow> string list \<times> payload list) \<Rightarrow>
     string \<Rightarrow> string option \<Rightarrow> load_result res" where
  "load_focus catalog read_csv read_parquet path provider =
    (let suffix = str_lower (path_suffix path);
         effective = (case provider of None \<Rightarrow> Some ''auto'' | Some p \<Rightarrow> Some p) in
     if suffix = ''.csv'' then
       (let (fieldnames, rows) = read_csv path in load_focus_csv catalog effective fieldnames rows)
     else if suffix = ''.parquet'' then
       (let (columns, table) = read_parquet path in load_focus_parquet catalog effective columns table)
     else Inl ValueError)"

section \<open>The catalog\<close>

definition catalog_keeps :: "native_index \<Rightarrow> native_index \<Rightarrow> bool" where
  "catalog_keeps idx idx' = (\<forall>k c. dict_get idx k = Some c \<longrightarrow> dict_get idx' k = Some c)"

lemma catalog_keeps_refl [simp]: "catalog_keeps idx idx"
  by (simp add: catalog_keeps_def)

lemma catalog_keeps_trans: "catalog_keeps a b \<Longrightarrow> catalog_keeps b c \<Longrightarrow> catalog_keeps a c"
  by (simp add: catalog_keeps_def)

lemma catalog_add_keeps: "catalog_add canonical provider name idx = Inr idx' \<Longrightarrow> catalog_keeps idx idx'"
  by (auto simp: catalog_add_def catalog_keeps_def Let_def split: pyval.splits option.splits if_splits)

lemma catalog_add_get:
  "catalog_add canonical provider (PStr s) idx = Inr idx' \<Longrightarrow> dict_get idx' (provider, str_lower s) = Some canonical"
  by (auto simp: catalog_add_def Let_def split: option.splits if_splits)

text \<open>A loop that only adds keeps what it started from and what each of its steps added.\<close>

lemma catalog_keepsD: "catalog_keeps a b \<Longrightarrow> dict_get a k = Some c \<Longrightarrow> dict_get b k = Some c"
  unfolding catalog_keeps_def by blast

lemma foldM_keeps:
  assumes "\<And>x a b. f x a = Inr b \<Longrightarrow> catalog_keeps a b"
  shows "foldM f xs a = Inr b \<Longrightarrow> catalog_keeps a b"
proof (induction xs arbitrary: a)
  case (Cons x xs)
  then obtain m where m: "f x a = Inr m" "foldM f xs m = Inr b" by (auto simp: rbind_Inr_iff)
  show ?case using assms [OF m(1)] Cons.IH [OF m(2)] by (rule catalog_keeps_trans)
qed simp

lemma foldM_adds:
  assumes keeps: "\<And>x a b. f x a = Inr b \<Longrightarrow> catalog_keeps a b"
    and adds: "\<And>a b. f x a = Inr b \<Longrightarrow> dict_get b k = Some c"
  shows "foldM f xs a = Inr b \<Longrightarrow> x \<in> set xs \<Longrightarrow> dict_get b k = Some c"
proof (induction xs arbitrary: a)
  case (Cons y ys)
  then obtain m where m: "f y a = Inr m" "foldM f ys m = Inr b" by (auto simp: rbind_Inr_iff)
  show ?case
  proof (cases "x = y")
    case True
    then have "dict_get m k = Some c" using m(1) adds by simp
    moreover have "catalog_keeps m b" by (rule foldM_keeps [OF _ m(2)]) (rule keeps)
    ultimately show ?thesis by (blast dest: catalog_keepsD)
  next
    case False
    then show ?thesis using Cons m by simp
  qed
qed simp

lemma names_keep: "foldM (catalog_add canonical provider) names a = Inr b \<Longrightarrow> catalog_keeps a b"
  by (rule foldM_keeps [of "catalog_add canonical provider"]) (auto intro: catalog_add_keeps)

lemma names_add:
  "foldM (catalog_add canonical provider) names a = Inr b \<Longrightarrow> PStr s \<in> set names \<Longrightarrow>
    dict_get b (provider, str_lower s) = Some canonical"
  by (rule foldM_adds [of "catalog_add canonical provider"]) (auto intro: catalog_add_keeps catalog_add_get)

lemma providers_keep:
  "foldM (\<lambda>(p, ns). foldM (catalog_add canonical p) ns) ps a = Inr b \<Longrightarrow> catalog_keeps a b"
  by (rule foldM_keeps [of "\<lambda>(p, ns). foldM (catalog_add canonical p) ns"])
    (auto intro: names_keep split: prod.splits)

lemma providers_add:
  assumes "PStr s \<in> set names"
  shows "foldM (\<lambda>(p, ns). foldM (catalog_add canonical p) ns) ps a = Inr b \<Longrightarrow>
    (provider, names) \<in> set ps \<Longrightarrow> dict_get b (provider, str_lower s) = Some canonical"
  by (rule foldM_adds [of "\<lambda>(p, ns). foldM (catalog_add canonical p) ns" "(provider, names)"])
    (use assms in \<open>auto intro: names_keep names_add split: prod.splits\<close>)

lemma str_lower_idem [simp]: "str_lower (str_lower s) = str_lower s"
proof -
  have "lower_char (lower_char c) = lower_char c" for c
    by (cases "65 \<le> (of_char c :: nat) \<and> (of_char c :: nat) \<le> 90") (auto simp: lower_char_def Let_def)
  then show ?thesis by (simp add: str_lower_def)
qed

text \<open>Every native name listed in the service catalog resolves, whatever the case of its
  letters, to the canonical service it is listed under; a catalog that lists a name under
  two canonical services is not built.\<close>

theorem catalog_resolves:
  assumes "build_catalog mappings = Inr idx" and "m \<in> set mappings"
    and "(provider, names) \<in> set (sm_providers m)" and "PStr name \<in> set names"
    and "str_lower native = str_lower name"
  shows "canonical_for idx provider native = Some (sm_canonical m)"
proof -
  let ?step = "\<lambda>m. foldM (\<lambda>(p, ns). foldM (catalog_add (sm_canonical m) p) ns) (sm_providers m)"
  have "dict_get idx (provider, str_lower name) = Some (sm_canonical m)"
  proof (rule foldM_adds [of ?step m])
    show "foldM ?step mappings [] = Inr idx" using assms(1) by (simp add: build_catalog_def)
  qed (use assms in \<open>auto intro: providers_keep providers_add\<close>)
  then show ?thesis using assms(5) by (simp add: canonical_for_def)
qed

text \<open>\<open>AMAZON rds\<close> finds the entry of \<open>Amazon RDS\<close>.\<close>

theorem catalog_resolves_witness:
  "\<exists>idx. build_catalog [\<lparr>sm_canonical = ''managed_postgres'', sm_category = ''database'',
      sm_providers = [(''aws'', [PStr ''Amazon RDS''])]\<rparr>] = Inr idx \<and>
    canonical_for idx ''aws'' ''AMAZON rds'' = Some ''managed_postgres''"
proof -
  let ?m = "\<lparr>sm_canonical = ''managed_postgres'', sm_category = ''database'',
      sm_providers = [(''aws'', [PStr ''Amazon RDS''])]\<rparr>"
  have b: "build_catalog [?m] = Inr [((''aws'', ''amazon rds''), ''managed_postgres'')]" by code_simp
  have "str_lower ''AMAZON rds'' = str_lower ''Amazon RDS''" by code_simp
  then have "canonical_for [((''aws'', ''amazon rds''), ''managed_postgres'')] ''aws'' ''AMAZON rds'' = Some ''managed_postgres''"
    using catalog_resolves [OF b, of ?m "''aws''" "[PStr ''Amazon RDS'']" "''Amazon RDS''" "''AMAZON rds''"] by simp
  then show ?thesis using b by blast
qed

section \<open>Rows\<close>

text \<open>What holds of every charge that the loader yields.\<close>

definition loaded_ok :: "focus_charge \<Rightarrow> bool" where
  "loaded_ok c = (fc_currency c \<in> set FOCUS_VALID_CURRENCIES \<and>
     fc_row_costs c = [(fc_billed c, fc_amortized c)] \<and> length (fc_tags c) = 1 \<and>
     fc_start c \<noteq> None \<and> fc_end c \<noteq> None)"

lemma parse_billing_currency_valid:
  "parse_billing_currency raw = Inr cur \<Longrightarrow> cur \<in> set FOCUS_VALID_CURRENCIES"
  by (auto simp: parse_billing_currency_def Let_def split: option.splits if_splits)

lemma row_to_charge_ok: "row_to_charge catalog provider row = Inr c \<Longrightarrow> loaded_ok c"
  by (auto simp: row_to_charge_def Let_def rbind_Inr_iff loaded_ok_def intro: parse_billing_currency_valid)

definition oks :: "'a res list \<Rightarrow> 'a list" where
  "oks rs = concat (map (\<lambda>r. case r of Inr x \<Rightarrow> [x] | Inl e \<Rightarrow> []) rs)"

lemma oks_simps [simp]: "oks [] = []" "oks (Inr x # rs) = x # oks rs" "oks (Inl e # rs) = oks rs"
  by (simp_all add: oks_def)

lemma load_rows_charges:
  "lr_charges (load_rows catalog provider line rows) = oks (map (row_to_charge catalog provider) rows)"
proof (induction rows arbitrary: line)
  case (Cons row rows)
  then show ?case by (cases "row_to_charge catalog provider row") (simp_all add: Let_def)
qed simp

lemma load_rows_skipped:
  "(n, e) \<in> set (lr_skipped (load_rows catalog provider line rows)) \<longleftrightarrow>
     line \<le> n \<and> n < line + length rows \<and> row_to_charge catalog provider (rows ! (n - line)) = Inl e"
proof (induction rows arbitrary: line)
  case (Cons row rows)
  have split: "(line \<le> n \<and> n < line + length (row # rows)) =
      (n = line \<or> Suc line \<le> n \<and> n < Suc line + length rows)" by auto
  have nth: "(row # rows) ! (n - line) = (if n = line then row else rows ! (n - Suc line))" if "line \<le> n"
    using that by (cases "n = line") (auto simp: nth_Cons')
  show ?case
    using split nth Cons.IH [of "Suc line"]
    by (cases "row_to_charge catalog provider row") (auto simp: Let_def)
qed simp

lemma load_rows_length:
  "length (lr_charges (load_rows catalog provider line rows)) +
   length (lr_skipped (load_rows catalog provider line rows)) = length rows"
  by (induction rows arbitrary: line) (auto simp: Let_def split: sum.splits)

text \<open>Detecting the provider and replaying the first row loads what naming the provider
  loads, with the same line numbers.\<close>

lemma auto_detect_known: "auto_detect row = ''aws'' \<or> auto_detect row = ''azure''"
  by (auto simp: auto_detect_def REGISTRY_def)

lemma check_detected [simp]: "check_provider (Some (auto_detect row)) = Inr ()"
  using auto_detect_known [of row] by (auto simp: check_provider_def)

text \<open>Loading a CSV export with provider detection equals loading it with the detected
  provider named: the same charges, and the same skipped lines with the same numbers.\<close>

theorem load_csv_auto_equals_named:
  assumes "rows \<noteq> []" and "hd rows \<noteq> []"
  shows "load_focus_csv catalog (Some ''auto'') fieldnames rows =
    load_focus_csv catalog (Some (auto_detect (hd rows))) fieldnames rows"
proof -
  obtain row rest where r: "rows = row # rest" "row \<noteq> []" using assms by (cases rows) auto
  have na: "auto_detect row \<noteq> ''auto''" using auto_detect_known [of row] by auto
  have two: "Suc 2 = (3 :: nat)" by simp
  show ?thesis
    using na r by (cases "row_to_charge catalog (Some (auto_detect row)) row")
      (auto simp: load_focus_csv_def Let_def two intro!: load_result.equality arg_cong2 [where f = rbind])
qed

definition sample_row :: csv_row where
  "sample_row = [(''ProviderName'', Some ''AWS''), (''BillingAccountId'', Some ''111''), (''BillingAccountName'', Some ''prod''),
    (''ServiceName'', Some ''Amazon RDS''), (''ChargePeriodStart'', Some ''2026-07-01T00:00:00Z''),
    (''ChargePeriodEnd'', Some ''2026-07-31''), (''BilledCost'', Some ''12.5''), (''EffectiveCost'', Some ''10''),
    (''PricingCategory'', Some '' ''), (''ResourceId'', Some ''''), (''SubAccountId'', None),
    (''BillingCurrency'', Some ''EUR''), (''RegionId'', Some ''eu-west-1'')]"

theorem load_csv_auto_equals_named_witness:
  "load_focus_csv [] (Some ''auto'') (Some (map fst sample_row)) [sample_row] =
    load_focus_csv [] (Some ''aws'') (Some (map fst sample_row)) [sample_row]"
proof -
  have "auto_detect sample_row = ''aws''" by code_simp
  then show ?thesis
    using load_csv_auto_equals_named [of "[sample_row]" "[]" "Some (map fst sample_row)"]
    by (simp add: sample_row_def)
qed


definition bad_row :: csv_row where
  "bad_row = dict_set ''BillingCurrency'' (Some ''eur'') sample_row"


section \<open>Boundary inputs\<close>

text \<open>A Parquet export with the right columns and no rows cannot be loaded with provider
  detection, the default of \<open>load_focus\<close>: there is no first row to detect from, and the
  mode \<open>auto\<close> itself is refused as an unknown provider. The same export as CSV loads.\<close>

theorem empty_parquet_refused:
  "load_focus_parquet catalog (Some ''auto'') columns [] = Inl ValueError \<and>
   load_focus_csv catalog (Some ''auto'') fieldnames [] =
     rmap (\<lambda>_. \<lparr>lr_charges = [], lr_skipped = []\<rparr>) (validate_columns fieldnames)"
proof -
  have "validate_columns (Some columns) = Inr () \<or> validate_columns (Some columns) = Inl ValueError"
    by (simp add: validate_columns_def)
  then have "load_focus_parquet catalog (Some ''auto'') columns [] = Inl ValueError"
    by (auto simp: load_focus_parquet_def Let_def check_provider_def)
  moreover have "load_focus_csv catalog (Some ''auto'') fieldnames [] =
      rmap (\<lambda>_. \<lparr>lr_charges = [], lr_skipped = []\<rparr>) (validate_columns fieldnames)"
    by (cases "validate_columns fieldnames") (simp_all add: load_focus_csv_def Let_def)
  ultimately show ?thesis ..
qed

text \<open>A period written as a plain date, or as midnight UTC with the \<open>Z\<close> suffix, is read
  back as that date.\<close>

theorem parse_date_roundtrip:
  assumes "valid_date d"
  shows "parse_date (isoformat d) = Inr d \<and> parse_date (isoformat d @ ''T00:00:00Z'') = Inr d"
proof -
  have len: "length (isoformat d) = 10" by (rule length_isoformat [OF assms])
  have noz: "CHR ''Z'' \<notin> set (isoformat d)"
  proof -
    have dig: "CHR ''Z'' \<notin> set (pad0 w (str_of_nat n))" for w n
    proof
      assume "CHR ''Z'' \<in> set (pad0 w (str_of_nat n))"
      moreover have "list_all is_digit (pad0 w (str_of_nat n))" by (simp add: str_of_nat_digits)
      ultimately have "is_digit CHR ''Z''" by (auto simp: list_all_iff)
      then show False by (simp add: is_digit_def less_eq_char_def)
    qed
    then show ?thesis by (simp add: isoformat_def nat_str2_def)
  qed
  have rep: "replace_z s = s" if "CHR ''Z'' \<notin> set s" for s
    using that by (induction s) (auto simp: replace_z_def)
  have app: "replace_z (s @ t) = replace_z s @ replace_z t" for s t by (simp add: replace_z_def)
  have z: "replace_z ''T00:00:00Z'' = ''T00:00:00+00:00''" by code_simp
  have t: "parse_time ''00:00:00+00:00'' = Some (0, Some 0)" by code_simp
  have "parse_date (isoformat d) = Inr d"
    using len parse_isoformat [OF assms] by (simp add: parse_date_def rep noz fromisoformat_def)
  moreover have "parse_date (isoformat d @ ''T00:00:00Z'') = Inr d"
    using len parse_isoformat [OF assms] t
    by (simp add: parse_date_def app rep noz z fromisoformat_def)
  ultimately show ?thesis ..
qed

theorem parse_date_roundtrip_witness:
  "parse_date ''2026-07-01'' = Inr (Date 2026 7 1) \<and> parse_date ''2026-07-01T00:00:00Z'' = Inr (Date 2026 7 1)"
proof -
  have "valid_date (Date 2026 7 1)" and i: "isoformat (Date 2026 7 1) = ''2026-07-01''" by code_simp+
  then show ?thesis using parse_date_roundtrip [of "Date 2026 7 1"] by simp
qed

text \<open>An export cell that no number can be read from counts as zero, but \<open>NaN\<close> is read: the
  amount of the charge is a NaN.\<close>

lemma parse_decimal_cases:
  "parse_decimal (Some ''n/a'') = dzero" "parse_decimal (Some ''NaN'') = DNaN"
  "parse_decimal (Some ''-1.50E2'') = Dec (- 150)" "parse_decimal (Some ''-Infinity'') = DInf True"
  by code_simp+

text \<open>A row cut short behind its currency has the literal text \<open>None\<close> for a service.\<close>

lemma short_row_service_is_None:
  "(case row_to_charge [] None [(''ChargePeriodStart'', Some ''2026-07-01''), (''ChargePeriodEnd'', Some ''2026-07-31''),
      (''BillingCurrency'', Some ''EUR''), (''BilledCost'', Some ''1''), (''EffectiveCost'', Some ''1''),
      (''ServiceName'', None), (''BillingAccountId'', None)] of
    Inr c \<Rightarrow> fc_service c = ''None'' \<and> fc_account c = ''None'' | _ \<Rightarrow> False)"
  by code_simp

end
