(* ===== verification/Grouping.thy ===== *)
theory Grouping
  imports PyDecimal "HOL-Library.Multiset"
begin

text \<open>
  Grouping and counting over insertion-ordered dictionaries: \<open>defaultdict(list)\<close> buckets,
  the most common value of a column, and the removal of repeated dictionaries. The
  aggregations of the FOCUS connector and of the chargeback rule share them. The law
  \<open>group_by_spec\<close> says what a bucket dictionary is: the distinct keys in the order they
  are first seen, each with its elements in order.
\<close>

section \<open>Buckets\<close>

definition bucket_add :: "'k \<Rightarrow> 'a \<Rightarrow> ('k, 'a list) dict \<Rightarrow> ('k, 'a list) dict" where
  "bucket_add k x d = dict_set k (get_default d k [] @ [x]) d"

definition group_by :: "('a \<Rightarrow> 'k) \<Rightarrow> 'a list \<Rightarrow> ('k, 'a list) dict" where
  "group_by f xs = foldl (\<lambda>d x. bucket_add (f x) x d) [] xs"

definition keys_of :: "('a \<Rightarrow> 'k) \<Rightarrow> 'a list \<Rightarrow> 'k list" where
  "keys_of f xs = foldl (\<lambda>ks x. add_new (f x) ks) [] xs"

lemma group_by_snoc: "group_by f (xs @ [x]) = bucket_add (f x) x (group_by f xs)"
  by (simp add: group_by_def)

lemma keys_of_snoc: "keys_of f (xs @ [x]) = add_new (f x) (keys_of f xs)"
  by (simp add: keys_of_def)

lemma set_keys_of [simp]: "set (keys_of f xs) = f ` set xs"
  by (induction xs rule: rev_induct) (simp_all add: keys_of_def)

lemma distinct_keys_of [simp]: "distinct (keys_of f xs)"
  by (induction xs rule: rev_induct) (simp_all add: keys_of_def)

lemma dict_get_map: "dict_get (map (\<lambda>k. (k, g k)) ks) k = (if k \<in> set ks then Some (g k) else None)"
  by (induction ks) auto

lemma dict_set_map:
  assumes "distinct ks"
  shows "dict_set k v (map (\<lambda>k. (k, g k)) ks) = map (\<lambda>k'. (k', (g(k := v)) k')) (add_new k ks)"
  using assms
proof (induction ks)
  case (Cons a ks)
  show ?case
  proof (cases "k = a")
    case True
    then show ?thesis using Cons.prems by (auto simp: add_new_def)
  next
    case False
    then show ?thesis using Cons by (auto simp: add_new_def)
  qed
qed (simp add: add_new_def)

theorem group_by_spec: "group_by f xs = map (\<lambda>k. (k, filter (\<lambda>x. f x = k) xs)) (keys_of f xs)"
proof (induction xs rule: rev_induct)
  case Nil
  then show ?case by (simp add: group_by_def keys_of_def)
next
  case (snoc x xs)
  have "filter (\<lambda>y. f y = f x) xs = []" if "f x \<notin> f ` set xs"
    using that by (auto simp: filter_empty_conv image_iff)
  then have "get_default (group_by f xs) (f x) [] = filter (\<lambda>y. f y = f x) xs"
    unfolding snoc get_default_def dict_get_map by simp
  then have "group_by f (xs @ [x]) = dict_set (f x) (filter (\<lambda>y. f y = f x) xs @ [x])
      (map (\<lambda>k. (k, filter (\<lambda>y. f y = k) xs)) (keys_of f xs))"
    by (simp add: group_by_snoc bucket_add_def snoc)
  also have "\<dots> = map (\<lambda>k. (k, filter (\<lambda>y. f y = k) (xs @ [x]))) (keys_of f (xs @ [x]))"
    unfolding dict_set_map [OF distinct_keys_of] keys_of_snoc by auto
  finally show ?case .
qed

lemma group_by_wf [simp]: "dict_wf (group_by f xs)"
  by (simp add: group_by_spec dict_wf_def dict_keys_def comp_def)

lemma group_by_bucket:
  "(k, ys) \<in> set (group_by f xs) \<longleftrightarrow> k \<in> f ` set xs \<and> ys = filter (\<lambda>x. f x = k) xs"
  by (auto simp: group_by_spec)

text \<open>Every element is in exactly one bucket.\<close>

lemma sum_over_keys:
  fixes g :: "'a \<Rightarrow> 'b :: comm_monoid_add"
  assumes "distinct ks" and "f ` set xs \<subseteq> set ks"
  shows "sum_list (map (\<lambda>k. sum_list (map g (filter (\<lambda>x. f x = k) xs))) ks) = sum_list (map g xs)"
  using assms(2)
proof (induction xs)
  case (Cons x xs)
  have one: "sum_list (map (\<lambda>k. if f x = k then g x + h k else h k) ks) = g x + sum_list (map h ks)"
    if "f x \<in> set ks" for h
    using assms(1) that
  proof (induction ks)
    case (Cons k ks)
    have "sum_list (map (\<lambda>k. if f x = k then g x + h k else h k) ks) = sum_list (map h ks)" if "f x \<notin> set ks"
      using that by (intro arg_cong [where f = sum_list] map_cong) auto
    then show ?case using Cons by (cases "f x = k") (auto simp: ac_simps)
  qed simp
  have "sum_list (map (\<lambda>k. sum_list (map g (filter (\<lambda>y. f y = k) (x # xs)))) ks) =
      sum_list (map (\<lambda>k. if f x = k then g x + sum_list (map g (filter (\<lambda>y. f y = k) xs))
        else sum_list (map g (filter (\<lambda>y. f y = k) xs))) ks)"
    by (rule arg_cong [where f = sum_list], rule map_cong) simp_all
  also have "\<dots> = g x + sum_list (map g xs)" using Cons one by simp
  finally show ?case by simp
qed simp

lemma sum_over_buckets:
  fixes g :: "'a \<Rightarrow> 'b :: comm_monoid_add"
  shows "sum_list (map (\<lambda>(k, ys). sum_list (map g ys)) (group_by f xs)) = sum_list (map g xs)"
  unfolding group_by_spec map_map comp_def prod.case by (rule sum_over_keys) simp_all

lemma mset_concat_sum: "mset (concat yss) = sum_list (map mset yss)"
  by (induction yss) simp_all

lemma mset_singletons: "sum_list (map (\<lambda>y. {#y#}) ys) = mset ys"
  by (induction ys) simp_all

lemma mset_of_buckets: "mset (concat (map snd (group_by f xs))) = mset xs"
  using sum_over_buckets [of "\<lambda>y. {#y#}" f xs]
  by (simp add: mset_concat_sum mset_singletons comp_def case_prod_unfold)

section \<open>The most common value\<close>

definition count_values :: "string option list \<Rightarrow> (string, nat) dict" where
  "count_values vs = foldl (\<lambda>d v. case v of None \<Rightarrow> d
     | Some s \<Rightarrow> if s = [] then d else dict_set s (get_default d s 0 + 1) d) [] vs"

fun first_max :: "('a \<times> nat) list \<Rightarrow> ('a \<times> nat) option" where
  "first_max [] = None"
| "first_max ((k, n) # d) = (case first_max d of None \<Rightarrow> Some (k, n)
    | Some (k', n') \<Rightarrow> if n < n' then Some (k', n') else Some (k, n))"

text \<open>The most common non-empty value, the one seen first on a tie.\<close>

definition mode_of :: "string option list \<Rightarrow> string option" where
  "mode_of vs = map_option fst (first_max (count_values vs))"

lemma first_max_mem: "first_max d = Some (k, n) \<Longrightarrow> (k, n) \<in> set d"
  by (induction d arbitrary: k n rule: first_max.induct) (auto split: option.splits if_splits)

lemma first_max_None [simp]: "first_max d = None \<longleftrightarrow> d = []"
  by (cases d) (auto split: option.splits)

lemma count_values_snoc: "count_values (vs @ [v]) = (case v of None \<Rightarrow> count_values vs
     | Some s \<Rightarrow> if s = [] then count_values vs
        else dict_set s (get_default (count_values vs) s 0 + 1) (count_values vs))"
  unfolding count_values_def foldl_append foldl.simps by (simp split: option.split)

lemma count_values_keys: "s \<in> set (dict_keys (count_values vs)) \<longleftrightarrow> Some s \<in> set vs \<and> s \<noteq> []"
proof (induction vs rule: rev_induct)
  case Nil
  then show ?case by (simp add: count_values_def dict_keys_def)
next
  case (snoc v vs)
  then show ?case by (cases v) (auto simp: count_values_snoc dict_keys_set)
qed

lemma mode_of_mem: "mode_of vs = Some s \<Longrightarrow> Some s \<in> set vs \<and> s \<noteq> []"
proof -
  assume "mode_of vs = Some s"
  then obtain n where "(s, n) \<in> set (count_values vs)"
    by (auto simp: mode_of_def dest: first_max_mem)
  then have "s \<in> set (dict_keys (count_values vs))" by (force simp: dict_keys_def)
  then show ?thesis by (simp add: count_values_keys)
qed

lemma mode_of_None: "mode_of vs = None \<longleftrightarrow> (\<forall>s. Some s \<in> set vs \<longrightarrow> s = [])"
proof -
  have "mode_of vs = None \<longleftrightarrow> dict_keys (count_values vs) = []"
    by (simp add: mode_of_def dict_keys_def)
  also have "\<dots> \<longleftrightarrow> (\<forall>s. s \<notin> set (dict_keys (count_values vs)))" by (cases "dict_keys (count_values vs)") auto
  finally show ?thesis by (auto simp: count_values_keys)
qed

section \<open>Distinct dictionaries\<close>

text \<open>Two dictionaries are equal when their items are, in any order.\<close>

definition same_items :: "('k \<times> 'v) list \<Rightarrow> ('k \<times> 'v) list \<Rightarrow> bool" where
  "same_items a b = (set a = set b)"

definition add_dict :: "('k \<times> 'v) list \<Rightarrow> ('k \<times> 'v) list list \<Rightarrow> ('k \<times> 'v) list list" where
  "add_dict d ds = (if list_ex (same_items d) ds then ds else ds @ [d])"

definition unique_dicts :: "('k \<times> 'v) list list \<Rightarrow> ('k \<times> 'v) list list" where
  "unique_dicts ds = foldl (\<lambda>out d. add_dict d out) [] ds"

lemma unique_dicts_sound: "set (unique_dicts ds) \<subseteq> set ds"
  by (induction ds rule: rev_induct) (auto simp: unique_dicts_def add_dict_def)

lemma unique_dicts_complete: "d \<in> set ds \<Longrightarrow> \<exists>e\<in>set (unique_dicts ds). same_items d e"
  by (induction ds rule: rev_induct) (auto simp: unique_dicts_def add_dict_def list_ex_iff same_items_def)

end
