(* ===== verification/FocusAggregate.thy ===== *)
theory FocusAggregate
  imports FocusLoader Grouping
begin

text \<open>
  The aggregation of a FOCUS export for storage
  (\<open>packages/connectors/focus/src/constat_focus/aggregator.py\<close>): one row per service and
  billing period, with the tag dictionaries and costs of the contributing input rows as
  two parallel lists. A bucket that mixes currencies is refused.
\<close>

record agg_charge =
  ag_service :: string
  ag_start :: "date option"
  ag_end :: "date option"
  ag_billed :: decimal
  ag_amortized :: decimal
  ag_count :: nat
  ag_region :: "string option"
  ag_pricing :: "string option"
  ag_resource :: "string option"
  ag_sub_account :: "string option"
  ag_tags :: "str_dict list"
  ag_row_tags :: "str_dict list"
  ag_row_costs :: "(decimal \<times> decimal) list"
  ag_currency :: string
  ag_canonical :: "string option"

text \<open>\<open>c.service_canonical or c.service\<close>.\<close>

definition dedup_service :: "focus_charge \<Rightarrow> string" where
  "dedup_service c = (case fc_canonical c of None \<Rightarrow> fc_service c
     | Some s \<Rightarrow> if s = [] then fc_service c else s)"

definition storage_key :: "focus_charge \<Rightarrow> string \<times> date option \<times> date option" where
  "storage_key c = (dedup_service c, fc_start c, fc_end c)"

text \<open>\<open>zip(r.tags, r.per_row_costs, strict=True)\<close>: lists of different lengths raise.\<close>

definition zip_strict :: "'a list \<Rightarrow> 'b list \<Rightarrow> ('a \<times> 'b) list res" where
  "zip_strict xs ys = (if length xs = length ys then Inr (zip xs ys) else Inl ValueError)"

definition flat_rows :: "focus_charge list \<Rightarrow> (str_dict \<times> (decimal \<times> decimal)) list res" where
  "flat_rows rows = rmap concat (mapM (\<lambda>r. zip_strict (fc_tags r) (fc_row_costs r)) rows)"

text \<open>\<open>_unique_dicts\<close>: the empty dictionaries are dropped.\<close>

definition unique_tags :: "focus_charge list \<Rightarrow> str_dict list" where
  "unique_tags rows = unique_dicts (filter (\<lambda>d. d \<noteq> []) (concat (map fc_tags rows)))"

definition agg_bucket ::
    "(string \<times> date option \<times> date option) \<times> focus_charge list \<Rightarrow> agg_charge res" where
  "agg_bucket = (\<lambda>((service, ps, pe), rows).
     rbind (flat_rows rows) (\<lambda>flat.
     let service_native = (case mode_of (map (\<lambda>r. Some (fc_service r)) rows) of None \<Rightarrow> service | Some s \<Rightarrow> s);
         service_canonical = mode_of (filter (\<lambda>c. c \<noteq> None) (map fc_canonical rows));
         currencies = remdups (map fc_currency rows) in
     if 1 < length currencies then Inl ValueError else
     rbind (dsum (map fc_billed rows)) (\<lambda>billed.
     rbind (dsum (map fc_amortized rows)) (\<lambda>amortized.
     Inr \<lparr>ag_service = service_native, ag_start = ps, ag_end = pe, ag_billed = billed,
       ag_amortized = amortized, ag_count = length rows,
       ag_region = mode_of (map fc_region rows), ag_pricing = mode_of (map fc_pricing rows),
       ag_resource = mode_of (map fc_resource rows), ag_sub_account = mode_of (map fc_sub_account rows),
       ag_tags = unique_tags rows, ag_row_tags = map fst flat, ag_row_costs = map snd flat,
       ag_currency = (case currencies of [] \<Rightarrow> ''USD'' | c # cs \<Rightarrow> c),
       ag_canonical = service_canonical\<rparr>))))"

definition aggregate_for_storage :: "focus_charge list \<Rightarrow> agg_charge list res" where
  "aggregate_for_storage charges = mapM agg_bucket (group_by storage_key charges)"

section \<open>What a stored row holds\<close>

lemma flat_rows_Inr:
  "flat_rows rows = Inr flat \<Longrightarrow>
    map fst flat = concat (map fc_tags rows) \<and> map snd flat = concat (map fc_row_costs rows)"
proof -
  assume f: "flat_rows rows = Inr flat"
  have "map fst (concat zs) = concat (map fc_tags rows) \<and> map snd (concat zs) = concat (map fc_row_costs rows)"
    if "mapM (\<lambda>r. zip_strict (fc_tags r) (fc_row_costs r)) rows = Inr zs" for zs
    using that
    by (induction rows arbitrary: zs)
      (auto simp: rbind_Inr_iff rmap_Inr_iff zip_strict_def split: if_splits)
  then show ?thesis using f by (auto simp: flat_rows_def rmap_Inr_iff)
qed

lemma flat_rows_parallel:
  "(\<And>r. r \<in> set rows \<Longrightarrow> length (fc_tags r) = length (fc_row_costs r)) \<Longrightarrow> \<exists>flat. flat_rows rows = Inr flat"
proof -
  assume "\<And>r. r \<in> set rows \<Longrightarrow> length (fc_tags r) = length (fc_row_costs r)"
  then have "mapM (\<lambda>r. zip_strict (fc_tags r) (fc_row_costs r)) rows = Inr (map (\<lambda>r. zip (fc_tags r) (fc_row_costs r)) rows)"
    by (intro mapM_all_Inr) (simp add: zip_strict_def)
  then show ?thesis by (simp add: flat_rows_def)
qed

lemma one_currency:
  "length (remdups xs) \<le> 1 \<longleftrightarrow> (\<forall>x\<in>set xs. \<forall>y\<in>set xs. x = y)"
proof
  assume l: "length (remdups xs) \<le> 1"
  show "\<forall>x\<in>set xs. \<forall>y\<in>set xs. x = y"
  proof (cases "remdups xs")
    case (Cons a as)
    then have "remdups xs = [a]" using l by simp
    then have "set xs = {a}" by (metis list.set(1) list.set(2) set_remdups)
    then show ?thesis by simp
  qed simp
next
  assume a: "\<forall>x\<in>set xs. \<forall>y\<in>set xs. x = y"
  show "length (remdups xs) \<le> 1"
  proof (cases "remdups xs")
    case (Cons b bs)
    have d: "distinct (b # bs)" by (metis Cons distinct_remdups)
    have "set (b # bs) = set xs" by (metis Cons set_remdups)
    then have "c = b" if "c \<in> set bs" for c using a that by auto
    then have "bs = []" using d by (cases bs) auto
    then show ?thesis using Cons by simp
  qed simp
qed

text \<open>The contract of a bucket: the reference description of one stored row.\<close>

definition bucket_stored :: "focus_charge list \<Rightarrow> agg_charge \<Rightarrow> bool" where
  "bucket_stored rows a = (
     dsum (map fc_billed rows) = Inr (ag_billed a) \<and> dsum (map fc_amortized rows) = Inr (ag_amortized a) \<and>
     ag_count a = length rows \<and>
     ag_row_tags a = concat (map fc_tags rows) \<and> ag_row_costs a = concat (map fc_row_costs rows) \<and>
     (\<forall>r\<in>set rows. ag_currency a = fc_currency r))"

lemma agg_bucket_Inr:
  assumes "agg_bucket (k, rows) = Inr a"
  shows "bucket_stored rows a" and "(ag_start a, ag_end a) = snd k"
proof -
  obtain s ps pe where k: "k = (s, ps, pe)" by (cases k)
  obtain flat b m where f: "flat_rows rows = Inr flat" and d: "dsum (map fc_billed rows) = Inr b"
      "dsum (map fc_amortized rows) = Inr m"
    and c: "length (remdups (map fc_currency rows)) \<le> 1"
    and a: "ag_billed a = b" "ag_amortized a = m" "ag_count a = length rows" "ag_row_tags a = map fst flat"
      "ag_row_costs a = map snd flat" "ag_start a = ps" "ag_end a = pe"
      "ag_currency a = (case remdups (map fc_currency rows) of [] \<Rightarrow> ''USD'' | c # cs \<Rightarrow> c)"
    using assms by (auto simp: agg_bucket_def k rbind_Inr_iff Let_def split: if_splits)
  have "ag_currency a = fc_currency r" if "r \<in> set rows" for r
  proof -
    have r: "fc_currency r \<in> set (remdups (map fc_currency rows))" using that by simp
    then obtain x xs where x: "remdups (map fc_currency rows) = x # xs"
      by (cases "remdups (map fc_currency rows)") auto
    then have "xs = []" using c by simp
    then show ?thesis using a(8) r x by simp
  qed
  then show "bucket_stored rows a"
    using flat_rows_Inr [OF f] d a by (simp add: bucket_stored_def)
  show "(ag_start a, ag_end a) = snd k" using a k by simp
qed

lemma agg_bucket_succeeds:
  assumes "\<And>r. r \<in> set rows \<Longrightarrow> length (fc_tags r) = length (fc_row_costs r)"
    and "\<exists>b. dsum (map fc_billed rows) = Inr b" and "\<exists>m. dsum (map fc_amortized rows) = Inr m"
  shows "(\<exists>a. agg_bucket (k, rows) = Inr a) \<longleftrightarrow> length (remdups (map fc_currency rows)) \<le> 1"
proof -
  obtain s ps pe where k: "k = (s, ps, pe)" by (cases k)
  obtain flat where "flat_rows rows = Inr flat" using flat_rows_parallel assms(1) by blast
  then show ?thesis using assms(2,3) by (auto simp: agg_bucket_def k Let_def)
qed

lemma storage_rows_buckets:
  "aggregate_for_storage charges = Inr rs \<longleftrightarrow>
    list_all2 (\<lambda>k a. agg_bucket (k, filter (\<lambda>c. storage_key c = k) charges) = Inr a) (keys_of storage_key charges) rs"
  unfolding aggregate_for_storage_def group_by_spec mapM_list_all2 list_all2_map1 ..

text \<open>The rows written for a FOCUS export are the buckets of its charges by service and
  period, in the order the buckets are first seen: the row of a bucket holds the sums, the
  number and the parallel tag and cost lists of exactly its charges and the one currency
  that they all have.\<close>

theorem storage_rows_are_buckets:
  assumes "aggregate_for_storage charges = Inr rs"
  shows "list_all2 (\<lambda>k a. bucket_stored (filter (\<lambda>c. storage_key c = k) charges) a \<and> (ag_start a, ag_end a) = snd k)
      (keys_of storage_key charges) rs"
  using assms unfolding storage_rows_buckets
  by (rule list_all2_mono) (auto dest: agg_bucket_Inr)

text \<open>A small export: two rows of one service, one of another, all in euros.\<close>

definition sample_charge :: "string \<Rightarrow> str_dict \<Rightarrow> rat \<Rightarrow> focus_charge" where
  "sample_charge service tags cost = \<lparr>fc_account = ''111'', fc_account_name = ''prod'', fc_service = service,
     fc_region = None, fc_pricing = None, fc_start = Some (Date 2026 7 1), fc_end = Some (Date 2026 7 31),
     fc_billed = Dec cost, fc_amortized = Dec cost, fc_resource = None, fc_sub_account = None,
     fc_tags = [tags], fc_currency = ''EUR'', fc_row_costs = [(Dec cost, Dec cost)], fc_canonical = None\<rparr>"

definition sample_export :: "focus_charge list" where
  "sample_export = [sample_charge ''rds'' [(''app'', ''web'')] 3, sample_charge ''s3'' [] 5, sample_charge ''rds'' [] 97]"

lemma sample_buckets:
  "group_by storage_key sample_export =
    [((''rds'', Some (Date 2026 7 1), Some (Date 2026 7 31)), [sample_charge ''rds'' [(''app'', ''web'')] 3, sample_charge ''rds'' [] 97]),
     ((''s3'', Some (Date 2026 7 1), Some (Date 2026 7 31)), [sample_charge ''s3'' [] 5])]"
  by (simp add: sample_export_def group_by_def bucket_add_def storage_key_def dedup_service_def
      sample_charge_def get_default_def)

section \<open>Conservation\<close>

lemma fits_filter: "fits k (map g xs) \<Longrightarrow> fits k (map g (filter P xs))"
proof -
  assume f: "fits k (map g xs)"
  have "sum_list (map (\<lambda>x. \<bar>dec_val (g x)\<bar>) (filter P xs)) \<le> sum_list (map (\<lambda>x. \<bar>dec_val (g x)\<bar>) xs)"
    by (induction xs) auto
  then have "sum_list (map (\<lambda>x. \<bar>dec_val (g x)\<bar>) (filter P xs)) * 10 ^ k \<le> sum_list (map (\<lambda>x. \<bar>dec_val (g x)\<bar>) xs) * 10 ^ k"
    by (intro mult_right_mono) auto
  also have "\<dots> < 10 ^ 28" using f by (simp add: fits_def comp_def)
  finally have "sum_list (map (\<lambda>d. \<bar>dec_val d\<bar>) (map g (filter P xs))) * 10 ^ k < 10 ^ 28" by (simp only: map_map comp_def)
  moreover have "list_all (on_grid k) (map g (filter P xs))" "k \<le> 1000000"
    using f by (auto simp: fits_def list_all_iff)
  ultimately show ?thesis unfolding fits_def by blast
qed

lemma images_agree:
  "(\<forall>k\<in>f ` S. \<forall>x\<in>g ` {c \<in> S. f c = k}. \<forall>y\<in>g ` {c \<in> S. f c = k}. x = y) \<longleftrightarrow>
    (\<forall>c\<in>S. \<forall>d\<in>S. f c = f d \<longrightarrow> g c = g d)"
  by (simp add: ball_simps) metis

lemma list_all2_sum:
  "list_all2 P ks rs \<Longrightarrow> (\<And>k r. P k r \<Longrightarrow> g r = h k) \<Longrightarrow> sum_list (map g rs) = sum_list (map h ks)"
  by (induction rule: list_all2_induct) auto

lemma list_all2_in: "list_all2 P ks rs \<Longrightarrow> k \<in> set ks \<Longrightarrow> \<exists>r\<in>set rs. P k r"
  by (induction rule: list_all2_induct) auto

lemma bucket_total:
  assumes "fits k (map g xs)" and "dsum (map g (filter P xs)) = Inr d"
  shows "dec_val d = sum_list (map (\<lambda>x. dec_val (g x)) (filter P xs))"
  using dsum_exact [OF fits_filter [OF assms(1), of P]] assms(2) by (simp add: comp_def)

text \<open>C15: Aggregation for storage conserves the money of an export: when its amounts fit in 28
  digits the billed and amortized totals of the rows are those of the charges, the charge
  counts add up to the number of charges, and every input row's cost is kept.\<close>

theorem storage_conserves:
  assumes "aggregate_for_storage charges = Inr rs"
    and "fits k (map fc_billed charges)" and "fits k (map fc_amortized charges)"
  shows "sum_list (map (\<lambda>a. dec_val (ag_billed a)) rs) = sum_list (map (\<lambda>c. dec_val (fc_billed c)) charges) \<and>
    sum_list (map (\<lambda>a. dec_val (ag_amortized a)) rs) = sum_list (map (\<lambda>c. dec_val (fc_amortized c)) charges) \<and>
    sum_list (map ag_count rs) = length charges \<and>
    sum_list (map (\<lambda>a. mset (ag_row_costs a)) rs) = sum_list (map (\<lambda>c. mset (fc_row_costs c)) charges)"
proof -
  let ?b = "\<lambda>k. filter (\<lambda>c. storage_key c = k) charges"
  have l: "list_all2 (\<lambda>k a. bucket_stored (?b k) a) (keys_of storage_key charges) rs"
    using assms(1) unfolding storage_rows_buckets by (rule list_all2_mono) (auto dest: agg_bucket_Inr)
  have all: "sum_list (map (\<lambda>k. sum_list (map g (?b k))) (keys_of storage_key charges)) = sum_list (map g charges)"
    for g :: "focus_charge \<Rightarrow> 'b :: comm_monoid_add"
    by (rule sum_over_keys) simp_all
  have "sum_list (map (\<lambda>a. dec_val (ag_billed a)) rs) =
      sum_list (map (\<lambda>k. sum_list (map (\<lambda>c. dec_val (fc_billed c)) (?b k))) (keys_of storage_key charges))"
    by (rule list_all2_sum [OF l]) (rule bucket_total [OF assms(2)], simp add: bucket_stored_def)
  moreover have "sum_list (map (\<lambda>a. dec_val (ag_amortized a)) rs) =
      sum_list (map (\<lambda>k. sum_list (map (\<lambda>c. dec_val (fc_amortized c)) (?b k))) (keys_of storage_key charges))"
    by (rule list_all2_sum [OF l]) (rule bucket_total [OF assms(3)], simp add: bucket_stored_def)
  moreover have "sum_list (map ag_count rs) =
      sum_list (map (\<lambda>k. sum_list (map (\<lambda>c. 1) (?b k))) (keys_of storage_key charges))"
    by (rule list_all2_sum [OF l]) (simp add: bucket_stored_def sum_list_triv)
  moreover have "sum_list (map (\<lambda>a. mset (ag_row_costs a)) rs) =
      sum_list (map (\<lambda>k. sum_list (map (\<lambda>c. mset (fc_row_costs c)) (?b k))) (keys_of storage_key charges))"
    by (rule list_all2_sum [OF l]) (simp add: bucket_stored_def mset_concat_sum comp_def)
  moreover have "sum_list (map (\<lambda>c. 1) charges) = length charges" by (simp add: sum_list_triv)
  ultimately show ?thesis by (simp only: all)
qed

text \<open>For the charges of the loader, with amounts that fit in 28 digits, aggregation fails
  exactly when some service and period mixes currencies; no sum of two currencies is ever
  written under one label.\<close>

theorem mixed_currency_refused:
  assumes "list_all loaded_ok charges" and "fits k (map fc_billed charges)" and "fits k (map fc_amortized charges)"
  shows "aggregate_for_storage charges = Inl ValueError \<longleftrightarrow>
    (\<exists>c\<in>set charges. \<exists>d\<in>set charges. storage_key c = storage_key d \<and> fc_currency c \<noteq> fc_currency d)"
proof -
  let ?b = "\<lambda>k. filter (\<lambda>c. storage_key c = k) charges"
  have par: "length (fc_tags r) = length (fc_row_costs r)" if "r \<in> set (?b k)" for r k
    using assms(1) that by (auto simp: loaded_ok_def list_all_iff)
  have sums: "\<exists>d. dsum (map fc_billed (?b k)) = Inr d" "\<exists>d. dsum (map fc_amortized (?b k)) = Inr d" for k
    using assms(2,3) [THEN fits_filter, THEN dsum_exact] by blast+
  have ok: "(\<exists>a. agg_bucket (k, ?b k) = Inr a) \<longleftrightarrow> length (remdups (map fc_currency (?b k))) \<le> 1" for k
    using par sums by (intro agg_bucket_succeeds) auto
  have err: "agg_bucket (k, ?b k) = Inl e \<Longrightarrow> e = ValueError" for k e
  proof -
    assume e: "agg_bucket (k, ?b k) = Inl e"
    obtain flat where "flat_rows (?b k) = Inr flat" using flat_rows_parallel par by blast
    moreover obtain b m where "dsum (map fc_billed (?b k)) = Inr b" "dsum (map fc_amortized (?b k)) = Inr m"
      using sums by blast
    ultimately show "e = ValueError" using e
      by (cases k) (auto simp: agg_bucket_def Let_def split: if_splits)
  qed
  have fails: "e = ValueError" if "aggregate_for_storage charges = Inl e" for e
  proof -
    have "errs (\<lambda>e. e = ValueError) (aggregate_for_storage charges)"
      unfolding aggregate_for_storage_def
      by (rule errs_mapM) (auto simp: group_by_spec errs_def dest: err)
    then show ?thesis using that by (rule errs_D)
  qed
  have "(\<exists>rs. aggregate_for_storage charges = Inr rs) \<longleftrightarrow>
      (\<forall>k\<in>storage_key ` set charges. length (remdups (map fc_currency (?b k))) \<le> 1)"
    unfolding aggregate_for_storage_def group_by_spec mapM_Inr_iff using ok by auto
  also have "\<dots> \<longleftrightarrow> \<not> (\<exists>c\<in>set charges. \<exists>d\<in>set charges. storage_key c = storage_key d \<and> fc_currency c \<noteq> fc_currency d)"
    unfolding one_currency set_map set_filter images_agree by blast
  finally show ?thesis using fails by (metis Inl_Inr_False sum.exhaust)
qed


section \<open>On a small export\<close>

lemma sample_aggregated:
  "\<exists>a b. aggregate_for_storage sample_export = Inr [a, b] \<and> ag_billed a = Dec 100 \<and> ag_billed b = Dec 5 \<and>
    ag_row_tags a = [[(''app'', ''web'')], []] \<and> ag_row_costs a = [(Dec 3, Dec 3), (Dec 97, Dec 97)] \<and>
    ag_currency a = ''EUR'' \<and> ag_service a = ''rds'' \<and> ag_canonical a = None"
proof -
  have s: "dsum [Dec 3, Dec 97] = Inr (Dec 100)" "dsum [Dec 5] = Inr (Dec 5)"
    by (subst dsum_exact [of 0]; simp add: fits_def on_grid_Dec)+
  show ?thesis
    unfolding aggregate_for_storage_def sample_buckets
    by (simp add: agg_bucket_def flat_rows_def zip_strict_def sample_charge_def Let_def s mode_of_def
        count_values_def get_default_def)
qed

lemma sample_fits: "fits 0 (map fc_billed sample_export)" "fits 0 (map fc_amortized sample_export)"
  by (simp_all add: fits_def sample_export_def sample_charge_def on_grid_Dec)

lemma sample_loaded: "list_all loaded_ok sample_export"
  by (simp add: sample_export_def sample_charge_def loaded_ok_def FOCUS_VALID_CURRENCIES_def)

theorem storage_rows_are_buckets_witness:
  "\<exists>rs. aggregate_for_storage sample_export = Inr rs \<and>
    list_all2 (\<lambda>k a. bucket_stored (filter (\<lambda>c. storage_key c = k) sample_export) a \<and> (ag_start a, ag_end a) = snd k)
      (keys_of storage_key sample_export) rs"
  using sample_aggregated storage_rows_are_buckets by blast

theorem storage_conserves_witness:
  "\<exists>rs. aggregate_for_storage sample_export = Inr rs \<and> sum_list (map (\<lambda>a. dec_val (ag_billed a)) rs) = 105"
proof -
  obtain rs where rs: "aggregate_for_storage sample_export = Inr rs" using sample_aggregated by blast
  show ?thesis
    using storage_conserves [OF rs sample_fits] rs by (simp add: sample_export_def sample_charge_def)
qed

text \<open>With a dollar row for the same service and period the export is refused.\<close>

theorem mixed_currency_refused_witness:
  "aggregate_for_storage (sample_export @ [(sample_charge ''rds'' [] 1)\<lparr>fc_currency := ''USD''\<rparr>]) = Inl ValueError"
proof -
  let ?cs = "sample_export @ [(sample_charge ''rds'' [] 1)\<lparr>fc_currency := ''USD''\<rparr>]"
  have l: "list_all loaded_ok ?cs"
    by (simp add: sample_export_def sample_charge_def loaded_ok_def FOCUS_VALID_CURRENCIES_def)
  have f: "fits 0 (map fc_billed ?cs)" "fits 0 (map fc_amortized ?cs)"
    by (simp_all add: fits_def sample_export_def sample_charge_def on_grid_Dec)
  show ?thesis
    unfolding mixed_currency_refused [OF l f]
    by (simp add: sample_export_def sample_charge_def storage_key_def dedup_service_def)
qed

text \<open>One \<open>NaN\<close> in the cost column, which the loader accepts, makes the stored cost of its
  whole service and period a NaN, whatever the other rows cost.\<close>

theorem nan_row_poisons_bucket:
  assumes "aggregate_for_storage charges = Inr rs" and "c \<in> set charges" and "fc_billed c = DNaN"
    and "\<forall>d\<in>set charges. fc_billed d = DNaN \<or> (\<exists>r. fc_billed d = Dec r)"
  shows "\<exists>a\<in>set rs. ag_billed a = DNaN \<and> (ag_start a, ag_end a) = (fc_start c, fc_end c) \<and>
    ag_count a = length (filter (\<lambda>d. storage_key d = storage_key c) charges)"
proof -
  let ?k = "storage_key c"
  have k: "?k \<in> set (keys_of storage_key charges)" using assms(2) by simp
  then obtain a where a: "a \<in> set rs" "agg_bucket (?k, filter (\<lambda>d. storage_key d = ?k) charges) = Inr a"
    using list_all2_in [OF assms(1) [unfolded storage_rows_buckets]] by blast
  note s = agg_bucket_Inr [OF a(2)]
  let ?bs = "map fc_billed (filter (\<lambda>d. storage_key d = ?k) charges)"
  have "DNaN \<in> set ?bs" 
    unfolding set_map set_filter by (rule image_eqI [of _ _ c]) (use assms(2,3) in auto)
  moreover have "\<forall>d\<in>set ?bs. d = DNaN \<or> (\<exists>r. d = Dec r)" using assms(4) by simp
  moreover have "dsum ?bs = Inr (ag_billed a)" using s(1) by (simp add: bucket_stored_def)
  ultimately have "ag_billed a = DNaN" by (rule dsum_nan)
  then show ?thesis using s a(1) by (auto simp: bucket_stored_def storage_key_def)
qed

theorem nan_row_poisons_bucket_witness:
  "\<exists>rs. aggregate_for_storage [sample_charge ''rds'' [] 3, (sample_charge ''rds'' [] 4)\<lparr>fc_billed := parse_decimal (Some ''NaN'')\<rparr>] = Inr rs \<and>
    (\<exists>a\<in>set rs. ag_billed a = DNaN)"
proof -
  let ?n = "(sample_charge ''rds'' [] 4)\<lparr>fc_billed := DNaN\<rparr>"
  let ?cs = "[sample_charge ''rds'' [] 3, ?n]"
  have s: "dsum [Dec 3, DNaN] = Inr DNaN"
    using dsum_exact [of 0 "[Dec 3]"] by (simp add: dsum_def fits_def on_grid_Dec rbind_Inr_iff dadd_def with_nans_def)
  have s': "dsum [Dec 3, Dec 4] = Inr (Dec 7)"
    by (subst dsum_exact [of 0]) (simp_all add: fits_def on_grid_Dec)
  have "\<exists>rs. aggregate_for_storage ?cs = Inr rs"
    by (simp add: aggregate_for_storage_def group_by_def bucket_add_def storage_key_def dedup_service_def
        sample_charge_def get_default_def agg_bucket_def flat_rows_def zip_strict_def Let_def s s')
  then obtain rs where rs: "aggregate_for_storage ?cs = Inr rs" by blast
  have "\<exists>a\<in>set rs. ag_billed a = DNaN"
    using nan_row_poisons_bucket [OF rs, of ?n] by (auto simp: sample_charge_def)
  then show ?thesis using rs by (auto simp: parse_decimal_cases)
qed

end
