(* ===== verification/Chargeback.thy ===== *)
theory Chargeback
  imports FocusAggregate Models
begin

text \<open>
  The chargeback rule (\<open>packages/insights/chargeback/src/constat_chargeback/resolver.py\<close>):
  FOCUS charges grouped by account, service, currency and, in two of the three modes, by
  billing period and tag value; and the insight of each group.

  The tag mode attributes the cost of every input row to that row's own tag value. Its
  loop is kept as written, with its four dictionaries as one state; \<open>tag_entries\<close> and
  \<open>attributed\<close> are the reference description that the loop is proved to compute.
\<close>

definition RULE_NAME :: string where
  "RULE_NAME = ''chargeback''"

definition UNTAGGED :: string where
  "UNTAGGED = ''__untagged__''"

record agg_cost =
  ac_account :: string
  ac_service :: string
  ac_billed :: decimal
  ac_amortized :: decimal
  ac_count :: nat
  ac_start :: "date option"
  ac_end :: "date option"
  ac_tags :: "str_dict list"
  ac_tag_key :: "string option"
  ac_tag_value :: "string option"
  ac_account_name :: string
  ac_currency :: string
  ac_canonical :: "string option"

definition drift_amortized_minus_billed :: "agg_cost \<Rightarrow> decimal res" where
  "drift_amortized_minus_billed a = dsub (ac_amortized a) (ac_billed a)"

definition first_account_name :: "focus_charge list \<Rightarrow> string" where
  "first_account_name rows = (case find (\<lambda>r. fc_account_name r \<noteq> []) rows of None \<Rightarrow> [] | Some r \<Rightarrow> fc_account_name r)"

definition merge_tag_lists :: "focus_charge list \<Rightarrow> str_dict list" where
  "merge_tag_lists rows = unique_dicts (concat (map fc_tags rows))"

text \<open>\<open>next((c.service_canonical for c in rows if c.service_canonical is not None), None)\<close>.\<close>

definition first_canonical :: "focus_charge list \<Rightarrow> string option" where
  "first_canonical rows = (case find (\<lambda>r. fc_canonical r \<noteq> None) rows of None \<Rightarrow> None | Some r \<Rightarrow> fc_canonical r)"

definition native_or :: "string \<Rightarrow> focus_charge list \<Rightarrow> string" where
  "native_or service rows = (case mode_of (map (\<lambda>r. Some (fc_service r)) rows) of None \<Rightarrow> service | Some s \<Rightarrow> s)"

section \<open>All periods, and by period\<close>

type_synonym total_key = "string \<times> string \<times> string"
type_synonym period_key = "string \<times> string \<times> date option \<times> date option \<times> string"

definition total_key :: "focus_charge \<Rightarrow> total_key" where
  "total_key c = (fc_account c, dedup_service c, fc_currency c)"

definition period_key :: "focus_charge \<Rightarrow> period_key" where
  "period_key c = (fc_account c, dedup_service c, fc_start c, fc_end c, fc_currency c)"

definition total_bucket :: "total_key \<times> focus_charge list \<Rightarrow> agg_cost res" where
  "total_bucket = (\<lambda>((account, service, currency), rows).
     rbind (dsum (map fc_billed rows)) (\<lambda>billed.
     rbind (dsum (map fc_amortized rows)) (\<lambda>amortized.
     Inr \<lparr>ac_account = account, ac_service = native_or service rows, ac_billed = billed,
       ac_amortized = amortized, ac_count = length rows, ac_start = None, ac_end = None,
       ac_tags = merge_tag_lists rows, ac_tag_key = None, ac_tag_value = None,
       ac_account_name = first_account_name rows, ac_currency = currency,
       ac_canonical = first_canonical rows\<rparr>)))"

definition aggregate :: "focus_charge list \<Rightarrow> agg_cost list res" where
  "aggregate charges = mapM total_bucket (group_by total_key charges)"

definition period_bucket :: "period_key \<times> focus_charge list \<Rightarrow> agg_cost res" where
  "period_bucket = (\<lambda>((account, service, ps, pe, currency), rows).
     rbind (dsum (map fc_billed rows)) (\<lambda>billed.
     rbind (dsum (map fc_amortized rows)) (\<lambda>amortized.
     Inr \<lparr>ac_account = account, ac_service = native_or service rows, ac_billed = billed,
       ac_amortized = amortized, ac_count = length rows, ac_start = ps, ac_end = pe,
       ac_tags = merge_tag_lists rows, ac_tag_key = None, ac_tag_value = None,
       ac_account_name = first_account_name rows, ac_currency = currency,
       ac_canonical = first_canonical rows\<rparr>)))"

definition aggregate_by_period :: "focus_charge list \<Rightarrow> agg_cost list res" where
  "aggregate_by_period charges = mapM period_bucket (group_by period_key charges)"

section \<open>By tag value\<close>

type_synonym tag_key = "string \<times> string \<times> date \<times> date \<times> string \<times> string"

record tag_state =
  buckets :: "(tag_key, decimal \<times> decimal \<times> nat) dict"
  bucket_tags :: "(tag_key, str_dict list) dict"
  bucket_canonical :: "(tag_key, string) dict"
  account_names :: "(string, string) dict"

text \<open>\<open>buckets[key] = (prev_billed + billed, prev_amortized + amortized, prev_count + 1)\<close>.\<close>

definition add_cost ::
    "tag_key \<times> decimal \<times> decimal \<Rightarrow> (tag_key, decimal \<times> decimal \<times> nat) dict \<Rightarrow>
     (tag_key, decimal \<times> decimal \<times> nat) dict res" where
  "add_cost = (\<lambda>(key, billed, amortized) d.
     let (prev_billed, prev_amortized, prev_count) = get_default d key (dzero, dzero, 0) in
     rbind (dadd prev_billed billed) (\<lambda>b.
     rbind (dadd prev_amortized amortized) (\<lambda>a.
     Inr (dict_set key (b, a, prev_count + 1) d))))"

definition add_to_bucket :: "tag_key \<Rightarrow> decimal \<Rightarrow> decimal \<Rightarrow> str_dict \<Rightarrow> tag_state \<Rightarrow> tag_state res" where
  "add_to_bucket key billed amortized tags st =
     rmap (\<lambda>d. st\<lparr>buckets := d, bucket_tags := bucket_add key tags (bucket_tags st)\<rparr>)
       (add_cost (key, billed, amortized) (buckets st))"

definition set_canonical :: "tag_key \<Rightarrow> string option \<Rightarrow> tag_state \<Rightarrow> tag_state" where
  "set_canonical key canonical st = (case canonical of None \<Rightarrow> st
     | Some s \<Rightarrow> st\<lparr>bucket_canonical := dict_set key s (bucket_canonical st)\<rparr>)"

text \<open>The bucket of one input row: its own tag value, or \<open>UNTAGGED\<close>.\<close>

definition tag_value_of :: "string \<Rightarrow> str_dict \<Rightarrow> string" where
  "tag_value_of key tags = (case dict_get tags key of None \<Rightarrow> UNTAGGED | Some v \<Rightarrow> if v = [] then UNTAGGED else v)"

definition row_tags_kept :: "string \<Rightarrow> str_dict \<Rightarrow> str_dict" where
  "row_tags_kept key tags = (case dict_get tags key of None \<Rightarrow> [] | Some v \<Rightarrow> if v = [] then [] else [(key, v)])"

definition tag_pair_step ::
    "focus_charge \<Rightarrow> date \<Rightarrow> date \<Rightarrow> string \<Rightarrow> str_dict \<times> (decimal \<times> decimal) \<Rightarrow> tag_state \<Rightarrow> tag_state res" where
  "tag_pair_step c ps pe tkey = (\<lambda>(tags, (billed, amortized)) st.
     let key = (fc_account c, dedup_service c, ps, pe, fc_currency c, tag_value_of tkey tags) in
     rmap (set_canonical key (fc_canonical c)) (add_to_bucket key billed amortized (row_tags_kept tkey tags) st))"

text \<open>\<open>_attribute_row_count\<close>: the fallback for charges with tags and no per-row costs.\<close>

definition count_tag_values :: "string \<Rightarrow> str_dict list \<Rightarrow> (string, nat) dict" where
  "count_tag_values tkey tags = foldl (\<lambda>d t. case dict_get t tkey of None \<Rightarrow> d
     | Some v \<Rightarrow> dict_set v (get_default d v 0 + 1) d) [] tags"

definition attribute_row_count ::
    "focus_charge \<Rightarrow> date \<Rightarrow> date \<Rightarrow> string \<Rightarrow> tag_state \<Rightarrow> tag_state res" where
  "attribute_row_count c ps pe tkey st =
    (let per_value_count = count_tag_values tkey (fc_tags c);
         key = (\<lambda>v. (fc_account c, fc_service c, ps, pe, fc_currency c, v)) in
     if per_value_count = [] then add_to_bucket (key UNTAGGED) (fc_billed c) (fc_amortized c) [] st
     else (let total_rows = sum_list (map snd per_value_count) in
       foldM (\<lambda>(v, count) st.
         rbind (ddiv (of_nat count) (of_nat total_rows)) (\<lambda>weight.
         rbind (dmul (fc_billed c) weight) (\<lambda>billed.
         rbind (dmul (fc_amortized c) weight) (\<lambda>amortized.
         add_to_bucket (key v) billed amortized [(tkey, v)] st)))) per_value_count st))"

definition tag_charge_step :: "string \<Rightarrow> focus_charge \<Rightarrow> tag_state \<Rightarrow> tag_state res" where
  "tag_charge_step tkey c st0 =
    (let st = (if fc_account_name c \<noteq> [] \<and> dict_get (account_names st0) (fc_account c) = None
               then st0\<lparr>account_names := dict_set (fc_account c) (fc_account_name c) (account_names st0)\<rparr> else st0) in
     case (fc_start c, fc_end c) of
       (Some ps, Some pe) \<Rightarrow>
         if fc_row_costs c \<noteq> [] then
           rbind (foldM (tag_pair_step c ps pe tkey) (zip (fc_tags c) (fc_row_costs c)) st) (\<lambda>st'.
             if length (fc_tags c) = length (fc_row_costs c) then Inr st' else Inl ValueError)
         else if fc_tags c \<noteq> [] then
           rmap (\<lambda>st'. foldl (\<lambda>s key. set_canonical key (fc_canonical c) s) st' (map fst (buckets st')))
             (attribute_row_count c ps pe tkey st)
         else
           (let key = (fc_account c, dedup_service c, ps, pe, fc_currency c, UNTAGGED) in
            rmap (set_canonical key (fc_canonical c)) (add_to_bucket key (fc_billed c) (fc_amortized c) [] st))
     | _ \<Rightarrow> Inr st)"

definition tag_result :: "string \<Rightarrow> tag_state \<Rightarrow> tag_key \<times> (decimal \<times> decimal \<times> nat) \<Rightarrow> agg_cost" where
  "tag_result tkey st = (\<lambda>((account, service, ps, pe, currency, tag_value), (billed, amortized, n)).
     let key = (account, service, ps, pe, currency, tag_value) in
     \<lparr>ac_account = account, ac_service = service, ac_billed = billed, ac_amortized = amortized, ac_count = n,
      ac_start = Some ps, ac_end = Some pe, ac_tags = unique_dicts (get_default (bucket_tags st) key []),
      ac_tag_key = Some tkey, ac_tag_value = Some tag_value,
      ac_account_name = get_default (account_names st) account [], ac_currency = currency,
      ac_canonical = dict_get (bucket_canonical st) key\<rparr>)"

definition empty_tag_state :: tag_state where
  "empty_tag_state = \<lparr>buckets = [], bucket_tags = [], bucket_canonical = [], account_names = []\<rparr>"

definition aggregate_by_tag :: "string \<Rightarrow> focus_charge list \<Rightarrow> agg_cost list res" where
  "aggregate_by_tag tkey charges =
    (if tkey = [] then Inl ValueError
     else rmap (\<lambda>st. map (tag_result tkey st) (buckets st))
       (foldM (tag_charge_step tkey) charges empty_tag_state))"

section \<open>Insights\<close>

text \<open>The arrow of a period label, U+2192, as its UTF-8 bytes.\<close>

definition arrow :: string where
  "arrow = [CHR 0xE2, CHR 0x86, CHR 0x92]"

definition period_label :: "agg_cost \<Rightarrow> string" where
  "period_label a = (case (ac_start a, ac_end a) of
     (Some s, Some e) \<Rightarrow> isoformat s @ '' '' @ arrow @ '' '' @ isoformat e
   | _ \<Rightarrow> ''all-time'')"

definition iso_or_none :: "date option \<Rightarrow> pyval" where
  "iso_or_none d = (case d of None \<Rightarrow> PNone | Some d \<Rightarrow> PStr (isoformat d))"

definition tag_pyval :: "str_dict \<Rightarrow> pyval" where
  "tag_pyval d = PDict (map (\<lambda>(k, v). (k, PStr v)) d)"

definition display_service :: "agg_cost \<Rightarrow> string" where
  "display_service a = (case ac_canonical a of None \<Rightarrow> ac_service a | Some s \<Rightarrow> if s = [] then ac_service a else s)"

definition build_insight :: "string \<Rightarrow> agg_cost \<Rightarrow> insight res" where
  "build_insight plabel agg =
    rbind (drift_amortized_minus_billed agg) (\<lambda>drift.
    rbind (dpos drift) (\<lambda>up.
    rbind (dminus drift) (\<lambda>down.
    let direction = (if up then ''up'' else if down then ''down'' else ''flat'');
        label = (if plabel = [] then period_label agg else plabel);
        display_account = (if ac_account_name agg = [] then ac_account agg else ac_account_name agg);
        tag_suffix = (case (ac_tag_key agg, ac_tag_value agg) of
            (Some k, Some v) \<Rightarrow> '' ['' @ k @ ''='' @ v @ '']'' | _ \<Rightarrow> []);
        title = display_service agg @ '' on '' @ display_account @ '' ('' @ label @ '')'' @ tag_suffix @
          '': amortized '' @ direction @ '' by '' @ ac_currency agg @ '' '' @ dabs_fmt2 drift in
    rbind (dec_float (ac_billed agg)) (\<lambda>billed.
    rbind (dec_float (ac_amortized agg)) (\<lambda>amortized.
    rbind (dec_float drift) (\<lambda>fdrift.
    Inr \<lparr>ins_rule = RULE_NAME, ins_resource = None, ins_account = Some (ac_account agg), ins_severity = INFO,
      ins_title = title,
      ins_payload = [
        (''service'', PStr (display_service agg)),
        (''service_native'', PStr (ac_service agg)),
        (''service_canonical'', pstr_opt (ac_canonical agg)),
        (''account_id'', PStr (ac_account agg)),
        (''period_label'', PStr label),
        (''period_start'', iso_or_none (ac_start agg)),
        (''period_end'', iso_or_none (ac_end agg)),
        (''billing_currency'', PStr (ac_currency agg)),
        (''billed_cost_usd'', PFloat billed),
        (''amortized_cost_usd'', PFloat amortized),
        (''drift_amortized_minus_billed_usd'', PFloat fdrift),
        (''charge_count'', PInt (int (ac_count agg))),
        (''tag_key'', pstr_opt (ac_tag_key agg)),
        (''tag_value'', pstr_opt (ac_tag_value agg)),
        (''tags'', PList (map tag_pyval (ac_tags agg)))]\<rparr>))))))"

definition build_insights :: "string \<Rightarrow> agg_cost list \<Rightarrow> insight list res" where
  "build_insights plabel aggregated = mapM (build_insight plabel) aggregated"

section \<open>Conservation by currency\<close>

definition period_total :: "string \<Rightarrow> (agg_cost \<Rightarrow> decimal) \<Rightarrow> agg_cost list \<Rightarrow> rat" where
  "period_total cur f rs = sum_list (map (\<lambda>a. dec_val (f a)) (filter (\<lambda>a. ac_currency a = cur) rs))"

definition charge_total :: "string \<Rightarrow> (focus_charge \<Rightarrow> decimal) \<Rightarrow> focus_charge list \<Rightarrow> rat" where
  "charge_total cur f cs = sum_list (map (\<lambda>c. dec_val (f c)) (filter (\<lambda>c. fc_currency c = cur) cs))"

lemma period_bucket_Inr:
  assumes "period_bucket (k, rows) = Inr a"
  shows "dsum (map fc_billed rows) = Inr (ac_billed a)" and "dsum (map fc_amortized rows) = Inr (ac_amortized a)"
    and "(ac_account a, ac_start a, ac_end a, ac_currency a) = (case k of (x, s, ps, pe, cur) \<Rightarrow> (x, ps, pe, cur))"
    and "ac_count a = length rows"
  using assms by (auto simp: period_bucket_def rbind_Inr_iff split: prod.splits)

lemma period_rows:
  "aggregate_by_period charges = Inr rs \<longleftrightarrow>
    list_all2 (\<lambda>k a. period_bucket (k, filter (\<lambda>c. period_key c = k) charges) = Inr a) (keys_of period_key charges) rs"
  unfolding aggregate_by_period_def group_by_spec mapM_list_all2 list_all2_map1 ..

lemma period_bucket_currency_total:
  assumes "dsum (map f (filter (\<lambda>c. period_key c = k) cs)) = Inr d" and "fits n (map f cs)"
    and "cur' = (case k of (x, s, ps, pe, cur) \<Rightarrow> cur)"
  shows "(if cur' = cur then dec_val d else 0) =
    sum_list (map (\<lambda>c. if fc_currency c = cur then dec_val (f c) else 0) (filter (\<lambda>c. period_key c = k) cs))"
proof -
  have c: "fc_currency c = cur'" if "c \<in> set (filter (\<lambda>c. period_key c = k) cs)" for c
    using that assms(3) by (auto simp: period_key_def)
  have "dec_val d = sum_list (map (\<lambda>c. dec_val (f c)) (filter (\<lambda>c. period_key c = k) cs))"
    by (rule bucket_total [OF assms(2,1)])
  moreover have "sum_list (map (\<lambda>c. if fc_currency c = cur then dec_val (f c) else 0) (filter (\<lambda>c. period_key c = k) cs)) =
      sum_list (map (\<lambda>c. if cur' = cur then dec_val (f c) else 0) (filter (\<lambda>c. period_key c = k) cs))"
    by (intro arg_cong [where f = sum_list] map_cong) (simp_all add: c)
  ultimately show ?thesis by simp
qed

text \<open>C27: Grouping charges by period conserves the money of every currency apart: when the
  amounts fit in 28 digits, the billed and the amortized totals of the groups labelled with
  a currency are those of the charges billed in it, and no charge is counted twice.\<close>

theorem by_period_conserves_each_currency:
  assumes "aggregate_by_period charges = Inr rs"
    and "fits k (map fc_billed charges)" and "fits k (map fc_amortized charges)"
  shows "period_total cur ac_billed rs = charge_total cur fc_billed charges \<and>
    period_total cur ac_amortized rs = charge_total cur fc_amortized charges \<and>
    sum_list (map ac_count rs) = length charges"
proof -
  let ?b = "\<lambda>k. filter (\<lambda>c. period_key c = k) charges"
  have l: "list_all2 (\<lambda>k a. period_bucket (k, ?b k) = Inr a) (keys_of period_key charges) rs"
    using assms(1) unfolding period_rows .
  have all: "sum_list (map (\<lambda>k. sum_list (map g (?b k))) (keys_of period_key charges)) = sum_list (map g charges)"
    for g :: "focus_charge \<Rightarrow> 'b :: comm_monoid_add"
    by (rule sum_over_keys) simp_all
  have cur: "period_total cur f rs = charge_total cur h charges"
    if fh: "\<And>k a. period_bucket (k, ?b k) = Inr a \<Longrightarrow> dsum (map h (?b k)) = Inr (f a)" and ft: "fits k (map h charges)" for f h
  proof -
    have "period_total cur f rs = sum_list (map (\<lambda>a. if ac_currency a = cur then dec_val (f a) else 0) rs)"
      by (simp add: period_total_def sum_list_map_filter')
    also have "\<dots> = sum_list (map (\<lambda>k. sum_list (map (\<lambda>c. if fc_currency c = cur then dec_val (h c) else 0) (?b k))) (keys_of period_key charges))"
      by (rule list_all2_sum [OF l])
        (rule period_bucket_currency_total [OF fh ft], auto dest: period_bucket_Inr(3) split: prod.splits)
    finally show ?thesis unfolding all by (simp add: charge_total_def sum_list_map_filter')
  qed
  have "sum_list (map ac_count rs) = sum_list (map (\<lambda>k. sum_list (map (\<lambda>c. 1) (?b k))) (keys_of period_key charges))"
    by (rule list_all2_sum [OF l]) (simp add: period_bucket_Inr(4) sum_list_triv)
  also have "\<dots> = sum_list (map (\<lambda>c. 1) charges)" by (rule all)
  also have "\<dots> = length charges" by (simp add: sum_list_triv)
  finally show ?thesis
    using cur [of fc_billed ac_billed] cur [of fc_amortized ac_amortized] assms(2,3)
    by (simp add: period_bucket_Inr(1,2))
qed

lemma by_period_succeeds:
  assumes "fits k (map fc_billed charges)" and "fits k (map fc_amortized charges)"
  shows "\<exists>rs. aggregate_by_period charges = Inr rs"
proof -
  have "\<exists>a. period_bucket (key, filter (\<lambda>c. period_key c = key) charges) = Inr a" for key
    using dsum_exact [OF fits_filter [OF assms(1)]] dsum_exact [OF fits_filter [OF assms(2)]]
    by (cases key) (simp add: period_bucket_def)
  then show ?thesis unfolding aggregate_by_period_def group_by_spec mapM_Inr_iff by auto
qed

theorem by_period_conserves_each_currency_witness:
  "\<exists>rs. aggregate_by_period sample_export = Inr rs \<and> period_total ''EUR'' ac_billed rs = 105 \<and>
    period_total ''USD'' ac_billed rs = 0"
proof -
  obtain rs where rs: "aggregate_by_period sample_export = Inr rs"
    using by_period_succeeds [OF sample_fits] by blast
  have "period_total ''EUR'' ac_billed rs = 105" "period_total ''USD'' ac_billed rs = 0"
    using by_period_conserves_each_currency [OF rs sample_fits]
    by (simp_all add: charge_total_def sample_export_def sample_charge_def)
  then show ?thesis using rs by blast
qed

section \<open>The reference of the tag mode\<close>

type_synonym tag_entry = "tag_key \<times> decimal \<times> decimal"

text \<open>What a charge contributes: one entry per input row, or one for the whole charge.\<close>

definition tag_entries :: "string \<Rightarrow> focus_charge \<Rightarrow> tag_entry list" where
  "tag_entries tkey c = (case (fc_start c, fc_end c) of
     (Some ps, Some pe) \<Rightarrow>
       if fc_row_costs c \<noteq> [] then
         map (\<lambda>(tags, costs). ((fc_account c, dedup_service c, ps, pe, fc_currency c, tag_value_of tkey tags), costs))
           (zip (fc_tags c) (fc_row_costs c))
       else [((fc_account c, dedup_service c, ps, pe, fc_currency c, UNTAGGED), (fc_billed c, fc_amortized c))]
   | _ \<Rightarrow> [])"

definition entry_sum :: "(tag_entry \<Rightarrow> decimal) \<Rightarrow> tag_entry list \<Rightarrow> tag_key \<Rightarrow> decimal" where
  "entry_sum f es k = Dec (sum_list (map (\<lambda>e. dec_val (f e)) (filter (\<lambda>e. fst e = k) es)))"

definition entry_billed :: "tag_entry \<Rightarrow> decimal" where "entry_billed e = fst (snd e)"
definition entry_amortized :: "tag_entry \<Rightarrow> decimal" where "entry_amortized e = snd (snd e)"

text \<open>Every key in the order it is first seen, with the exact sums and the number of the
  entries attributed to it.\<close>

definition attributed :: "tag_entry list \<Rightarrow> (tag_key, decimal \<times> decimal \<times> nat) dict" where
  "attributed es = map (\<lambda>k. (k, (entry_sum entry_billed es k, entry_sum entry_amortized es k,
      length (filter (\<lambda>e. fst e = k) es)))) (keys_of fst es)"

definition entries_fit :: "nat \<Rightarrow> tag_entry list \<Rightarrow> bool" where
  "entries_fit n es = (fits n (map entry_billed es) \<and> fits n (map entry_amortized es))"

lemma entry_sum_snoc:
  assumes "fits n (map f (es @ [e]))"
  shows "dadd (entry_sum f es (fst e)) (f e) = Inr (entry_sum f (es @ [e]) (fst e))"
proof -
  let ?xs = "map f (filter (\<lambda>x. fst x = fst e) es)"
  have f: "fits n (?xs @ [f e])" using fits_filter [OF assms, of "\<lambda>x. fst x = fst e"] by simp
  have g: "on_grid n (f e)" "n \<le> 1000000" using f by (auto simp: fits_def)
  have gs: "on_grid n (Dec (sum_list (map dec_val ?xs)))" using f by (intro on_grid_sum) (simp add: fits_def)
  have "\<bar>sum_list (map dec_val ?xs)\<bar> + \<bar>dec_val (f e)\<bar> \<le> sum_list (map (\<lambda>d. \<bar>dec_val d\<bar>) (?xs @ [f e]))"
    using abs_sum_vals [of ?xs] by simp
  then have "(\<bar>sum_list (map dec_val ?xs)\<bar> + \<bar>dec_val (f e)\<bar>) * 10 ^ n \<le> sum_list (map (\<lambda>d. \<bar>dec_val d\<bar>) (?xs @ [f e])) * 10 ^ n"
    by (intro mult_right_mono) auto
  also have "\<dots> < 10 ^ 28" using f by (simp only: fits_def)
  finally have "dadd (Dec (sum_list (map dec_val ?xs))) (f e) = Inr (Dec (sum_list (map dec_val ?xs) + dec_val (f e)))"
    using dadd_exact [OF gs g(1) _ g(2)] by simp
  then show ?thesis by (simp add: entry_sum_def comp_def)
qed

lemma add_cost_attributed:
  assumes "entries_fit n (es @ [e])"
  shows "add_cost e (attributed es) = Inr (attributed (es @ [e]))"
proof -
  obtain k b a where e: "e = (k, b, a)" by (cases e)
  have fb: "fits n (map entry_billed (es @ [e]))" and fa: "fits n (map entry_amortized (es @ [e]))"
    using assms by (simp_all add: entries_fit_def)
  have none: "filter (\<lambda>x. fst x = k) es = []" if "k \<notin> fst ` set es"
    using that by (auto simp: filter_empty_conv image_iff)
  have g: "get_default (attributed es) k (dzero, dzero, 0) =
      (entry_sum entry_billed es k, entry_sum entry_amortized es k, length (filter (\<lambda>e. fst e = k) es))"
    unfolding attributed_def get_default_def dict_get_map by (simp add: none entry_sum_def)
  have s: "dadd (entry_sum entry_billed es k) b = Inr (entry_sum entry_billed (es @ [e]) k)"
      "dadd (entry_sum entry_amortized es k) a = Inr (entry_sum entry_amortized (es @ [e]) k)"
    using entry_sum_snoc [OF fb] entry_sum_snoc [OF fa] by (simp_all add: e entry_billed_def entry_amortized_def)
  have "add_cost e (attributed es) =
      Inr (dict_set k (entry_sum entry_billed (es @ [e]) k, entry_sum entry_amortized (es @ [e]) k,
        length (filter (\<lambda>e. fst e = k) es) + 1) (attributed es))"
    using g s by (simp add: add_cost_def e)
  also have "\<dots> = Inr (attributed (es @ [e]))"
    unfolding attributed_def dict_set_map [OF distinct_keys_of] keys_of_snoc
    by (auto simp: e entry_sum_def)
  finally show ?thesis .
qed

lemma entries_fit_prefix: "entries_fit n (es @ fs) \<Longrightarrow> entries_fit n es"
proof -
  have "fits n (xs @ ys) \<Longrightarrow> fits n xs" for xs ys
  proof -
    assume f: "fits n (xs @ ys)"
    have "sum_list (map (\<lambda>d. \<bar>dec_val d\<bar>) xs) * 10 ^ n \<le> sum_list (map (\<lambda>d. \<bar>dec_val d\<bar>) (xs @ ys)) * 10 ^ n"
      using abs_vals_nonneg [of ys] by (intro mult_right_mono) auto
    also have "\<dots> < 10 ^ 28" using f by (simp only: fits_def)
    finally show "fits n xs" using f by (simp add: fits_def)
  qed
  then show "entries_fit n (es @ fs) \<Longrightarrow> entries_fit n es" by (auto simp: entries_fit_def)
qed

lemma fold_add_cost:
  "entries_fit n (es @ fs) \<Longrightarrow> foldM add_cost fs (attributed es) = Inr (attributed (es @ fs))"
proof (induction fs arbitrary: es)
  case (Cons f fs)
  have f: "entries_fit n ((es @ [f]) @ fs)" using Cons.prems by simp
  then have "add_cost f (attributed es) = Inr (attributed (es @ [f]))"
    by (intro add_cost_attributed) (rule entries_fit_prefix)
  then show ?case using Cons.IH [OF f] by simp
qed simp

text \<open>A step of the loop adds the entries of its charge to the buckets; the other three
  dictionaries do not matter for them.\<close>

lemma buckets_set_canonical [simp]: "buckets (set_canonical key canonical st) = buckets st"
  by (simp add: set_canonical_def split: option.splits)

lemma add_to_bucket_buckets:
  "rmap buckets (add_to_bucket key b a tags st) = add_cost (key, b, a) (buckets st)"
  by (cases "add_cost (key, b, a) (buckets st)") (simp_all add: add_to_bucket_def)

lemma tag_pair_buckets:
  "rmap buckets (tag_pair_step c ps pe tkey x st) =
    add_cost ((fc_account c, dedup_service c, ps, pe, fc_currency c, tag_value_of tkey (fst x)), snd x) (buckets st)"
  by (cases x; cases "add_cost ((fc_account c, dedup_service c, ps, pe, fc_currency c, tag_value_of tkey (fst x)), snd x) (buckets st)")
    (auto simp: tag_pair_step_def add_to_bucket_def Let_def)

lemma tag_pairs_buckets:
  "rmap buckets (foldM (tag_pair_step c ps pe tkey) xs st) =
    foldM add_cost (map (\<lambda>(tags, costs). ((fc_account c, dedup_service c, ps, pe, fc_currency c, tag_value_of tkey tags), costs)) xs) (buckets st)"
proof (induction xs arbitrary: st)
  case (Cons x xs)
  show ?case
  proof (cases "tag_pair_step c ps pe tkey x st")
    case (Inl e)
    then show ?thesis using tag_pair_buckets [of c ps pe tkey x st, symmetric]
      by (cases x) (simp add: case_prod_unfold)
  next
    case (Inr st')
    then show ?thesis using tag_pair_buckets [of c ps pe tkey x st, symmetric] Cons.IH [of st']
      by (cases x) (simp add: case_prod_unfold)
  qed
qed simp

definition row_costed :: "focus_charge \<Rightarrow> bool" where
  "row_costed c = (length (fc_tags c) = length (fc_row_costs c))"

lemma tag_charge_buckets:
  assumes "row_costed c"
  shows "rmap buckets (tag_charge_step tkey c st) = foldM add_cost (tag_entries tkey c) (buckets st)"
proof -
  let ?st = "if fc_account_name c \<noteq> [] \<and> dict_get (account_names st) (fc_account c) = None
      then st\<lparr>account_names := dict_set (fc_account c) (fc_account_name c) (account_names st)\<rparr> else st"
  have b: "buckets ?st = buckets st" by simp
  show ?thesis
  proof (cases "fc_start c = None \<or> fc_end c = None")
    case True
    then show ?thesis by (auto simp: tag_charge_step_def tag_entries_def Let_def split: option.splits)
  next
    case False
    then obtain ps pe where d: "fc_start c = Some ps" "fc_end c = Some pe" by auto
    show ?thesis
    proof (cases "fc_row_costs c = []")
      case True
      let ?e = "((fc_account c, dedup_service c, ps, pe, fc_currency c, UNTAGGED), (fc_billed c, fc_amortized c))"
      have "fc_tags c = []" using True assms by (simp add: row_costed_def)
      then show ?thesis using True d
        by (cases "add_cost ?e (buckets st)") (auto simp: tag_charge_step_def tag_entries_def Let_def add_to_bucket_def)
    next
      case False
      have "rmap buckets (tag_charge_step tkey c st) = rmap buckets (foldM (tag_pair_step c ps pe tkey) (zip (fc_tags c) (fc_row_costs c)) ?st)"
        using False d assms unfolding tag_charge_step_def row_costed_def Let_def
        by (cases "foldM (tag_pair_step c ps pe tkey) (zip (fc_tags c) (fc_row_costs c)) ?st") simp_all
      then show ?thesis unfolding tag_pairs_buckets b using False d by (simp add: tag_entries_def)
    qed
  qed
qed

lemma tag_loop_buckets:
  assumes "list_all row_costed cs"
  shows "rmap buckets (foldM (tag_charge_step tkey) cs st) = foldM add_cost (concat (map (tag_entries tkey) cs)) (buckets st)"
  using assms
proof (induction cs arbitrary: st)
  case (Cons c cs)
  have c: "rmap buckets (tag_charge_step tkey c st) = foldM add_cost (tag_entries tkey c) (buckets st)"
    using Cons.prems by (intro tag_charge_buckets) simp
  show ?case
  proof (cases "tag_charge_step tkey c st")
    case (Inl e)
    then show ?thesis using c by (simp add: foldM_append flip: c)
  next
    case (Inr st')
    then show ?thesis using c Cons by (simp add: foldM_append flip: c)
  qed
qed simp

lemma tag_result_simps [simp]:
  "ac_billed (tag_result tkey st (k, b, a, n)) = b" "ac_amortized (tag_result tkey st (k, b, a, n)) = a"
  "ac_count (tag_result tkey st (k, b, a, n)) = n"
  "ac_tag_key (tag_result tkey st (k, b, a, n)) = Some tkey"
  by (simp_all add: tag_result_def Let_def split: prod.splits)

text \<open>The bucket an aggregate stands for.\<close>

definition result_key :: "agg_cost \<Rightarrow> tag_key" where
  "result_key a = (ac_account a, ac_service a, the (ac_start a), the (ac_end a), ac_currency a, the (ac_tag_value a))"

lemma result_key_tag_result [simp]: "result_key (tag_result tkey st (k, v)) = k"
  by (cases k; cases v) (simp add: result_key_def tag_result_def Let_def)

text \<open>C14: The tag mode attributes every input row's cost to that row's own tag value: for
  charges whose tag and cost lists are parallel, with amounts that fit in 28 digits, it
  returns one aggregate per account, service, period, currency and tag value, in the order
  first seen, holding exactly the sum of the rows that carry the value; rows without
  the key go to the untagged bucket.\<close>

theorem by_tag_attributes_row_costs:
  assumes "tkey \<noteq> []" and "list_all row_costed charges"
    and "entries_fit n (concat (map (tag_entries tkey) charges))"
  shows "\<exists>rs. aggregate_by_tag tkey charges = Inr rs \<and>
    map (\<lambda>a. (result_key a, (ac_billed a, ac_amortized a, ac_count a))) rs =
      attributed (concat (map (tag_entries tkey) charges)) \<and>
    list_all (\<lambda>a. ac_tag_key a = Some tkey) rs"
proof -
  let ?es = "concat (map (tag_entries tkey) charges)"
  have "rmap buckets (foldM (tag_charge_step tkey) charges empty_tag_state) = foldM add_cost ?es (attributed [])"
    unfolding tag_loop_buckets [OF assms(2)] by (simp add: empty_tag_state_def attributed_def keys_of_def)
  also have "\<dots> = Inr (attributed ?es)" using fold_add_cost [of n "[]" ?es] assms(3) by simp
  finally obtain st where st: "foldM (tag_charge_step tkey) charges empty_tag_state = Inr st"
    and b: "buckets st = attributed ?es" by (auto simp: rmap_Inr_iff)
  let ?rs = "map (tag_result tkey st) (attributed ?es)"
  have "aggregate_by_tag tkey charges = Inr ?rs" using assms(1) st b by (simp add: aggregate_by_tag_def)
  moreover have "map (\<lambda>a. (result_key a, (ac_billed a, ac_amortized a, ac_count a))) ?rs = attributed ?es"
    unfolding map_map by (rule map_idI) (auto simp: comp_def)
  moreover have "list_all (\<lambda>a. ac_tag_key a = Some tkey) ?rs" by (auto simp: list_all_iff)
  ultimately show ?thesis by blast
qed

text \<open>Three euros of \<open>web\<close> and 97 untagged ones in one stored charge: 3 and 97, not 50 and 50.\<close>

definition web_and_untagged :: focus_charge where
  "web_and_untagged = (sample_charge ''rds'' [(''app'', ''web'')] 100)
    \<lparr>fc_tags := [[(''app'', ''web'')], []], fc_row_costs := [(Dec 3, Dec 3), (Dec 97, Dec 97)]\<rparr>"

theorem by_tag_attributes_row_costs_witness:
  "\<exists>rs. aggregate_by_tag ''app'' [web_and_untagged] = Inr rs \<and>
    map (\<lambda>a. (the (ac_tag_value a), ac_billed a)) rs = [(''web'', Dec 3), (UNTAGGED, Dec 97)]"
proof -
  let ?es = "concat (map (tag_entries ''app'') [web_and_untagged])"
  let ?k = "\<lambda>v. (''111'', ''rds'', Date 2026 7 1, Date 2026 7 31, ''EUR'', v)"
  have es: "?es = [(?k ''web'', Dec 3, Dec 3), (?k UNTAGGED, Dec 97, Dec 97)]"
    by (simp add: tag_entries_def web_and_untagged_def sample_charge_def dedup_service_def tag_value_of_def)
  have f: "entries_fit 0 ?es"
    unfolding es by (simp add: entries_fit_def entry_billed_def entry_amortized_def fits_def on_grid_Dec)
  have at: "attributed ?es = [(?k ''web'', Dec 3, Dec 3, 1), (?k UNTAGGED, Dec 97, Dec 97, 1)]"
    unfolding es by (simp add: attributed_def keys_of_def add_new_def entry_sum_def entry_billed_def
        entry_amortized_def UNTAGGED_def)
  have "list_all row_costed [web_and_untagged]" by (simp add: row_costed_def web_and_untagged_def)
  then obtain rs where rs: "aggregate_by_tag ''app'' [web_and_untagged] = Inr rs"
    "map (\<lambda>a. (result_key a, (ac_billed a, ac_amortized a, ac_count a))) rs = attributed ?es"
    using by_tag_attributes_row_costs [of "''app''" "[web_and_untagged]" 0, OF _ _ f] by auto
  have "map (\<lambda>a. (the (ac_tag_value a), ac_billed a)) rs =
      map (\<lambda>((_, _, _, _, _, v), b, _). (v, b)) (map (\<lambda>a. (result_key a, (ac_billed a, ac_amortized a, ac_count a))) rs)"
    by (simp add: result_key_def)
  then show ?thesis using rs at by simp
qed

section \<open>Where the tag mode goes wrong\<close>

text \<open>A charge that has tags but no per-row costs stamps its canonical service on every
  bucket collected so far: the buckets of an unrelated service and account change their
  cross-provider name, which the insight title then shows.\<close>

theorem fallback_overwrites_every_canonical:
  assumes "tag_charge_step tkey c st = Inr st'" and "fc_canonical c = Some s"
    and "fc_row_costs c = []" and "fc_tags c \<noteq> []" and "fc_start c \<noteq> None" and "fc_end c \<noteq> None"
    and "key \<in> fst ` set (buckets st')"
  shows "dict_get (bucket_canonical st') key = Some s"
proof -
  obtain ps pe where d: "fc_start c = Some ps" "fc_end c = Some pe" using assms(5,6) by auto
  obtain st1 where st1: "st' = foldl (\<lambda>st key. set_canonical key (fc_canonical c) st) st1 (map fst (buckets st1))"
    using assms d by (auto simp: tag_charge_step_def Let_def rmap_Inr_iff)
  have b: "buckets (foldl (\<lambda>st key. set_canonical key (fc_canonical c) st) st1 ks) = buckets st1" for ks
    by (induction ks rule: rev_induct) simp_all
  have keep: "key \<in> set ks \<Longrightarrow>
      dict_get (bucket_canonical (foldl (\<lambda>st key. set_canonical key (fc_canonical c) st) st1 ks)) key = Some s" for ks
    by (induction ks rule: rev_induct) (auto simp: set_canonical_def assms(2))
  show ?thesis using assms(7) unfolding st1 b by (intro keep) (auto simp: image_iff)
qed


text \<open>An AWS charge with its costs, then an old one of another service without them.\<close>

theorem fallback_overwrites_every_canonical_witness:
  "\<exists>st st'. tag_charge_step ''app'' ((sample_charge ''s3'' [] 5)\<lparr>fc_canonical := Some ''object_storage''\<rparr>) empty_tag_state = Inr st \<and>
    tag_charge_step ''app'' ((sample_charge ''rds'' [(''app'', ''web'')] 7)
      \<lparr>fc_row_costs := [], fc_canonical := Some ''managed_postgres''\<rparr>) st = Inr st' \<and>
    dict_get (bucket_canonical st) (''111'', ''object_storage'', Date 2026 7 1, Date 2026 7 31, ''EUR'', UNTAGGED) = Some ''object_storage'' \<and>
    dict_get (bucket_canonical st') (''111'', ''object_storage'', Date 2026 7 1, Date 2026 7 31, ''EUR'', UNTAGGED) = Some ''managed_postgres''"
proof -
  let ?k = "(''111'', ''object_storage'', Date 2026 7 1, Date 2026 7 31, ''EUR'', UNTAGGED)"
  let ?c = "(sample_charge ''rds'' [(''app'', ''web'')] 7)\<lparr>fc_row_costs := [], fc_canonical := Some ''managed_postgres''\<rparr>"
  have a: "dadd (Dec 0) (Dec x) = Inr (Dec x)" if "x \<in> {5, 7}" for x
    using that by (subst dadd_exact [of 0]) (auto simp: on_grid_Dec)
  have w: "ddiv 1 1 = Inr (Dec 1)" "dmul (Dec 7) (Dec 1) = Inr (Dec 7)"
    using dround_exact [of 0 1] dround_exact [of 0 7]
    by (simp_all add: ddiv_def dmul_def with_nans_def on_grid_Dec)
  let ?st = "\<lparr>buckets = [(?k, Dec 5, Dec 5, 1)], bucket_tags = [(?k, [[]])],
      bucket_canonical = [(?k, ''object_storage'')], account_names = [(''111'', ''prod'')]\<rparr>"
  have s1: "tag_charge_step ''app'' ((sample_charge ''s3'' [] 5)\<lparr>fc_canonical := Some ''object_storage''\<rparr>) empty_tag_state = Inr ?st"
    by (simp add: tag_charge_step_def sample_charge_def empty_tag_state_def tag_pair_step_def tag_value_of_def row_tags_kept_def
        add_to_bucket_def add_cost_def get_default_def a bucket_add_def set_canonical_def dedup_service_def Let_def)
  have "\<exists>st'. tag_charge_step ''app'' ?c ?st = Inr st' \<and> ?k \<in> fst ` set (buckets st')"
    by (simp add: tag_charge_step_def sample_charge_def attribute_row_count_def count_tag_values_def get_default_def
        w add_to_bucket_def add_cost_def a bucket_add_def set_canonical_def UNTAGGED_def Let_def)
  then obtain st' where s2: "tag_charge_step ''app'' ?c ?st = Inr st'" "?k \<in> fst ` set (buckets st')" by blast
  have "dict_get (bucket_canonical st') ?k = Some ''managed_postgres''"
    by (rule fallback_overwrites_every_canonical [OF s2(1) _ _ _ _ _ s2(2)]) (simp_all add: sample_charge_def)
  then show ?thesis using s1 s2(1) by fastforce
qed

text \<open>The row-count fallback gives the untagged rows of a charge nothing: one tagged row out
  of two takes the whole cost. It also keys its buckets by the native service, apart from
  the canonical buckets of the other charges.\<close>

lemma fallback_drops_untagged_rows:
  "\<exists>st. tag_charge_step ''app'' (web_and_untagged\<lparr>fc_row_costs := [], fc_canonical := Some ''managed_postgres''\<rparr>) empty_tag_state = Inr st \<and>
    map (\<lambda>((_, service, _, _, _, v), b, _). (service, v, b)) (buckets st) = [(''rds'', ''web'', Dec 100)]"
proof -
  have a: "dadd (Dec 0) (Dec 100) = Inr (Dec 100)"
    by (subst dadd_exact [of 0]) (auto simp: on_grid_Dec)
  have w: "ddiv 1 1 = Inr (Dec 1)" "dmul (Dec 100) (Dec 1) = Inr (Dec 100)"
    using dround_exact [of 0 1] dround_exact [of 0 100]
    by (simp_all add: ddiv_def dmul_def with_nans_def on_grid_Dec)
  show ?thesis
    by (simp add: tag_charge_step_def web_and_untagged_def sample_charge_def attribute_row_count_def count_tag_values_def
        get_default_def w add_to_bucket_def add_cost_def a bucket_add_def set_canonical_def empty_tag_state_def Let_def)
qed

section \<open>The insights\<close>

definition insight_of :: "agg_cost \<Rightarrow> insight \<Rightarrow> bool" where
  "insight_of a i = (ins_rule i = RULE_NAME \<and> ins_severity i = INFO \<and> ins_resource i = None \<and>
     ins_account i = Some (ac_account a) \<and>
     pget (ins_payload i) ''billing_currency'' = PStr (ac_currency a) \<and>
     pget (ins_payload i) ''charge_count'' = PInt (int (ac_count a)) \<and>
     (\<exists>b m. ac_billed a = Dec b \<and> ac_amortized a = Dec m \<and>
       pget (ins_payload i) ''billed_cost_usd'' = PFloat (fl b) \<and>
       pget (ins_payload i) ''amortized_cost_usd'' = PFloat (fl m)))"

lemma dec_float_Inr: "dec_float d = Inr x \<Longrightarrow> \<exists>r. d = Dec r \<and> x = fl r"
  by (auto simp: dec_float_def split: decimal.splits if_splits)

lemma build_insight_of: "build_insight plabel a = Inr i \<Longrightarrow> insight_of a i"
  unfolding build_insight_def rbind_Inr_iff Let_def insight_of_def
  by (elim exE conjE) (drule dec_float_Inr, drule dec_float_Inr, auto)

text \<open>The chargeback insights are one per aggregate, in order: always informational and
  about an account, carrying the aggregate's currency and charge count and the correctly
  rounded floats of its two costs; an aggregate whose cost is not a finite number yields no
  insight.\<close>

theorem chargeback_insights_report_aggregates:
  assumes "build_insights plabel rs = Inr is"
  shows "list_all2 insight_of rs is"
  using assms unfolding build_insights_def mapM_list_all2
  by (rule list_all2_mono) (rule build_insight_of)


definition sample_agg :: agg_cost where
  "sample_agg = \<lparr>ac_account = ''111'', ac_service = ''rds'', ac_billed = Dec 100, ac_amortized = Dec 120, ac_count = 2,
    ac_start = Some (Date 2026 7 1), ac_end = Some (Date 2026 7 31), ac_tags = [], ac_tag_key = None, ac_tag_value = None,
    ac_account_name = [], ac_currency = ''EUR'', ac_canonical = None\<rparr>"

theorem chargeback_insights_report_aggregates_witness:
  "\<exists>i. build_insights [] [sample_agg] = Inr [i] \<and> insight_of sample_agg i \<and>
    ins_title i = ''rds on 111 (2026-07-01 '' @ arrow @ '' 2026-07-31): amortized up by EUR 20.00''"
proof -
  have d: "drift_amortized_minus_billed sample_agg = Inr (Dec 20)"
  proof -
    have "dadd (Dec 120) (Dec (- 100)) = Inr (Dec 20)"
      by (subst dadd_exact [of 0]) (simp_all add: on_grid_Dec)
    then show ?thesis by (simp add: drift_amortized_minus_billed_def sample_agg_def dsub_def)
  qed
  have f: "dec_float (Dec 20) = Inr 20" "dec_float (Dec 100) = Inr 100" "dec_float (Dec 120) = Inr 120"
  proof -
    have e: "fl 20 = 20" "fl 100 = 100" "fl 120 = 120"
      using fl_of_int [of 20] fl_of_int [of 100] fl_of_int [of 120] by simp_all
    have "(2 :: rat) ^ 7 \<le> 2 ^ 1024" by (rule power_increasing) simp_all
    then have p: "120 < pow2 1024" unfolding pow2_def by simp
    show "dec_float (Dec 20) = Inr 20" "dec_float (Dec 100) = Inr 100" "dec_float (Dec 120) = Inr 120"
      using p by (simp_all add: dec_float_def e)
  qed
  have l: "period_label sample_agg = ''2026-07-01 '' @ arrow @ '' 2026-07-31''"
    by (simp add: period_label_def sample_agg_def) code_simp
  have t: "dabs_fmt2 (Dec 20) = ''20.00''" by code_simp
  obtain i where i: "build_insight [] sample_agg = Inr i"
      "ins_title i = ''rds on 111 ('' @ period_label sample_agg @ ''): amortized up by EUR 20.00''"
    unfolding build_insight_def d
    by (simp add: dpos_def dminus_def sample_agg_def display_service_def f t Let_def)
  have "build_insights [] [sample_agg] = Inr [i]" using i(1) by (simp add: build_insights_def)
  then show ?thesis
    using chargeback_insights_report_aggregates [of "[]" "[sample_agg]" "[i]"] i(2) l by simp
qed

end
