(* ===== verification/FocusStore.thy ===== *)
theory FocusStore
  imports Store Chargeback
begin

text \<open>
  The stored FOCUS charges: the upsert of an aggregated export
  (\<open>repositories/focus_charges.py\<close>), the loaders that rebuild the per-row tags and costs for the
  chargeback run (\<open>insights/runner.py\<close>), the ingestion of a file (\<open>cli/focus.py\<close>) and the
  coverage report (\<open>repositories/focus_coverage.py\<close>).

  \<open>numeric\<close> is the conversion to a \<open>Numeric\<close> column and back, a parameter. A new row gets the
  successor of the largest id.
\<close>

section \<open>Storing an aggregate\<close>

definition agg_dedup :: "agg_charge \<Rightarrow> string" where
  "agg_dedup a = (case ag_canonical a of None \<Rightarrow> ag_service a | Some s \<Rightarrow> s)"

definition row_dedup :: "focus_row \<Rightarrow> string" where
  "row_dedup r = (case fo_canonical r of None \<Rightarrow> fo_service r | Some s \<Rightarrow> s)"

definition same_charge :: "uuid \<Rightarrow> agg_charge \<Rightarrow> focus_row \<Rightarrow> bool" where
  "same_charge account a r = (fo_account r = account \<and> row_dedup r = agg_dedup a \<and>
     ag_start a = Some (fo_start r) \<and> ag_end a = Some (fo_end r))"

definition next_id :: "focus_row list \<Rightarrow> nat" where
  "next_id rows = Suc (foldr max (map fo_id rows) 0)"

definition tag_rows_of :: "(decimal \<Rightarrow> decimal) \<Rightarrow> nat \<Rightarrow> (decimal \<times> decimal) list \<Rightarrow> nat \<times> str_dict \<Rightarrow> focus_tag_row list" where
  "tag_rows_of numeric charge costs = (\<lambda>(i, d).
     let (billed, amortized) = (if i < length costs then costs ! i else (dzero, dzero)) in
     map (\<lambda>(k, v). \<lparr>ft_charge = charge, ft_key = k, ft_value = v, ft_index = i,
       ft_billed = numeric billed, ft_amortized = numeric amortized\<rparr>) d)"

definition write_per_row_tags ::
    "(decimal \<Rightarrow> decimal) \<Rightarrow> nat \<Rightarrow> str_dict list \<Rightarrow> (decimal \<times> decimal) list \<Rightarrow> focus_tag_row list \<Rightarrow> focus_tag_row list" where
  "write_per_row_tags numeric charge tags costs rows =
    (if tags = [] then rows
     else filter (\<lambda>r. ft_charge r \<noteq> charge) rows @ concat (map (tag_rows_of numeric charge costs) (enumerate 0 tags)))"

definition refresh_charge :: "(decimal \<Rightarrow> decimal) \<Rightarrow> agg_charge \<Rightarrow> focus_row \<Rightarrow> focus_row" where
  "refresh_charge numeric a r = r\<lparr>fo_billed := numeric (ag_billed a), fo_amortized := numeric (ag_amortized a),
     fo_count := ag_count a, fo_region := ag_region a, fo_pricing := ag_pricing a, fo_resource := ag_resource a,
     fo_sub_account := ag_sub_account a, fo_tags := ag_tags a, fo_currency := ag_currency a, fo_canonical := ag_canonical a\<rparr>"

definition new_charge :: "(decimal \<Rightarrow> decimal) \<Rightarrow> nat \<Rightarrow> uuid \<Rightarrow> agg_charge \<Rightarrow> date \<Rightarrow> date \<Rightarrow> instant \<Rightarrow> focus_row" where
  "new_charge numeric i account a ps pe t =
    \<lparr>fo_id = i, fo_account = account, fo_start = ps, fo_end = pe, fo_service = ag_service a, fo_canonical = ag_canonical a,
     fo_region = ag_region a, fo_pricing = ag_pricing a, fo_billed = numeric (ag_billed a), fo_amortized = numeric (ag_amortized a),
     fo_resource = ag_resource a, fo_sub_account = ag_sub_account a, fo_tags = ag_tags a, fo_count = ag_count a,
     fo_currency = ag_currency a, fo_ingested = t\<rparr>"

text \<open>One iteration: the flag says whether a row was inserted. A null period cannot be stored.\<close>

definition upsert_charge :: "(decimal \<Rightarrow> decimal) \<Rightarrow> uuid \<Rightarrow> agg_charge \<Rightarrow> world \<Rightarrow> bool res \<times> world" where
  "upsert_charge numeric account a w =
    (let write = (\<lambda>i. with_focus_tags (write_per_row_tags numeric i (ag_row_tags a) (ag_row_costs a))) in
     case filter (same_charge account a) (t_focus (w_db w)) of
       [] \<Rightarrow> (case (ag_start a, ag_end a) of
           (Some ps, Some pe) \<Rightarrow>
             let i = next_id (t_focus (w_db w)) in
             (Inr True, write i (with_focus (\<lambda>rs. rs @ [new_charge numeric i account a ps pe (w_begin w)]) w))
         | _ \<Rightarrow> (Inl IntegrityError, w))
     | [r] \<Rightarrow> (Inr False, write (fo_id r) (with_focus (update_where (\<lambda>x. fo_id x = fo_id r) (refresh_charge numeric a)) w))
     | _ \<Rightarrow> (Inl (RuntimeError ''MultipleResultsFound''), w))"

fun upsert_aggregated :: "(decimal \<Rightarrow> decimal) \<Rightarrow> uuid \<Rightarrow> agg_charge list \<Rightarrow> nat \<times> nat \<Rightarrow> world \<Rightarrow> (nat \<times> nat) res \<times> world" where
  "upsert_aggregated numeric account [] n w = (Inr n, w)"
| "upsert_aggregated numeric account (a # as) (ins, upd) w =
    (case upsert_charge numeric account a w of
       (Inl e, w) \<Rightarrow> (Inl e, w)
     | (Inr new, w) \<Rightarrow> upsert_aggregated numeric account as (if new then (Suc ins, upd) else (ins, Suc upd)) w)"

definition count_charges :: "uuid option \<Rightarrow> db \<Rightarrow> nat" where
  "count_charges account d = length (filter (\<lambda>r. pred_option ((=) (fo_account r)) account) (t_focus d))"

section \<open>Loading it again\<close>

definition rows_of_charge :: "nat \<Rightarrow> focus_tag_row list \<Rightarrow> focus_tag_row list" where
  "rows_of_charge charge rows = filter (\<lambda>r. ft_charge r = charge) rows"

definition row_count :: "focus_tag_row list \<Rightarrow> nat" where
  "row_count rows = (case rows of [] \<Rightarrow> 0 | _ \<Rightarrow> Suc (foldr max (map ft_index rows) 0))"

text \<open>The dictionaries of the input rows up to the largest index; a row without any entry is empty.\<close>

definition tags_of_charge :: "focus_tag_row list \<Rightarrow> str_dict list" where
  "tags_of_charge rows = map (\<lambda>i. dict_of (map (\<lambda>r. (ft_key r, ft_value r)) (filter (\<lambda>r. ft_index r = i) rows))) [0..<row_count rows]"

definition costs_of_charge :: "focus_tag_row list \<Rightarrow> (decimal \<times> decimal) list" where
  "costs_of_charge rows = map (\<lambda>i. case find (\<lambda>r. ft_index r = i) rows of
     None \<Rightarrow> (dzero, dzero) | Some r \<Rightarrow> (ft_billed r, ft_amortized r)) [0..<row_count rows]"

definition load_per_row_tags_for :: "db \<Rightarrow> nat list \<Rightarrow> (nat, str_dict list) dict" where
  "load_per_row_tags_for d ids = map (\<lambda>c. (c, tags_of_charge (rows_of_charge c (t_focus_tags d)))) ids"

definition load_per_row_costs_for :: "db \<Rightarrow> nat list \<Rightarrow> (nat, (decimal \<times> decimal) list) dict" where
  "load_per_row_costs_for d ids = map (\<lambda>c. (c, costs_of_charge (rows_of_charge c (t_focus_tags d)))) ids"

text \<open>\<open>_focus_charge_to_pydantic\<close>.\<close>

definition charge_of_row :: "str_dict list option \<Rightarrow> (decimal \<times> decimal) list option \<Rightarrow> string \<Rightarrow> focus_row \<Rightarrow> focus_charge" where
  "charge_of_row tags costs account_name r =
    \<lparr>fc_account = uuid_str (fo_account r), fc_account_name = account_name, fc_service = fo_service r, fc_region = fo_region r,
     fc_pricing = fo_pricing r, fc_start = Some (fo_start r), fc_end = Some (fo_end r), fc_billed = fo_billed r,
     fc_amortized = fo_amortized r, fc_resource = fo_resource r, fc_sub_account = fo_sub_account r,
     fc_tags = (case tags of None \<Rightarrow> fo_tags r | Some ts \<Rightarrow> ts), fc_currency = fo_currency r,
     fc_row_costs = (case costs of None \<Rightarrow> [] | Some cs \<Rightarrow> cs), fc_canonical = fo_canonical r\<rparr>"

section \<open>Ingesting a file\<close>

record ingest_result =
  ig_total :: int
  ig_read :: nat
  ig_skipped :: nat
  ig_inserted :: nat
  ig_updated :: nat

text \<open>\<open>ingest_focus_file\<close> on the rows the reader delivers: \<open>rows_total\<close> is the number of data lines,
  \<open>-1\<close> when it is unknown.\<close>

definition ingest_focus_rows ::
    "(decimal \<Rightarrow> decimal) \<Rightarrow> native_index \<Rightarrow> int \<Rightarrow> string list option \<Rightarrow> csv_row list \<Rightarrow> string \<Rightarrow> string option \<Rightarrow> world \<Rightarrow>
     ingest_result res \<times> world" where
  "ingest_focus_rows numeric catalog rows_total fieldnames rows account name w =
    (case load_focus_csv catalog None fieldnames rows of
       Inl e \<Rightarrow> (Inl e, w)
     | Inr loaded \<Rightarrow>
       (case aggregate_for_storage (lr_charges loaded) of
          Inl e \<Rightarrow> (Inl e, w)
        | Inr aggregated \<Rightarrow>
          (let n_read = length (lr_charges loaded);
               skipped = (if rows_total < 0 then length (lr_skipped loaded) else nat (max 0 (rows_total - int n_read)));
               (a, w) = get_or_create account name w
           in case upsert_aggregated numeric (ac_id a) aggregated (0, 0) w of
                (Inl e, w) \<Rightarrow> (Inl e, w)
              | (Inr (ins, upd), w) \<Rightarrow>
                  (Inr \<lparr>ig_total = rows_total, ig_read = n_read, ig_skipped = skipped, ig_inserted = ins, ig_updated = upd\<rparr>,
                   commit w))))"

section \<open>Coverage\<close>

definition STALE_AFTER_DAYS :: int where
  "STALE_AFTER_DAYS = 45"

record account_coverage =
  cv_account :: uuid
  cv_periods :: "(date \<times> date) list"
  cv_covered :: nat
  cv_missing :: "string list"
  cv_stale :: bool
  cv_first :: date
  cv_last :: date

definition month_label :: "int \<times> int \<Rightarrow> string" where
  "month_label = (\<lambda>(y, m). pad0 4 (str_of_nat (nat y)) @ ''-'' @ nat_str2 m)"

definition next_month :: "int \<times> int \<Rightarrow> int \<times> int" where
  "next_month = (\<lambda>(y, m). if m + 1 = 13 then (y + 1, 1) else (y, m + 1))"

text \<open>\<open>_month_labels\<close> on months of dates, 1 to 12: the loop stops behind the last month.\<close>

function month_labels :: "int \<times> int \<Rightarrow> int \<times> int \<Rightarrow> string list" where
  "month_labels ym final = (if ym \<le> final \<and> snd ym \<le> 12 then month_label ym # month_labels (next_month ym) final else [])"
  by pat_completeness auto
termination
  by (relation "measure (\<lambda>(ym, final). nat (12 * fst final + max (snd final) 12 + 1 - (12 * fst ym + snd ym)))")
    (auto simp: next_month_def less_eq_prod_def split: prod.splits)

declare month_labels.simps [simp del]

definition month_of :: "date \<Rightarrow> int \<times> int" where
  "month_of d = (year d, month d)"

definition coverage_of :: "date \<Rightarrow> uuid \<Rightarrow> (date \<times> date) list \<Rightarrow> account_coverage" where
  "coverage_of today account periods =
    (let covered = remdups (map (\<lambda>p. month_label (month_of (fst p))) periods);
         first_start = fst (hd periods);
         last_end = Max (set (map snd periods));
         expected = month_labels (month_of first_start) (month_of (fst (last periods)))
     in \<lparr>cv_account = account, cv_periods = periods, cv_covered = length covered,
         cv_missing = filter (\<lambda>l. l \<notin> set covered) expected, cv_stale = STALE_AFTER_DAYS < days_between today last_end,
         cv_first = first_start, cv_last = last_end\<rparr>)"

definition compute_focus_coverage :: "date \<Rightarrow> db \<Rightarrow> account_coverage list" where
  "compute_focus_coverage today d =
    map (\<lambda>a. coverage_of today a (sorted_list_of_set (set (map (\<lambda>r. (fo_start r, fo_end r)) (filter (\<lambda>r. fo_account r = a) (t_focus d))))))
      (sort_key uuid_str (remdups (map fo_account (t_focus d))))"

section \<open>What is loaded again\<close>

text \<open>The number of input rows up to the last one with a tag.\<close>

definition last_tagged :: "str_dict list \<Rightarrow> nat" where
  "last_tagged tags = length (dropWhile (\<lambda>d. d = []) (rev tags))"

lemma last_tagged_snoc [simp]:
  "last_tagged [] = 0" "last_tagged (tags @ [d]) = (if d = [] then last_tagged tags else Suc (length tags))"
  by (simp_all add: last_tagged_def)

lemma last_tagged_le: "last_tagged tags \<le> length tags"
  by (metis last_tagged_def length_dropWhile_le length_rev)

definition tag_rows :: "(decimal \<Rightarrow> decimal) \<Rightarrow> nat \<Rightarrow> (decimal \<times> decimal) list \<Rightarrow> str_dict list \<Rightarrow> focus_tag_row list" where
  "tag_rows numeric charge costs tags = concat (map (tag_rows_of numeric charge costs) (enumerate 0 tags))"

lemma tag_rows_of_charge: "r \<in> set (tag_rows_of numeric i costs p) \<Longrightarrow> ft_charge r = i"
  by (cases p) (auto simp: tag_rows_of_def split: prod.splits)

lemma rows_of_written:
  "tags \<noteq> [] \<Longrightarrow> rows_of_charge i (write_per_row_tags numeric i tags costs rows) = tag_rows numeric i costs tags"
proof -
  assume "tags \<noteq> []"
  moreover have "filter (\<lambda>r. ft_charge r = i) (tag_rows numeric i costs tags) = tag_rows numeric i costs tags"
    by (rule filter_True) (auto simp: tag_rows_def dest: tag_rows_of_charge)
  ultimately show ?thesis
    by (simp add: write_per_row_tags_def rows_of_charge_def tag_rows_def)
qed

lemma tag_rows_snoc:
  "tag_rows numeric i costs (tags @ [d]) = tag_rows numeric i costs tags @ tag_rows_of numeric i costs (length tags, d)"
  by (simp add: tag_rows_def enumerate_append_eq)

lemma tag_rows_of_index: "r \<in> set (tag_rows_of numeric i costs (k, d)) \<Longrightarrow> ft_index r = k"
  by (auto simp: tag_rows_of_def split: prod.splits)

lemma tag_rows_of_Nil [simp]: "tag_rows_of numeric i costs (k, d) = [] \<longleftrightarrow> d = []"
  by (simp add: tag_rows_of_def split: prod.splits)

lemma tag_rows_index: "r \<in> set (tag_rows numeric i costs tags) \<Longrightarrow> ft_index r < length tags"
  by (auto simp: tag_rows_def in_set_enumerate_eq dest: tag_rows_of_index)

lemma foldr_max: "foldr max xs (k::nat) = max (foldr max xs 0) k"
  by (induction xs) auto

lemma foldr_max_le: "(\<And>x. x \<in> set xs \<Longrightarrow> x \<le> k) \<Longrightarrow> foldr max xs (0::nat) \<le> k"
  by (induction xs) auto

lemma foldr_max_ge: "x \<in> set xs \<Longrightarrow> x \<le> foldr max xs (0::nat)"
  by (induction xs) auto

lemma row_count_alt: "row_count rows = (if rows = [] then 0 else Suc (foldr max (map ft_index rows) 0))"
  by (simp add: row_count_def split: list.split)

lemma row_count_tag_rows: "row_count (tag_rows numeric i costs tags) = last_tagged tags"
proof (induction tags rule: rev_induct)
  case Nil
  then show ?case by (simp add: tag_rows_def row_count_def)
next
  case (snoc d tags)
  show ?case
  proof (cases "d = []")
    case True
    then have "tag_rows numeric i costs (tags @ [d]) = tag_rows numeric i costs tags" by (simp add: tag_rows_snoc)
    then show ?thesis using snoc True by simp
  next
    case False
    let ?new = "tag_rows_of numeric i costs (length tags, d)"
    have new: "?new \<noteq> []" using False by simp
    have "foldr max (map ft_index ?new) 0 \<le> length tags"
      by (intro foldr_max_le) (auto dest: tag_rows_of_index)
    moreover have "length tags \<le> foldr max (map ft_index ?new) 0"
      using new by (intro foldr_max_ge) (metis hd_in_set image_eqI list.set_map tag_rows_of_index)
    moreover have "foldr max (map ft_index (tag_rows numeric i costs tags)) 0 \<le> length tags"
      by (intro foldr_max_le) (auto dest: tag_rows_index)
    moreover note foldr_max [of "map ft_index (tag_rows numeric i costs tags)" "length tags"]
    ultimately show ?thesis using False new by (simp add: row_count_alt tag_rows_snoc)
  qed
qed

lemma filter_tag_rows:
  "k < length tags \<Longrightarrow> filter (\<lambda>r. ft_index r = k) (tag_rows numeric i costs tags) = tag_rows_of numeric i costs (k, tags ! k)"
proof (induction tags rule: rev_induct)
  case (snoc d tags)
  have all: "filter (\<lambda>r. ft_index r = k) (tag_rows_of numeric i costs (length tags, d)) =
      (if k = length tags then tag_rows_of numeric i costs (length tags, d) else [])"
    by (auto intro!: filter_True filter_False dest: tag_rows_of_index)
  show ?case
  proof (cases "k = length tags")
    case True
    have "filter (\<lambda>r. ft_index r = k) (tag_rows numeric i costs tags) = []"
      using True by (auto intro!: filter_False dest: tag_rows_index)
    then show ?thesis using True all by (simp add: tag_rows_snoc)
  next
    case False
    then show ?thesis using snoc all by (simp add: tag_rows_snoc nth_append)
  qed
qed simp

lemma dict_of_wf: "dict_wf d \<Longrightarrow> dict_of d = d"
proof (induction d rule: rev_induct)
  case (snoc x d)
  obtain k v where x: "x = (k, v)" by (cases x)
  have "dict_of (d @ [x]) = dict_set k v (dict_of d)" by (simp add: dict_of_def dict_update_def x)
  moreover have "k \<notin> set (dict_keys d)" "dict_wf d" using snoc.prems x by (auto simp: dict_wf_def dict_keys_def)
  moreover have "dict_set k v e = e @ [(k, v)]" if "k \<notin> set (dict_keys e)" for e
    using that by (induction e) (auto simp: dict_keys_def)
  ultimately show ?case using snoc x by simp
qed (simp add: dict_of_def dict_update_def)

lemma tags_loaded:
  assumes "\<forall>d\<in>set tags. dict_wf d"
  shows "tags_of_charge (tag_rows numeric i costs tags) = take (last_tagged tags) tags"
proof (rule nth_equalityI)
  show "length (tags_of_charge (tag_rows numeric i costs tags)) = length (take (last_tagged tags) tags)"
    using last_tagged_le [of tags] by (simp add: tags_of_charge_def row_count_tag_rows)
next
  fix k assume "k < length (tags_of_charge (tag_rows numeric i costs tags))"
  then have k: "k < last_tagged tags" "k < length tags"
    using last_tagged_le [of tags] by (simp_all add: tags_of_charge_def row_count_tag_rows)
  have "map (\<lambda>r. (ft_key r, ft_value r)) (tag_rows_of numeric i costs (k, tags ! k)) = tags ! k"
    by (simp add: tag_rows_of_def comp_def case_prod_unfold Let_def)
  then show "tags_of_charge (tag_rows numeric i costs tags) ! k = take (last_tagged tags) tags ! k"
    using k assms by (simp add: tags_of_charge_def row_count_tag_rows filter_tag_rows dict_of_wf)
qed

text \<open>The costs that come back: zero for a row without tags.\<close>

definition kept_cost :: "(decimal \<Rightarrow> decimal) \<Rightarrow> str_dict \<times> (decimal \<times> decimal) \<Rightarrow> decimal \<times> decimal" where
  "kept_cost numeric = (\<lambda>(d, c). if d = [] then (dzero, dzero) else (numeric (fst c), numeric (snd c)))"

lemma find_filter_hd: "find P xs = (case filter P xs of [] \<Rightarrow> None | x # _ \<Rightarrow> Some x)"
  by (induction xs) auto

lemma costs_loaded:
  assumes "length costs = length tags"
  shows "costs_of_charge (tag_rows numeric i costs tags) = map (kept_cost numeric) (take (last_tagged tags) (zip tags costs))"
proof (rule nth_equalityI)
  show "length (costs_of_charge (tag_rows numeric i costs tags)) = length (map (kept_cost numeric) (take (last_tagged tags) (zip tags costs)))"
    using last_tagged_le [of tags] assms by (simp add: costs_of_charge_def row_count_tag_rows)
next
  fix k assume "k < length (costs_of_charge (tag_rows numeric i costs tags))"
  then have k: "k < last_tagged tags" "k < length tags"
    using last_tagged_le [of tags] by (simp_all add: costs_of_charge_def row_count_tag_rows)
  have "(case find (\<lambda>r. ft_index r = k) (tag_rows numeric i costs tags) of None \<Rightarrow> (dzero, dzero) | Some r \<Rightarrow> (ft_billed r, ft_amortized r)) =
      kept_cost numeric (tags ! k, costs ! k)"
    using k assms by (cases "tags ! k") (auto simp: find_filter_hd filter_tag_rows kept_cost_def tag_rows_of_def split: prod.splits)
  then show "costs_of_charge (tag_rows numeric i costs tags) ! k = map (kept_cost numeric) (take (last_tagged tags) (zip tags costs)) ! k"
    using k assms by (simp add: costs_of_charge_def row_count_tag_rows)
qed

lemma filter_eq_member: "filter P xs = r # rs \<Longrightarrow> r \<in> set xs \<and> P r"
  by (auto simp: filter_eq_Cons_iff)

lemma upsert_charge_writes:
  assumes "upsert_charge numeric account a w = (Inr new, w')"
  obtains r where "r \<in> set (t_focus (w_db w'))" and "fo_account r = account" and "fo_billed r = numeric (ag_billed a)"
    and "t_focus_tags (w_db w') = write_per_row_tags numeric (fo_id r) (ag_row_tags a) (ag_row_costs a) (t_focus_tags (w_db w))"
proof (cases "filter (same_charge account a) (t_focus (w_db w))")
  case Nil
  then obtain ps pe where "ag_start a = Some ps" "ag_end a = Some pe"
    using assms by (auto simp: upsert_charge_def Let_def split: option.splits)
  then show thesis using that [of "new_charge numeric (next_id (t_focus (w_db w))) account a ps pe (w_begin w)"] assms Nil
    by (auto simp: upsert_charge_def Let_def new_charge_def with_focus_def with_focus_tags_def)
next
  case (Cons r rs)
  then have one: "rs = []" using assms by (auto simp: upsert_charge_def Let_def split: list.splits)
  have r: "r \<in> set (t_focus (w_db w))" "fo_account r = account"
    using filter_eq_member [OF Cons] by (simp_all add: same_charge_def)
  show thesis
    using that [of "refresh_charge numeric a r"] assms Cons one r
    by (auto simp: upsert_charge_def Let_def refresh_charge_def with_focus_def with_focus_tags_def set_update_where)
qed


definition mixed_charge :: agg_charge where
  "mixed_charge = \<lparr>ag_service = ''Amazon EC2'', ag_start = Some (Date 2026 6 1), ag_end = Some (Date 2026 6 30), ag_billed = Dec 100,
     ag_amortized = Dec 100, ag_count = 2, ag_region = None, ag_pricing = None, ag_resource = None, ag_sub_account = None,
     ag_tags = [[(''app'', ''web'')]], ag_row_tags = [[(''app'', ''web'')], []], ag_row_costs = [(Dec 3, Dec 3), (Dec 97, Dec 97)],
     ag_currency = ''USD'', ag_canonical = None\<rparr>"

definition plain_world :: world where
  "plain_world = \<lparr>w_db = empty_db, w_saved = empty_db, w_clock = int, w_tick = 0, w_uuids = of_nat, w_next = 0, w_begin = 0\<rparr>"


section \<open>Ingesting the same export again\<close>

text \<open>The keys of the table: distinct ids, and tag rows that belong to a charge.\<close>

definition focus_ok :: "db \<Rightarrow> bool" where
  "focus_ok d = (distinct (map fo_id (t_focus d)) \<and> (\<forall>t\<in>set (t_focus_tags d). ft_charge t \<in> set (map fo_id (t_focus d))))"

lemma next_id_fresh: "r \<in> set rows \<Longrightarrow> fo_id r < next_id rows"
  by (auto simp: next_id_def less_Suc_eq_le intro!: foldr_max_ge)

lemma refresh_same_charge:
  "same_charge account a r \<Longrightarrow> fo_service r = ag_service a \<or> ag_canonical a \<noteq> None \<Longrightarrow> same_charge account a (refresh_charge numeric a r)"
  by (auto simp: same_charge_def refresh_charge_def row_dedup_def agg_dedup_def split: option.splits)

lemma refresh_twice: "refresh_charge numeric a (refresh_charge numeric a r) = refresh_charge numeric a r"
  by (simp add: refresh_charge_def)

lemma write_twice: "write_per_row_tags numeric i tags costs (write_per_row_tags numeric i tags costs rows) = write_per_row_tags numeric i tags costs rows"
proof -
  have "filter (\<lambda>r. ft_charge r \<noteq> i) (tag_rows numeric i costs tags) = []"
    by (rule filter_False) (auto simp: tag_rows_def dest: tag_rows_of_charge)
  then show ?thesis by (simp add: write_per_row_tags_def tag_rows_def)
qed


lemma filter_same_after:
  assumes "distinct (map fo_id rows)" and "filter P rows = [r]" and "P (f r)"
  shows "filter P (update_where (\<lambda>x. fo_id x = fo_id r) f rows) = [f r]"
  using assms
proof (induction rows)
  case (Cons x rows)
  have r: "r \<in> set (x # rows)" using filter_eq_member [OF Cons.prems(2)] by simp
  show ?case
  proof (cases "P x")
    case True
    then have x: "x = r" "filter P rows = []" using Cons.prems(2) by auto
    have "update_where (\<lambda>x. fo_id x = fo_id r) f rows = rows"
      unfolding update_where_def using Cons.prems(1) x(1) by (intro map_idI) (metis distinct.simps(2) image_eqI list.set_map list.simps(9))
    then show ?thesis using x Cons.prems(3) by simp
  next
    case False
    then have fr: "filter P rows = [r]" using Cons.prems(2) by simp
    have "r \<noteq> x" using False filter_eq_member [OF fr] by auto
    then have "fo_id x \<noteq> fo_id r" using Cons.prems(1) r by (auto simp: image_iff)
    then show ?thesis using Cons False fr by simp
  qed
qed simp

lemma update_where_twice:
  "(\<And>x. P (f x) = P x) \<Longrightarrow> (\<And>x. f (f x) = f x) \<Longrightarrow> update_where P f (update_where P f xs) = update_where P f xs"
  by (induction xs) auto



section \<open>Coverage\<close>

definition real_month :: "int \<times> int \<Rightarrow> bool" where
  "real_month ym = (1 \<le> snd ym \<and> snd ym \<le> 12)"

lemma next_month_le: "real_month a \<Longrightarrow> real_month q \<Longrightarrow> next_month a \<le> q \<longleftrightarrow> a < q"
  by (cases a; cases q) (auto simp: real_month_def next_month_def less_prod_def less_eq_prod_def)

lemma set_month_labels:
  "real_month a \<Longrightarrow> real_month b \<Longrightarrow> set (month_labels a b) = month_label ` {ym. a \<le> ym \<and> ym \<le> b \<and> real_month ym}"
proof (induction a b rule: month_labels.induct)
  case (1 a b)
  show ?case
  proof (cases "a \<le> b")
    case True
    have n: "real_month (next_month a)" using 1(2) by (cases a) (auto simp: real_month_def next_month_def)
    have "a \<le> q \<and> q \<le> b \<and> real_month q \<longleftrightarrow> q = a \<or> (next_month a \<le> q \<and> q \<le> b \<and> real_month q)" for q
      using next_month_le [OF 1(2)] 1(2) True by (metis order.order_iff_strict)
    then have "{ym. a \<le> ym \<and> ym \<le> b \<and> real_month ym} = insert a {ym. next_month a \<le> ym \<and> ym \<le> b \<and> real_month ym}"
      by blast
    moreover have "snd a \<le> 12" using 1(2) by (simp add: real_month_def)
    moreover from this have "month_labels a b = month_label a # month_labels (next_month a) b"
      using True by (simp add: month_labels.simps [of a])
    ultimately show ?thesis using 1(1) True n 1(3) by simp
  next
    case False
    then have "{ym. a \<le> ym \<and> ym \<le> b \<and> real_month ym} = {}" by auto
    then show ?thesis using False by (simp add: month_labels.simps [of a])
  qed
qed

lemma month_label_inj:
  assumes "month_label (y, m) = month_label (y', m')" and "0 \<le> y" "y \<le> 9999" "0 \<le> y'" "y' \<le> 9999" "real_month (y, m)" "real_month (y', m')"
  shows "(y, m) = (y', m')"
proof -
  have l: "length (pad0 4 (str_of_nat (nat z))) = 4" if "0 \<le> z" "z \<le> 9999" for z
    using that length_str_of_nat [of "nat z" 3] by (simp add: length_pad0 nat_less_iff)
  have "pad0 4 (str_of_nat (nat y)) @ (CHR ''-'' # nat_str2 m) = pad0 4 (str_of_nat (nat y')) @ (CHR ''-'' # nat_str2 m')"
    using assms(1) by (simp add: month_label_def)
  then have "pad0 4 (str_of_nat (nat y)) = pad0 4 (str_of_nat (nat y'))" "nat_str2 m = nat_str2 m'"
    using l assms(2-5) by (metis append_eq_append_conv list.inject)+
  then have "nat y = nat y'" "nat m = nat m'"
    unfolding nat_str2_def by (metis nat_of_pad0 nat_of_str_of_nat)+
  then show ?thesis using assms by (auto simp: real_month_def)
qed

text \<open>The coverage of an account reports as missing exactly the calendar months between the month of its
  first and of its last billing period in which no stored period of the account starts.\<close>

theorem coverage_reports_gaps:
  assumes "c \<in> set (compute_focus_coverage today d)" and "\<forall>r\<in>set (t_focus d). valid_date (fo_start r)" and "valid_date (Date y m 1)"
  shows "month_label (y, m) \<in> set (cv_missing c) \<longleftrightarrow>
    (\<exists>r\<in>set (t_focus d). fo_account r = cv_account c \<and> month_of (fo_start r) < (y, m)) \<and>
    (\<exists>r\<in>set (t_focus d). fo_account r = cv_account c \<and> (y, m) < month_of (fo_start r)) \<and>
    (\<forall>r\<in>set (t_focus d). fo_account r = cv_account c \<longrightarrow> month_of (fo_start r) \<noteq> (y, m))"
proof -
  let ?P = "\<lambda>a. set (map (\<lambda>r. (fo_start r, fo_end r)) (filter (\<lambda>r. fo_account r = a) (t_focus d)))"
  obtain r0 where a: "c = coverage_of today (cv_account c) (sorted_list_of_set (?P (cv_account c)))" "r0 \<in> set (t_focus d)" "fo_account r0 = cv_account c"
    using assms(1) by (auto simp: compute_focus_coverage_def coverage_of_def Let_def)
  define ps where "ps = sorted_list_of_set (?P (cv_account c))"
  have ps: "set ps = ?P (cv_account c)" "sorted ps" by (simp_all add: ps_def)
  have "ps \<noteq> []" using ps(1) a(2,3) by auto
  have valid: "valid_date (fst p)" if "p \<in> set ps" for p using that ps(1) assms(2) by auto
  have mono: "month_of (fst p) \<le> month_of (fst q)" if "p \<le> q" for p q :: "date \<times> date"
  proof -
    have "fst p \<le> fst q" using that by (auto simp: less_eq_prod_def)
    then show ?thesis by (auto simp: month_of_def less_eq_prod_def less_eq_date_def)
  qed
  have hd: "hd ps \<in> set ps" "\<forall>p\<in>set ps. hd ps \<le> p" using ps(2) \<open>ps \<noteq> []\<close> by (cases ps; simp)+
  have last: "last ps \<in> set ps" "\<forall>p\<in>set ps. p \<le> last ps"
    using ps(2) \<open>ps \<noteq> []\<close> by (simp, metis last.simps sorted_wrt_append append_butlast_last_id in_set_conv_decomp order.refl rotate1.simps(2) set_ConsD set_rotate1)
  have real: "real_month (month_of e)" "0 \<le> year e" "year e \<le> 9999" if "valid_date e" for e
    using that by (auto simp: valid_date_def real_month_def month_of_def split: if_splits)
  have ym: "real_month (y, m)" "0 \<le> y" "y \<le> 9999" using real [OF assms(3)] by (simp_all add: month_of_def)
  let ?first = "month_of (fst (hd ps))" and ?last = "month_of (fst (last ps))"
  have bounds: "month_of (fst p) \<in> {?first..?last}" if "p \<in> set ps" for p using that hd(2) last(2) mono by auto
  have lab: "set (month_labels ?first ?last) = month_label ` {q. ?first \<le> q \<and> q \<le> ?last \<and> real_month q}"
    using real(1) valid hd(1) last(1) by (intro set_month_labels) auto
  have uniq: "q = (y, m)" if "month_label q = month_label (y, m)" "?first \<le> q" "q \<le> ?last" "real_month q" for q
  proof -
    have "0 \<le> fst q" "fst q \<le> 9999"
      using that(2,3) real(2) [OF valid [OF hd(1)]] real(3) [OF valid [OF last(1)]] by (auto simp: less_eq_prod_def month_of_def)
    then show ?thesis using month_label_inj [of "fst q" "snd q" y m] that ym by simp
  qed
  have i: "month_label (y, m) \<in> set (month_labels ?first ?last) \<longleftrightarrow> ?first \<le> (y, m) \<and> (y, m) \<le> ?last"
    unfolding lab
  proof
    assume "month_label (y, m) \<in> month_label ` {q. ?first \<le> q \<and> q \<le> ?last \<and> real_month q}"
    then obtain q where q: "month_label q = month_label (y, m)" "?first \<le> q" "q \<le> ?last" "real_month q" by auto
    then show "?first \<le> (y, m) \<and> (y, m) \<le> ?last" using uniq [OF q] by simp
  next
    assume "?first \<le> (y, m) \<and> (y, m) \<le> ?last"
    then show "month_label (y, m) \<in> month_label ` {q. ?first \<le> q \<and> q \<le> ?last \<and> real_month q}"
      using ym(1) by (intro image_eqI [of _ _ "(y, m)"]) simp_all
  qed
  have cov: "q = (y, m)" if "month_label q = month_label (y, m)" "q = month_of (fst p)" "p \<in> set ps" for q p
    using that month_label_inj [of "fst q" "snd q" y m] real [OF valid [OF that(3)]] ym by (simp add: month_of_def)
  have ii: "month_label (y, m) \<in> month_label ` (\<lambda>p. month_of (fst p)) ` set ps \<longleftrightarrow> (\<exists>p\<in>set ps. month_of (fst p) = (y, m))"
  proof
    assume "month_label (y, m) \<in> month_label ` (\<lambda>p. month_of (fst p)) ` set ps"
    then obtain p where "p \<in> set ps" "month_label (month_of (fst p)) = month_label (y, m)" by auto
    then show "\<exists>p\<in>set ps. month_of (fst p) = (y, m)" using cov by blast
  next
    assume "\<exists>p\<in>set ps. month_of (fst p) = (y, m)"
    then show "month_label (y, m) \<in> month_label ` (\<lambda>p. month_of (fst p)) ` set ps" by force
  qed
  have miss: "cv_missing c = filter (\<lambda>l. l \<notin> set (map (\<lambda>p. month_label (month_of (fst p))) ps)) (month_labels ?first ?last)"
    by (subst a(1)) (simp add: coverage_of_def Let_def ps_def)
  have "month_label (y, m) \<in> set (cv_missing c) \<longleftrightarrow> ?first \<le> (y, m) \<and> (y, m) \<le> ?last \<and> (\<forall>p\<in>set ps. month_of (fst p) \<noteq> (y, m))"
    using i ii unfolding miss by (simp add: image_image)
  also have "\<dots> \<longleftrightarrow> (\<exists>p\<in>set ps. month_of (fst p) < (y, m)) \<and> (\<exists>p\<in>set ps. (y, m) < month_of (fst p)) \<and> (\<forall>p\<in>set ps. month_of (fst p) \<noteq> (y, m))"
  proof (intro iffI; elim conjE bexE)
    assume x: "?first \<le> (y, m)" "(y, m) \<le> ?last" "\<forall>p\<in>set ps. month_of (fst p) \<noteq> (y, m)"
    then have "?first < (y, m)" "(y, m) < ?last" using hd(1) last(1) by (metis order.not_eq_order_implies_strict)+
    then show "(\<exists>p\<in>set ps. month_of (fst p) < (y, m)) \<and> (\<exists>p\<in>set ps. (y, m) < month_of (fst p)) \<and> (\<forall>p\<in>set ps. month_of (fst p) \<noteq> (y, m))"
      using x(3) hd(1) last(1) by blast
  next
    fix p q assume x: "p \<in> set ps" "month_of (fst p) < (y, m)" "q \<in> set ps" "(y, m) < month_of (fst q)" "\<forall>p\<in>set ps. month_of (fst p) \<noteq> (y, m)"
    then have "?first \<le> (y, m)" "(y, m) \<le> ?last"
      using bounds [OF x(1)] bounds [OF x(3)] by (metis atLeastAtMost_iff less_imp_le order_trans)+
    then show "?first \<le> (y, m) \<and> (y, m) \<le> ?last \<and> (\<forall>p\<in>set ps. month_of (fst p) \<noteq> (y, m))" using x(5) by blast
  qed
  finally show ?thesis using ps(1) by auto
qed


definition month_row :: "nat \<Rightarrow> int \<Rightarrow> focus_row" where
  "month_row i m = \<lparr>fo_id = i, fo_account = 1, fo_start = Date 2026 m 1, fo_end = Date 2026 m 30, fo_service = ''Amazon EC2'',
     fo_canonical = None, fo_region = None, fo_pricing = None, fo_billed = Dec 1, fo_amortized = Dec 1, fo_resource = None,
     fo_sub_account = None, fo_tags = [], fo_count = 1, fo_currency = ''USD'', fo_ingested = 0\<rparr>"

theorem coverage_reports_gaps_witness:
  "\<exists>c\<in>set (compute_focus_coverage (Date 2026 9 1) (empty_db\<lparr>t_focus := [month_row 1 6, month_row 2 8]\<rparr>)).
    month_label (2026, 7) \<in> set (cv_missing c)"
proof -
  let ?d = "empty_db\<lparr>t_focus := [month_row 1 6, month_row 2 8]\<rparr>"
  obtain c where c: "c \<in> set (compute_focus_coverage (Date 2026 9 1) ?d)" "cv_account c = 1"
    by (simp add: compute_focus_coverage_def coverage_of_def Let_def month_row_def)
  have "\<forall>r\<in>set (t_focus ?d). valid_date (fo_start r)" "valid_date (Date 2026 7 1)"
    by (simp_all add: month_row_def valid_date_def)
  from coverage_reports_gaps [OF c(1) this] c show ?thesis by (auto simp: month_row_def month_of_def less_prod_def)
qed

end
