(* ===== verification/CollectorAws.thy ===== *)
theory CollectorAws
  imports Compliance PyDecimal
begin

text \<open>
  The cross-account collector (\<open>apps/api/src/constat_api/collectors/aws.py\<close>): the registry of
  scan jobs, one region and job with its source run, and the scan of a target over regions
  and jobs with its circuit breaker, the correlation post-pass, the classification of
  identifiers (\<open>pii.py\<close>) and the audit record (\<open>audit.py\<close>).

  An AWS session is a parameter, the pages that its four describe calls deliver per region;
  so are the STS call and the hash function. An exception that leaves a function is the
  \<open>Inl\<close> of its result, with the world as the function left it.
\<close>

section \<open>Targets and jobs\<close>

record aws_session =
  describe_db_instances :: "string \<Rightarrow> stream"
  describe_volumes :: "string \<Rightarrow> stream"
  describe_snapshots :: "string \<Rightarrow> stream"
  describe_instances :: "string \<Rightarrow> stream"

type_synonym scan_fn = "aws_session \<Rightarrow> string list \<Rightarrow> stream"

definition collect_db_instances :: scan_fn where
  "collect_db_instances s regions = paginate_aws (describe_db_instances s) (Some regions) db_instances_in_page"

definition collect_volumes :: scan_fn where
  "collect_volumes s regions = paginate_aws (describe_volumes s) (Some regions) volumes_in_page"

definition collect_snapshots :: scan_fn where
  "collect_snapshots s regions = paginate_aws (describe_snapshots s) (Some regions) snapshots_in_page"

definition collect_instances :: scan_fn where
  "collect_instances s regions = paginate_aws (describe_instances s) (Some regions) instances_in_page"

record target =
  tg_account :: string
  tg_role_arn :: "string option"
  tg_external_id :: "string option"
  tg_name :: "string option"
  tg_regions :: "string list option"
  tg_types :: "string list option"

record scan_job =
  jb_key :: string
  jb_type :: string
  jb_source :: string
  jb_scan :: scan_fn
  jb_resource :: "uuid \<Rightarrow> instant \<Rightarrow> payload \<Rightarrow> string \<Rightarrow> resource res"
  jb_observation :: "(uuid \<Rightarrow> payload \<Rightarrow> instant \<Rightarrow> observation res) option"
  jb_facts :: "(uuid \<Rightarrow> string \<Rightarrow> payload \<Rightarrow> instant \<Rightarrow> fact list res) option"

definition JOB_REGISTRY :: "(string, scan_job) dict" where
  "JOB_REGISTRY = [
    (''rds'', \<lparr>jb_key = ''rds'', jb_type = RDS_RESOURCE_TYPE, jb_source = RDS_SOURCE, jb_scan = collect_db_instances,
       jb_resource = db_to_resource, jb_observation = Some db_to_observation, jb_facts = Some db_to_facts\<rparr>),
    (''ec2_volume'', \<lparr>jb_key = ''ec2_volume'', jb_type = VOLUME_RESOURCE_TYPE, jb_source = EC2_SOURCE, jb_scan = collect_volumes,
       jb_resource = volume_to_resource, jb_observation = Some volume_to_observation, jb_facts = Some volume_to_facts\<rparr>),
    (''ec2_snapshot'', \<lparr>jb_key = ''ec2_snapshot'', jb_type = SNAPSHOT_RESOURCE_TYPE, jb_source = EC2_SOURCE, jb_scan = collect_snapshots,
       jb_resource = snapshot_to_resource, jb_observation = Some snapshot_to_observation, jb_facts = Some snapshot_to_facts\<rparr>),
    (''ec2_instance'', \<lparr>jb_key = ''ec2_instance'', jb_type = INSTANCE_RESOURCE_TYPE, jb_source = EC2_SOURCE, jb_scan = collect_instances,
       jb_resource = instance_to_resource, jb_observation = Some instance_to_observation, jb_facts = Some instance_to_facts\<rparr>)]"

definition classify_error :: "string \<Rightarrow> string" where
  "classify_error code =
    (let c = str_lower code in
     if str_contains ''accessdenied'' c \<or> str_contains ''unauthorized'' c \<or> str_contains ''forbidden'' c then ''AccessDenied''
     else if str_contains ''throttl'' c \<or> str_contains ''limitexceeded'' c \<or> str_contains ''toomanyrequests'' c then ''Throttling''
     else if str_contains ''timeout'' c \<or> str_contains ''timedout'' c then ''Timeout''
     else ''Unknown'')"

text \<open>\<open>sts role external_id\<close> is the AssumeRole call with the session made of its credentials.\<close>

definition assume_role :: "(string \<Rightarrow> string \<Rightarrow> aws_session res) \<Rightarrow> aws_session \<Rightarrow> target \<Rightarrow> aws_session res" where
  "assume_role sts base t =
    (case tg_role_arn t of
       None \<Rightarrow> Inr base
     | Some role \<Rightarrow>
       (case tg_external_id t of
          None \<Rightarrow> Inl ValueError
        | Some x \<Rightarrow> if x = [] then Inl ValueError else sts role x))"

definition with_scan_fn :: "scan_fn \<Rightarrow> scan_job \<Rightarrow> scan_job" where
  "with_scan_fn f j = (if jb_key j = ''rds'' then j\<lparr>jb_scan := f\<rparr> else j)"

definition resolve_jobs :: "target \<Rightarrow> scan_fn option \<Rightarrow> scan_job list res" where
  "resolve_jobs t override =
    rmap (case override of None \<Rightarrow> id | Some f \<Rightarrow> map (with_scan_fn f))
      (case tg_types t of
         None \<Rightarrow> Inr (map snd JOB_REGISTRY)
       | Some ts \<Rightarrow> mapM (\<lambda>rt. case dict_get JOB_REGISTRY rt of None \<Rightarrow> Inl ValueError | Some j \<Rightarrow> Inr j) ts)"

text \<open>A native id that is not a string is refused by the database driver.\<close>

definition native_id_for_job :: "scan_job \<Rightarrow> payload \<Rightarrow> string res" where
  "native_id_for_job j raw =
    rbind (if jb_key j = ''rds'' then subscript raw ''DBInstanceArn''
       else if jb_key j = ''ec2_volume'' then subscript raw ''VolumeId''
       else if jb_key j = ''ec2_snapshot'' then subscript raw ''SnapshotId''
       else if jb_key j = ''ec2_instance'' then subscript raw ''InstanceId''
       else Inl ValueError)
     (\<lambda>v. case v of PStr s \<Rightarrow> Inr s | _ \<Rightarrow> Inl TypeError)"

section \<open>One region and job\<close>

record counts =
  n_resources :: nat
  n_observations :: nat
  n_facts :: nat

record progress = counts +
  p_items :: collected

definition no_progress :: progress where
  "no_progress = \<lparr>n_resources = 0, n_observations = 0, n_facts = 0, p_items = []\<rparr>"

text \<open>What is stored for one item that is not a dry run: the observation, then the facts.\<close>

definition store_observation :: "scan_job \<Rightarrow> uuid \<Rightarrow> uuid \<Rightarrow> payload \<Rightarrow> instant \<Rightarrow> progress \<Rightarrow> world \<Rightarrow> (progress \<times> exn option) \<times> world" where
  "store_observation j run rid raw seen p w =
    (case jb_observation j of
       None \<Rightarrow> ((p, None), w)
     | Some f \<Rightarrow> (case f rid raw seen of
         Inl e \<Rightarrow> ((p, Some e), w)
       | Inr obs \<Rightarrow> ((p\<lparr>n_observations := Suc (n_observations p)\<rparr>, None), insert_observation obs (Some run) w)))"

definition store_facts :: "scan_job \<Rightarrow> uuid \<Rightarrow> uuid \<Rightarrow> uuid \<Rightarrow> payload \<Rightarrow> instant \<Rightarrow> progress \<Rightarrow> world \<Rightarrow> (progress \<times> exn option) \<times> world" where
  "store_facts j account run rid raw seen p w =
    (case jb_facts j of
       None \<Rightarrow> ((p, None), w)
     | Some f \<Rightarrow> (case f rid (uuid_str account) raw seen of
         Inl e \<Rightarrow> ((p, Some e), w)
       | Inr fs \<Rightarrow> (case upsert_facts fs (Some run) w of
           (Inl e, w) \<Rightarrow> ((p, Some e), w)
         | (Inr (ins, upd), w) \<Rightarrow> ((p\<lparr>n_facts := n_facts p + ins + upd\<rparr>, None), w))))"

definition scan_item :: "scan_job \<Rightarrow> uuid \<Rightarrow> string \<Rightarrow> uuid \<Rightarrow> bool \<Rightarrow> payload \<Rightarrow> progress \<Rightarrow> world \<Rightarrow> (progress \<times> exn option) \<times> world" where
  "scan_item j account region run dry raw p w =
    (case native_id_for_job j raw of
       Inl e \<Rightarrow> ((p, Some e), w)
     | Inr native \<Rightarrow>
       (let (r, w) = upsert_resource account region (jb_type j) native w;
            p = p\<lparr>p_items := p_items p @ [(rr_id r, raw)]\<rparr>;
            (seen, w) = now w
        in if dry then ((p\<lparr>n_resources := Suc (n_resources p)\<rparr>, None), w)
           else (case store_observation j run (rr_id r) raw seen p w of
               ((p, Some e), w) \<Rightarrow> ((p, Some e), w)
             | ((p, None), w) \<Rightarrow> (case store_facts j account run (rr_id r) raw seen p w of
                 ((p, Some e), w) \<Rightarrow> ((p, Some e), w)
               | ((p, None), w) \<Rightarrow> ((p\<lparr>n_resources := Suc (n_resources p)\<rparr>, None), w)))))"

text \<open>The loop over the generator: its items, then the exception that ends it.\<close>

fun scan_items :: "scan_job \<Rightarrow> uuid \<Rightarrow> string \<Rightarrow> uuid \<Rightarrow> bool \<Rightarrow> payload list \<Rightarrow> exn option \<Rightarrow> progress \<Rightarrow> world \<Rightarrow> (progress \<times> exn option) \<times> world" where
  "scan_items j account region run dry [] e p w = ((p, e), w)"
| "scan_items j account region run dry (raw # raws) e p w =
    (case scan_item j account region run dry raw p w of
       ((p, Some x), w) \<Rightarrow> ((p, Some x), w)
     | ((p, None), w) \<Rightarrow> scan_items j account region run dry raws e p w)"

text \<open>The exceptions that a region records instead of passing on.\<close>

fun region_error :: "exn \<Rightarrow> string option" where
  "region_error (ClientError code text) = Some (classify_error code @ '' ('' @ code @ ''): '' @ text)"
| "region_error (BotoCoreError name text) = Some (classify_error name @ '' ('' @ name @ ''): '' @ text)"
| "region_error _ = None"

record region_result = progress +
  rg_error :: "string option"

definition result_of :: "progress \<Rightarrow> string option \<Rightarrow> region_result" where
  "result_of p err = progress.extend p \<lparr>rg_error = err\<rparr>"

text \<open>The \<open>finally\<close> block and what leaves the function. After a refused flush the session
  cannot write any more before a rollback, so that finishing the run raises, too.\<close>

definition close_run :: "scope \<Rightarrow> uuid \<Rightarrow> bool \<Rightarrow> progress \<Rightarrow> exn option \<Rightarrow> world \<Rightarrow> region_result res \<times> world" where
  "close_run s run dry p ended w =
    (if ended = Some IntegrityError then (Inl (RuntimeError ''PendingRollbackError''), w)
     else let err = Option.bind ended region_error;
              status = (if ended = None then Success else Failed);
              w = finish_run run status (Some (n_resources p)) err w;
              w = (if ended = None \<and> \<not> dry then snd (retire_stale_resources s w) else w)
          in (case ended of
                None \<Rightarrow> (Inr (result_of p None), w)
              | Some e \<Rightarrow> (case err of None \<Rightarrow> (Inl e, w) | Some m \<Rightarrow> (Inr (result_of p (Some m)), w))))"

definition run_region_job :: "scan_job \<Rightarrow> string \<Rightarrow> uuid \<Rightarrow> aws_session \<Rightarrow> bool \<Rightarrow> bool \<Rightarrow> uuid option \<Rightarrow> world \<Rightarrow> region_result res \<times> world" where
  "run_region_job j region account aws dry force job w =
    (let s = \<lparr>sc_account = account, sc_region = region, sc_type = jb_type j, sc_source = jb_source j\<rparr> in
     case start_run s force job w of
       (None, w) \<Rightarrow> (Inr (result_of no_progress (Some ''scan already in progress'')), w)
     | (Some run, w) \<Rightarrow>
       (let (raws, e) = jb_scan j aws [region];
            ((p, ended), w) = scan_items j account region (sr_id run) dry raws e no_progress w
        in close_run s (sr_id run) dry p ended w))"

section \<open>One target\<close>

record collection = counts +
  cl_errors :: "string list"
  cl_skipped :: "string list"
  cl_consecutive :: nat

definition new_collection :: collection where
  "new_collection = \<lparr>n_resources = 0, n_observations = 0, n_facts = 0, cl_errors = [], cl_skipped = [], cl_consecutive = 0\<rparr>"

definition add_counts :: "'a counts_scheme \<Rightarrow> 'b counts_scheme \<Rightarrow> 'b counts_scheme" where
  "add_counts x c = c\<lparr>n_resources := n_resources c + n_resources x, n_observations := n_observations c + n_observations x,
     n_facts := n_facts c + n_facts x\<rparr>"

text \<open>The jobs of one region in order; the second component collects the items of the jobs that
  ran without error.\<close>

fun region_jobs :: "string \<Rightarrow> uuid \<Rightarrow> aws_session \<Rightarrow> bool \<Rightarrow> bool \<Rightarrow> uuid option \<Rightarrow> scan_job list \<Rightarrow>
    collection \<times> (string, collected) dict \<times> bool \<Rightarrow> world \<Rightarrow> (collection \<times> (string, collected) dict \<times> bool) res \<times> world" where
  "region_jobs region account aws dry force job [] st w = (Inr st, w)"
| "region_jobs region account aws dry force job (j # js) (c, items, bad) w =
    (case run_region_job j region account aws dry force job w of
       (Inl e, w) \<Rightarrow> (Inl e, w)
     | (Inr r, w) \<Rightarrow>
       (let c = add_counts r c in
        case rg_error r of
          Some m \<Rightarrow> region_jobs region account aws dry force job js
            (c\<lparr>cl_errors := cl_errors c @ [region @ '' ('' @ jb_key j @ ''): '' @ m]\<rparr>, items, True) w
        | None \<Rightarrow> region_jobs region account aws dry force job js (c, dict_set (jb_key j) (p_items r) items, bad) w))"

definition correlate :: "uuid \<Rightarrow> bool \<Rightarrow> (string, collected) dict \<Rightarrow> collection \<Rightarrow> world \<Rightarrow> collection res \<times> world" where
  "correlate account dry items c w =
    (if dry \<or> items = [] then (Inr c, w)
     else let (seen, w) = now w in
       (case correlation_facts (dict_get items ''ec2_volume'') (get_default items ''ec2_snapshot'' [])
            (get_default items ''ec2_instance'' []) (uuid_str account) seen of
          Inl e \<Rightarrow> (Inl e, w)
        | Inr [] \<Rightarrow> (Inr c, w)
        | Inr fs \<Rightarrow> (case upsert_facts fs None w of
            (Inl e, w) \<Rightarrow> (Inl e, w)
          | (Inr (ins, upd), w) \<Rightarrow> (Inr (c\<lparr>n_facts := n_facts c + ins + upd\<rparr>), w))))"

definition breaker_message :: "nat \<Rightarrow> int \<Rightarrow> string" where
  "breaker_message n max_errors = ''skipped by circuit breaker ('' @ str_of_nat n @ '' consecutive errors >= '' @ str_of_int max_errors @ '')''"

fun collect_regions :: "uuid \<Rightarrow> aws_session \<Rightarrow> bool \<Rightarrow> bool \<Rightarrow> uuid option \<Rightarrow> scan_job list \<Rightarrow> int \<Rightarrow> string list \<Rightarrow>
    collection \<Rightarrow> world \<Rightarrow> collection res \<times> world" where
  "collect_regions account aws dry force job jobs max_errors [] c w = (Inr c, w)"
| "collect_regions account aws dry force job jobs max_errors (region # regions) c w =
    (if int (cl_consecutive c) \<ge> max_errors
     then collect_regions account aws dry force job jobs max_errors regions
       (c\<lparr>cl_errors := cl_errors c @ [region @ '': '' @ breaker_message (cl_consecutive c) max_errors],
          cl_skipped := cl_skipped c @ [region]\<rparr>) w
     else (case region_jobs region account aws dry force job jobs (c, [], False) w of
         (Inl e, w) \<Rightarrow> (Inl e, w)
       | (Inr (c, items, bad), w) \<Rightarrow>
         (case correlate account dry items c w of
            (Inl e, w) \<Rightarrow> (Inl e, w)
          | (Inr c, w) \<Rightarrow> collect_regions account aws dry force job jobs max_errors regions
              (c\<lparr>cl_consecutive := (if bad then Suc (cl_consecutive c) else 0)\<rparr>) w)))"

text \<open>The result, with the regions it was asked for.\<close>

record collection_result = counts +
  cr_account :: string
  cr_regions :: "string list"
  cr_errors :: "string list"
  cr_skipped :: "string list"

definition DEFAULT_MAX_CONSECUTIVE_REGION_ERRORS :: int where
  "DEFAULT_MAX_CONSECUTIVE_REGION_ERRORS = 2"

definition regions_of :: "target \<Rightarrow> string list" where
  "regions_of t = (case tg_regions t of None \<Rightarrow> DEFAULT_REGIONS | Some [] \<Rightarrow> DEFAULT_REGIONS | Some rs \<Rightarrow> rs)"

definition scan_metadata :: "string list \<Rightarrow> collection \<Rightarrow> bool \<Rightarrow> bool \<Rightarrow> payload" where
  "scan_metadata regions c force dry = [
    (''regions_scanned'', PInt (int (length regions))), (''regions_skipped_by_breaker'', PInt (int (length (cl_skipped c)))),
    (''resources_written'', PInt (int (n_resources c))), (''observations_written'', PInt (int (n_observations c))),
    (''facts_written'', PInt (int (n_facts c))), (''errors_count'', PInt (int (length (cl_errors c)))),
    (''force'', PBool force), (''dry_run'', PBool dry)]"

text \<open>The end of a scan that is no dry run: classify, audit, commit. A role that is the empty
  string is not classified.\<close>

definition seal_scan :: "(string \<Rightarrow> string) \<Rightarrow> target \<Rightarrow> payload \<Rightarrow> world \<Rightarrow> unit res \<times> world" where
  "seal_scan sha t metadata w =
    (let w = snd (pii_record sha ''account'' (tg_account t) ''aws_account_id'' (tg_account t) None w);
         w = (case tg_role_arn t of None \<Rightarrow> w
              | Some role \<Rightarrow> if role = [] then w else snd (pii_record sha ''account'' (tg_account t) ''arn'' role None w))
     in case record_event ''aws_scan_completed'' (Some ''system:aws_collector'') (Some ''account'') (Some (tg_account t)) metadata w of
          (Inl e, w) \<Rightarrow> (Inl e, w)
        | (Inr _, w) \<Rightarrow> (Inr (), commit w))"

record collect_options =
  co_dry_run :: bool
  co_force :: bool
  co_max_errors :: int
  co_job :: "uuid option"

definition collect_target :: "(string \<Rightarrow> string) \<Rightarrow> (string \<Rightarrow> string \<Rightarrow> aws_session res) \<Rightarrow> aws_session \<Rightarrow> scan_fn option \<Rightarrow>
    collect_options \<Rightarrow> target \<Rightarrow> world \<Rightarrow> collection_result res \<times> world" where
  "collect_target sha sts base override opts t w =
    (case resolve_jobs t override of
       Inl e \<Rightarrow> (Inl e, w)
     | Inr jobs \<Rightarrow>
       (case assume_role sts base t of
          Inl e \<Rightarrow> (Inl e, w)
        | Inr aws \<Rightarrow>
          (let (account, w) = get_or_create (tg_account t) (tg_name t) w in
           case collect_regions (ac_id account) aws (co_dry_run opts) (co_force opts) (co_job opts) jobs (co_max_errors opts)
                  (regions_of t) new_collection w of
             (Inl e, w) \<Rightarrow> (Inl e, w)
           | (Inr c, w) \<Rightarrow>
             (let res = \<lparr>n_resources = n_resources c, n_observations = n_observations c, n_facts = n_facts c,
                    cr_account = tg_account t, cr_regions = regions_of t, cr_errors = cl_errors c, cr_skipped = cl_skipped c\<rparr>
              in if co_dry_run opts then (Inr res, w)
                 else (case seal_scan sha t (scan_metadata (regions_of t) c (co_force opts) (co_dry_run opts)) w of
                     (Inl e, w) \<Rightarrow> (Inl e, w)
                   | (Inr _, w) \<Rightarrow> (Inr res, w))))))"

text \<open>\<open>collect_targets\<close>: a \<open>ClientError\<close> of one target is recorded, any other exception leaves.\<close>

definition failed_target :: "target \<Rightarrow> string \<Rightarrow> string \<Rightarrow> collection_result" where
  "failed_target t code text = \<lparr>n_resources = 0, n_observations = 0, n_facts = 0, cr_account = tg_account t,
     cr_regions = regions_of t, cr_errors = [''assume_role: '' @ code @ '': '' @ text], cr_skipped = []\<rparr>"

fun collect_targets :: "(string \<Rightarrow> string) \<Rightarrow> (string \<Rightarrow> string \<Rightarrow> aws_session res) \<Rightarrow> aws_session \<Rightarrow> scan_fn option \<Rightarrow>
    collect_options \<Rightarrow> target list \<Rightarrow> world \<Rightarrow> collection_result list res \<times> world" where
  "collect_targets sha sts base override opts [] w = (Inr [], w)"
| "collect_targets sha sts base override opts (t # ts) w =
    (case collect_target sha sts base (Some (case override of None \<Rightarrow> collect_db_instances | Some f \<Rightarrow> f)) opts t w of
       (Inl (ClientError code text), w) \<Rightarrow>
         (case collect_targets sha sts base override opts ts w of
            (Inl e, w) \<Rightarrow> (Inl e, w) | (Inr rs, w) \<Rightarrow> (Inr (failed_target t code text # rs), w))
     | (Inl e, w) \<Rightarrow> (Inl e, w)
     | (Inr r, w) \<Rightarrow>
         (case collect_targets sha sts base override opts ts w of
            (Inl e, w) \<Rightarrow> (Inl e, w) | (Inr rs, w) \<Rightarrow> (Inr (r # rs), w)))"

section \<open>What a scan leaves behind\<close>

lemma store_observation_step:
  "store_observation j run rid raw seen p w = ((p', e), w') \<Longrightarrow>
    session_step w w' \<and> t_resources (w_db w') = t_resources (w_db w) \<and> t_runs (w_db w') = t_runs (w_db w) \<and> p_items p' = p_items p"
  using insert_observation_step by (fastforce simp: store_observation_def split: option.splits sum.splits)

lemma store_facts_step:
  "store_facts j account run rid raw seen p w = ((p', e), w') \<Longrightarrow>
    session_step w w' \<and> t_resources (w_db w') = t_resources (w_db w) \<and> t_runs (w_db w') = t_runs (w_db w) \<and> p_items p' = p_items p"
  by (fastforce simp: store_facts_def split: option.splits sum.splits prod.splits dest: upsert_facts_step)

text \<open>The invariant of the loop over the items, with the worlds before and after.\<close>

definition scanned :: "world \<Rightarrow> world \<Rightarrow> bool" where
  "scanned w w' = (session_step w w' \<and> t_runs (w_db w') = t_runs (w_db w) \<and> resources_ok w' \<and> clock_ok w' \<and> seen_since w w' \<and>
     (\<forall>a g t n. has_live a g t n w \<longrightarrow> has_live a g t n w'))"

lemma scanned_trans: "scanned w w1 \<Longrightarrow> scanned w1 w2 \<Longrightarrow> scanned w w2"
  unfolding scanned_def
  by (metis session_step_trans seen_since_trans session_step_def)

lemma scanned_same:
  "resources_ok w \<Longrightarrow> clock_ok w \<Longrightarrow> session_step w w' \<Longrightarrow> t_resources (w_db w') = t_resources (w_db w) \<Longrightarrow>
   t_runs (w_db w') = t_runs (w_db w) \<Longrightarrow> scanned w w'"
  by (auto simp: scanned_def intro: resources_ok_step clock_ok_step) (simp add: has_live_def session_step_def)

lemma scan_item_scanned:
  assumes "resources_ok w" and "clock_ok w" and "scan_item j a g run dry raw p w = ((p', e), w')"
  shows "scanned w w' \<and> (e = None \<longrightarrow> (\<exists>n. native_id_for_job j raw = Inr n \<and> has_live a g (jb_type j) n w'))"
proof (cases "native_id_for_job j raw")
  case (Inl x)
  then show ?thesis using assms by (auto simp: scan_item_def intro: scanned_same)
next
  case (Inr n)
  obtain r w1 where u: "upsert_resource a g (jb_type j) n w = (r, w1)" by (cases "upsert_resource a g (jb_type j) n w")
  define w2 where "w2 = snd (now w1)"
  note f = upsert_resource_facts [OF assms(1,2) u]
  have s1: "scanned w w1" using f assms(2) clock_ok_step unfolding scanned_def by blast
  have ok1: "resources_ok w1" "clock_ok w1" using s1 by (auto simp: scanned_def)
  have st12: "session_step w1 w2" "t_resources (w_db w2) = t_resources (w_db w1)" "t_runs (w_db w2) = t_runs (w_db w1)"
    by (simp_all add: w2_def session_step_def)
  have s2: "scanned w w2" using scanned_trans [OF s1 scanned_same [OF ok1 st12]] .
  have ok2: "resources_ok w2" "clock_ok w2" using s2 by (auto simp: scanned_def)
  have live: "has_live a g (jb_type j) n w2" using f(1) st12 by (auto simp: has_live_def session_step_def)
  have rest: "scanned w2 w'"
  proof (cases dry)
    case True
    then have "w' = w2" using assms(3) Inr u by (simp add: scan_item_def Let_def w2_def split: prod.splits)
    then show ?thesis using ok2 by (simp add: scanned_same)
  next
    case False
    let ?p = "p\<lparr>p_items := p_items p @ [(rr_id r, raw)]\<rparr>" and ?seen = "fst (now w1)"
    obtain p2 e2 w3 where so: "store_observation j run (rr_id r) raw ?seen ?p w2 = ((p2, e2), w3)" by (metis surj_pair)
    note o = store_observation_step [OF so]
    have s3: "scanned w2 w3" using ok2 o by (intro scanned_same) auto
    have ok3: "resources_ok w3" "clock_ok w3" using s3 by (auto simp: scanned_def)
    obtain p3 e3 w4 where sf: "store_facts j a run (rr_id r) raw ?seen p2 w3 = ((p3, e3), w4)" by (metis surj_pair)
    note o2 = store_facts_step [OF sf]
    have s4: "scanned w3 w4" using ok3 o2 by (intro scanned_same) auto
    have "w' = w3 \<or> w' = w4"
      using assms(3) Inr u False so sf by (auto simp: scan_item_def Let_def w2_def case_prod_unfold split: option.splits)
    then show ?thesis using s3 scanned_trans [OF s3 s4] by auto
  qed
  have "has_live a g (jb_type j) n w'" using live rest by (auto simp: scanned_def)
  then show ?thesis using scanned_trans [OF s2 rest] Inr by blast
qed

lemma scan_items_scanned:
  assumes "resources_ok w" and "clock_ok w" and "scan_items j a g run dry raws e p w = ((p', e'), w')"
  shows "scanned w w' \<and> (e' = None \<longrightarrow> e = None \<and> (\<forall>raw\<in>set raws. \<exists>n. native_id_for_job j raw = Inr n \<and> has_live a g (jb_type j) n w'))"
  using assms
proof (induction raws arbitrary: p w)
  case Nil
  then show ?case by (auto intro: scanned_same)
next
  case (Cons raw raws)
  obtain p1 e1 w1 where i: "scan_item j a g run dry raw p w = ((p1, e1), w1)" by (metis surj_pair)
  note s = scan_item_scanned [OF Cons.prems(1,2) i]
  show ?case
  proof (cases e1)
    case None
    then have "scan_items j a g run dry raws e p1 w1 = ((p', e'), w')" using Cons.prems(3) i by simp
    moreover have "resources_ok w1" "clock_ok w1" using s by (auto simp: scanned_def)
    ultimately have r: "scanned w1 w' \<and> (e' = None \<longrightarrow> e = None \<and> (\<forall>raw\<in>set raws. \<exists>n. native_id_for_job j raw = Inr n \<and> has_live a g (jb_type j) n w'))"
      using Cons.IH by blast
    moreover have "\<exists>n. native_id_for_job j raw = Inr n \<and> has_live a g (jb_type j) n w'"
      using s None r by (auto simp: scanned_def)
    moreover have "scanned w w'" using s r scanned_trans by blast
    ultimately show ?thesis by auto
  next
    case (Some x)
    then show ?thesis using Cons.prems(3) i s by auto
  qed
qed

lemma start_run_facts:
  assumes "start_run s force job w = (res, w')"
  shows "res = None \<Longrightarrow> w_db w' = w_saved w"
    and "res = Some run \<Longrightarrow> session_step w w' \<and> t_resources (w_db w') = t_resources (w_db w) \<and>
      sr_started run = w_begin w \<and> in_scope s run \<and> sr_status run = Running \<and>
      (\<exists>rs. t_runs (w_db w') = rs @ [run] \<and> map (\<lambda>r. (sr_id r, sr_started r)) rs = map (\<lambda>r. (sr_id r, sr_started r)) (t_runs (w_db w)))"
proof -
  let ?w1 = "if force then abort_active_run s w else w"
  have db: "w_saved ?w1 = w_saved w" by (simp add: abort_active_run_def Let_def now_def with_runs_def)
  have step: "session_step w ?w1" by (simp add: abort_active_run_def Let_def now_def with_runs_def session_step_def)
  have rr: "t_resources (w_db ?w1) = t_resources (w_db w)" by (simp add: abort_active_run_def Let_def now_def with_runs_def)
  have rs: "map (\<lambda>r. (sr_id r, sr_started r)) (t_runs (w_db ?w1)) = map (\<lambda>r. (sr_id r, sr_started r)) (t_runs (w_db w))"
    by (simp add: abort_active_run_def Let_def now_def with_runs_def map_update_where)
  have eq: "(res, w') = (let (i, w) = fresh ?w1;
         run = \<lparr>sr_id = i, sr_account = sc_account s, sr_region = sc_region s, sr_type = sc_type s,
           sr_source = sc_source s, sr_started = w_begin w, sr_finished = None, sr_status = Running,
           sr_found = None, sr_error = None, sr_job = job\<rparr>
     in if \<exists>r\<in>set (t_runs (w_db w)). active s r then (None, rollback w) else (Some run, with_runs (\<lambda>rs. rs @ [run]) w))"
    using assms by (simp add: start_run_def Let_def)
  show "res = None \<Longrightarrow> w_db w' = w_saved w"
    using eq db by (auto simp: Let_def fresh_def rollback_def begin_tx_def now_def split: if_splits)
  show "res = Some run \<Longrightarrow> session_step w w' \<and> t_resources (w_db w') = t_resources (w_db w) \<and>
      sr_started run = w_begin w \<and> in_scope s run \<and> sr_status run = Running \<and>
      (\<exists>rs. t_runs (w_db w') = rs @ [run] \<and> map (\<lambda>r. (sr_id r, sr_started r)) rs = map (\<lambda>r. (sr_id r, sr_started r)) (t_runs (w_db w)))"
    using eq step rr rs by (auto simp: Let_def fresh_def session_step_def with_runs_def in_scope_def split: if_splits)
qed

lemma result_of_simps [simp]: "rg_error (result_of p e) = e" "p_items (result_of p e) = p_items p" "n_resources (result_of p e) = n_resources p"
  by (simp_all add: result_of_def progress.defs)

lemma finish_run_facts:
  "session_step w (finish_run i st n err w)" "t_resources (w_db (finish_run i st n err w)) = t_resources (w_db w)"
  "map sr_started (t_runs (w_db (finish_run i st n err w))) = map sr_started (t_runs (w_db w))"
  by (simp_all add: finish_run_def now_def with_runs_def session_step_def map_update_where)

text \<open>The two latest successful runs, when there are two.\<close>

lemma recent_runs:
  assumes "length (recent_successful_runs s 2 d) = 2"
  obtains r1 r2 where "recent_successful_runs s 2 d = [r1, r2]" and "sr_started r2 \<le> sr_started r1"
    and "r1 \<in> set (t_runs d)" and "r2 \<in> set (t_runs d)"
proof -
  let ?f = "filter (\<lambda>r. in_scope s r \<and> sr_status r = Success) (t_runs d)"
  let ?s = "sort_key (\<lambda>r. - sr_started r) ?f"
  obtain r1 r2 where rs: "recent_successful_runs s 2 d = [r1, r2]"
    using assms by (cases "recent_successful_runs s 2 d"; cases "tl (recent_successful_runs s 2 d)") auto
  then have "take 2 ?s = [r1, r2]" by (simp add: recent_successful_runs_def)
  then obtain rest where e: "?s = r1 # r2 # rest" by (metis append_Cons append_Nil append_take_drop_id)
  have "sorted (map (\<lambda>r. - sr_started r) (r1 # r2 # rest))" using e by (metis sorted_sort_key)
  moreover have "set ?s \<subseteq> set (t_runs d)" by auto
  ultimately show thesis using that [OF rs] e by auto
qed

lemma retire_facts:
  assumes "retire_stale_resources s w = (n, w')" and "r' \<in> set (t_resources (w_db w'))"
  shows "w_db w' = (w_db w)\<lparr>t_resources := t_resources (w_db w')\<rparr> \<and> (r' \<in> set (t_resources (w_db w)) \<or>
    (\<exists>r1 r2 r t. recent_successful_runs s 2 (w_db w) = [r1, r2] \<and> r \<in> set (t_resources (w_db w)) \<and> r' = r\<lparr>rr_retired := Some t\<rparr> \<and>
       rr_account r = sc_account s \<and> rr_region r = sc_region s \<and> rr_type r = sc_type s \<and>
       rr_last_seen r < sr_started r2 \<and> sr_started r2 \<le> sr_started r1 \<and> r2 \<in> set (t_runs (w_db w))))"
proof (cases "length (recent_successful_runs s 2 (w_db w)) = 2")
  case False
  then have "length (recent_successful_runs s 2 (w_db w)) < 2" by (simp add: recent_successful_runs_def)
  then show ?thesis using assms by (simp add: retire_stale_resources_def CONSECUTIVE_SCANS_FOR_RETIREMENT_def)
next
  case True
  then obtain r1 r2 where r: "recent_successful_runs s 2 (w_db w) = [r1, r2]" "sr_started r2 \<le> sr_started r1" "r2 \<in> set (t_runs (w_db w))"
    by (rule recent_runs)
  have "w' = with_resources (update_where (stale s (sr_started r2)) (\<lambda>r. r\<lparr>rr_retired := Some (fst (now w))\<rparr>)) (snd (now w))"
    using assms(1) r(1) by (simp add: retire_stale_resources_def CONSECUTIVE_SCANS_FOR_RETIREMENT_def case_prod_unfold Let_def)
  then have db: "w_db w' = (w_db w)\<lparr>t_resources := update_where (stale s (sr_started r2)) (\<lambda>r. r\<lparr>rr_retired := Some (fst (now w))\<rparr>) (t_resources (w_db w))\<rparr>"
    by (simp add: with_resources_def)
  then show ?thesis using assms(2) r by (auto simp: set_update_where stale_def)
qed

text \<open>The stages of a run that was not refused.\<close>

lemma run_region_stages:
  assumes "resources_ok w" and "clock_ok w" and "run_region_job j region account aws dry force job w = (res, w')"
    and "w_db w' \<noteq> w_saved w"
  obtains i items e p ended w2 where "jb_scan j aws [region] = (items, e)"
    and "close_run \<lparr>sc_account = account, sc_region = region, sc_type = jb_type j, sc_source = jb_source j\<rparr> i dry p ended w2 = (res, w')"
    and "ended = None \<longrightarrow> e = None \<and> (\<forall>raw\<in>set items. \<exists>n. native_id_for_job j raw = Inr n \<and> has_live account region (jb_type j) n w2)"
    and "resources_ok w2" and "seen_since w w2" and "w_begin w2 = w_begin w"
    and "set (map sr_started (t_runs (w_db w2))) = insert (w_begin w) (set (map sr_started (t_runs (w_db w))))"
proof -
  let ?s = "\<lparr>sc_account = account, sc_region = region, sc_type = jb_type j, sc_source = jb_source j\<rparr>"
  obtain o1 w1 where st: "start_run ?s force job w = (o1, w1)" by (metis surj_pair)
  note sf = start_run_facts [OF st]
  have "o1 \<noteq> None"
  proof
    assume "o1 = None"
    then have "w_db w' = w_saved w" using assms(3) st sf(1) by (simp add: run_region_job_def Let_def)
    then show False using assms(4) by simp
  qed
  then obtain run where run: "o1 = Some run" by auto
  note f1 = sf(2) [OF run]
  obtain items e where sc: "jb_scan j aws [region] = (items, e)" by (metis surj_pair)
  obtain p ended w2 where it: "scan_items j account region (sr_id run) dry items e no_progress w1 = ((p, ended), w2)" by (metis surj_pair)
  have cl: "close_run ?s (sr_id run) dry p ended w2 = (res, w')"
    using assms(3) st run sc it by (simp add: run_region_job_def Let_def)
  have ok1: "resources_ok w1" "clock_ok w1"
    using assms(1,2) f1 resources_ok_step clock_ok_step by blast+
  note si = scan_items_scanned [OF ok1 it]
  have seen: "seen_since w w2" using si f1 by (auto simp: scanned_def seen_since_def session_step_def)
  obtain rs where rs: "t_runs (w_db w1) = rs @ [run]" "map (\<lambda>r. (sr_id r, sr_started r)) rs = map (\<lambda>r. (sr_id r, sr_started r)) (t_runs (w_db w))"
    using f1 by auto
  have "map sr_started rs = map sr_started (t_runs (w_db w))" using arg_cong [where f = "map snd", OF rs(2)] by (simp add: comp_def)
  then have "set (map sr_started (t_runs (w_db w2))) = insert (w_begin w) (set (map sr_started (t_runs (w_db w))))"
    using si f1 rs(1) by (simp add: scanned_def del: set_map)
  moreover have "w_begin w2 = w_begin w" using si f1 by (simp add: scanned_def session_step_def)
  ultimately show thesis using that [OF sc cl] si seen by (simp add: scanned_def)
qed

text \<open>C4: A resource is retired only by a completed scan of its scope that did not return it, when
  the two latest successful runs of the scope both started after it was last seen. A scan that
  fails or is a dry run retires nothing.\<close>

theorem retired_only_when_missed_twice:
  assumes "resources_ok w" and "clock_ok w" and "\<forall>r\<in>set (t_runs (w_db w)). sr_started r \<le> w_begin w"
    and "run_region_job j region account aws dry force job w = (res, w')"
    and "r' \<in> set (t_resources (w_db w'))" and "rr_retired r' \<noteq> None"
    and "r' \<notin> set (t_resources (w_db w))" and "r' \<notin> set (t_resources (w_saved w))"
  shows "\<not> dry \<and> (\<exists>items r1 r2. jb_scan j aws [region] = (items, None) \<and>
     (\<forall>raw\<in>set items. native_id_for_job j raw \<noteq> Inr (rr_native r')) \<and>
     rr_account r' = account \<and> rr_region r' = region \<and> rr_type r' = jb_type j \<and>
     recent_successful_runs \<lparr>sc_account = account, sc_region = region, sc_type = jb_type j, sc_source = jb_source j\<rparr> 2 (w_db w') = [r1, r2] \<and>
     rr_last_seen r' < sr_started r1 \<and> rr_last_seen r' < sr_started r2)"
proof -
  let ?s = "\<lparr>sc_account = account, sc_region = region, sc_type = jb_type j, sc_source = jb_source j\<rparr>"
  have "w_db w' \<noteq> w_saved w" using assms(5,8) by auto
  then obtain i items e p ended w2
    where sc: "jb_scan j aws [region] = (items, e)" and cl: "close_run ?s i dry p ended w2 = (res, w')"
      and natives: "ended = None \<longrightarrow> e = None \<and> (\<forall>raw\<in>set items. \<exists>n. native_id_for_job j raw = Inr n \<and> has_live account region (jb_type j) n w2)"
      and ok: "resources_ok w2" and seen: "seen_since w w2" and b: "w_begin w2 = w_begin w"
      and started: "set (map sr_started (t_runs (w_db w2))) = insert (w_begin w) (set (map sr_started (t_runs (w_db w))))"
    by (rule run_region_stages [OF assms(1,2,4)])
  let ?w3 = "finish_run i (if ended = None then Success else Failed) (Some (n_resources p)) (Option.bind ended region_error) w2"
  have res3: "t_resources (w_db ?w3) = t_resources (w_db w2)" by (rule finish_run_facts)
  have not2: "r' \<notin> set (t_resources (w_db w2))" using seen assms(6,7) by (auto simp: seen_since_def)
  have fin: "ended = None \<and> \<not> dry \<and> w' = snd (retire_stale_resources ?s ?w3)"
    using cl not2 assms(5) res3 by (auto simp: close_run_def Let_def split: if_splits option.splits)
  then obtain n where "retire_stale_resources ?s ?w3 = (n, w')" by (metis prod.collapse)
  note rf = retire_facts [OF this assms(5)]
  then obtain r1 r2 r t where rr: "recent_successful_runs ?s 2 (w_db ?w3) = [r1, r2]" "r \<in> set (t_resources (w_db w2))"
      "r' = r\<lparr>rr_retired := Some t\<rparr>" "rr_account r = account" "rr_region r = region" "rr_type r = jb_type j"
      "rr_last_seen r < sr_started r2" "sr_started r2 \<le> sr_started r1" "r2 \<in> set (t_runs (w_db ?w3))"
    using not2 res3 by auto
  have recent: "recent_successful_runs ?s 2 (w_db w') = [r1, r2]"
    using rr(1) rf by (metis db.select_convs(5) db.surjective db.update_convs(2) recent_successful_runs_def)
  have "sr_started r2 \<in> set (map sr_started (t_runs (w_db ?w3)))" using rr(9) by simp
  then have "sr_started r2 \<le> w_begin w" unfolding finish_run_facts(3) started using assms(3) by auto
  then have old: "rr_last_seen r < w_begin w2" using rr(7) b by simp
  have "native_id_for_job j raw \<noteq> Inr (rr_native r)" if raw: "raw \<in> set items" for raw
  proof
    assume "native_id_for_job j raw = Inr (rr_native r)"
    then obtain x where x: "x \<in> set (t_resources (w_db w2))" "natural_key account region (jb_type j) (rr_native r) x" "w_begin w2 \<le> rr_last_seen x"
      using natives fin raw by (auto simp: has_live_def)
    have "resource_key x = resource_key r" using x(2) rr by (auto simp: resource_key_def natural_key_def)
    then have "x = r" using x(1) rr(2) ok by (simp add: resources_ok_def distinct_map inj_on_def)
    then show False using x(3) old by simp
  qed
  then show ?thesis using fin sc natives rr recent by auto
qed


definition idle_aws :: aws_session where
  "idle_aws = \<lparr>describe_db_instances = \<lambda>r. ([], None), describe_volumes = \<lambda>r. ([], None),
     describe_snapshots = \<lambda>r. ([], None), describe_instances = \<lambda>r. ([], None)\<rparr>"

definition gone_db :: db where
  "gone_db = empty_db\<lparr>
     t_resources := [\<lparr>rr_id = 5, rr_account = 1, rr_region = ''eu-west-1'', rr_type = ''AWS::RDS::DBInstance'', rr_native = ''arn:db'',
       rr_first_seen = 0, rr_last_seen = 0, rr_retired = None\<rparr>],
     t_runs := [\<lparr>sr_id = 6, sr_account = 1, sr_region = ''eu-west-1'', sr_type = ''AWS::RDS::DBInstance'', sr_source = ''aws_rds'',
       sr_started = 10, sr_finished = Some 11, sr_status = Success, sr_found = Some 0, sr_error = None, sr_job = None\<rparr>]\<rparr>"

definition gone_world :: world where
  "gone_world = \<lparr>w_db = gone_db, w_saved = gone_db, w_clock = \<lambda>n. 20 + int n, w_tick = 0, w_uuids = \<lambda>n. 7, w_next = 0, w_begin = 20\<rparr>"

theorem retired_only_when_missed_twice_witness:
  "\<exists>res w' r1 r2. run_region_job (snd (hd JOB_REGISTRY)) ''eu-west-1'' 1 idle_aws False False None gone_world = (res, w') \<and>
     recent_successful_runs \<lparr>sc_account = 1, sc_region = ''eu-west-1'', sc_type = ''AWS::RDS::DBInstance'', sc_source = ''aws_rds''\<rparr> 2 (w_db w') = [r1, r2] \<and>
     0 < sr_started r1 \<and> 0 < sr_started r2"
proof -
  let ?j = "snd (hd JOB_REGISTRY)"
  let ?r = "\<lparr>rr_id = 5, rr_account = 1, rr_region = ''eu-west-1'', rr_type = ''AWS::RDS::DBInstance'', rr_native = ''arn:db'',
       rr_first_seen = 0, rr_last_seen = 0, rr_retired = Some 21\<rparr> :: resource_row"
  obtain res w' where run: "run_region_job ?j ''eu-west-1'' 1 idle_aws False False None gone_world = (res, w')" by (metis surj_pair)
  have ok: "resources_ok gone_world" "clock_ok gone_world" "\<forall>r\<in>set (t_runs (w_db gone_world)). sr_started r \<le> w_begin gone_world"
    by (simp_all add: resources_ok_def clock_ok_def gone_world_def gone_db_def mono_def)
  have "t_resources (w_db (snd (run_region_job ?j ''eu-west-1'' 1 idle_aws False False None gone_world))) = [?r]"
    by code_simp
  then have r: "?r \<in> set (t_resources (w_db w'))" using run by simp
  have n: "?r \<notin> set (t_resources (w_db gone_world))" "?r \<notin> set (t_resources (w_saved gone_world))"
    by (simp_all add: gone_world_def gone_db_def)
  from retired_only_when_missed_twice [OF ok run r _ n] show ?thesis
    using run by (auto simp: JOB_REGISTRY_def RDS_RESOURCE_TYPE_def RDS_SOURCE_def)
qed

section \<open>Errors of a region\<close>


definition busy_run :: source_run where
  "busy_run = \<lparr>sr_id = 6, sr_account = 1, sr_region = ''eu-west-1'', sr_type = ''AWS::EC2::Volume'', sr_source = ''aws_ec2'',
     sr_started = 19, sr_finished = None, sr_status = Running, sr_found = None, sr_error = None, sr_job = None\<rparr>"

definition busy_world :: world where
  "busy_world = gone_world\<lparr>w_db := gone_db\<lparr>t_runs := busy_run # t_runs gone_db\<rparr>, w_saved := empty_db\<lparr>t_runs := [busy_run]\<rparr>\<rparr>"


section \<open>The circuit breaker\<close>

definition region_failed :: "collection \<Rightarrow> string \<Rightarrow> bool" where
  "region_failed c region = (\<exists>key m. region @ '' ('' @ key @ ''): '' @ m \<in> set (cl_errors c))"

lemma region_jobs_facts:
  assumes "region_jobs region account aws dry force job js (c, items, bad) w = (Inr (c', items', bad'), w')"
  shows "(\<exists>es. cl_errors c' = cl_errors c @ es) \<and> cl_skipped c' = cl_skipped c \<and> cl_consecutive c' = cl_consecutive c \<and>
    (bad' \<longrightarrow> bad \<or> region_failed c' region)"
  using assms
proof (induction js arbitrary: c items bad w)
  case Nil
  then show ?case by simp
next
  case (Cons j js)
  obtain r w1 where r: "run_region_job j region account aws dry force job w = (Inr r, w1)"
    using Cons.prems by (cases "run_region_job j region account aws dry force job w") (auto split: sum.splits)
  let ?c = "add_counts r c"
  have add: "cl_errors ?c = cl_errors c" "cl_skipped ?c = cl_skipped c" "cl_consecutive ?c = cl_consecutive c"
    by (simp_all add: add_counts_def)
  show ?case
  proof (cases "rg_error r")
    case None
    then show ?thesis using Cons r add by (fastforce simp: Let_def)
  next
    case (Some m)
    let ?m = "region @ '' ('' @ jb_key j @ ''): '' @ m"
    let ?d = "?c\<lparr>cl_errors := cl_errors ?c @ [?m]\<rparr>"
    have "region_jobs region account aws dry force job js (?d, items, True) w1 = (Inr (c', items', bad'), w')"
      using Cons.prems r Some by (simp add: Let_def)
    from Cons.IH [OF this] have ih: "\<exists>es. cl_errors c' = cl_errors c @ [?m] @ es" "cl_skipped c' = cl_skipped c" "cl_consecutive c' = cl_consecutive c"
      using add by auto
    then have "region_failed c' region" unfolding region_failed_def by fastforce
    then show ?thesis using ih by auto
  qed
qed

lemma correlate_facts:
  "correlate account dry items c w = (Inr c', w') \<Longrightarrow> cl_errors c' = cl_errors c \<and> cl_skipped c' = cl_skipped c \<and> cl_consecutive c' = cl_consecutive c"
  by (auto simp: correlate_def Let_def split: if_splits sum.splits list.splits prod.splits)

lemma region_failed_mono: "region_failed c r \<Longrightarrow> \<exists>es. cl_errors c' = cl_errors c @ es \<Longrightarrow> region_failed c' r"
  by (fastforce simp: region_failed_def)

lemma collect_regions_open:
  assumes "collect_regions account aws dry force job jobs max_errors regions c w = (Inr c', w')"
    and "max_errors \<le> int (cl_consecutive c)"
  shows "(\<exists>es. cl_errors c' = cl_errors c @ es) \<and> cl_skipped c' = cl_skipped c @ regions"
  using assms
proof (induction regions arbitrary: c)
  case Nil
  then show ?case by simp
next
  case (Cons region regions)
  let ?d = "c\<lparr>cl_errors := cl_errors c @ [region @ '': '' @ breaker_message (cl_consecutive c) max_errors], cl_skipped := cl_skipped c @ [region]\<rparr>"
  have "collect_regions account aws dry force job jobs max_errors regions ?d w = (Inr c', w')"
    using Cons.prems by simp
  from Cons.IH [OF this] show ?case using Cons.prems(2) by auto
qed

lemma collect_regions_breaker:
  assumes "collect_regions account aws dry force job jobs max_errors regions c w = (Inr c', w')"
    and "cl_consecutive c \<le> length tried" and "\<forall>r\<in>set (drop (length tried - cl_consecutive c) tried). region_failed c r"
  shows "\<exists>k. cl_skipped c' = cl_skipped c @ drop k regions \<and> (\<exists>es. cl_errors c' = cl_errors c @ es) \<and>
    (k < length regions \<longrightarrow> max_errors \<le> int (length tried + k) \<and>
       (\<forall>r\<in>set (drop (length tried + k - nat max_errors) (tried @ take k regions)). region_failed c' r))"
  using assms
proof (induction regions arbitrary: c w tried)
  case Nil
  then show ?case by (intro exI [of _ 0]) auto
next
  case (Cons region regions)
  show ?case
  proof (cases "int (cl_consecutive c) \<ge> max_errors")
    case True
    let ?d = "c\<lparr>cl_errors := cl_errors c @ [region @ '': '' @ breaker_message (cl_consecutive c) max_errors], cl_skipped := cl_skipped c @ [region]\<rparr>"
    have e: "collect_regions account aws dry force job jobs max_errors regions ?d w = (Inr c', w')"
      using Cons.prems(1) True by simp
    have all: "\<exists>es. cl_errors c' = cl_errors c @ es" "cl_skipped c' = cl_skipped c @ region # regions"
      using collect_regions_open [OF e] True by auto
    have "nat max_errors \<le> cl_consecutive c" using True by linarith
    then have "set (drop (length tried - nat max_errors) tried) \<subseteq> set (drop (length tried - cl_consecutive c) tried)"
      by (intro set_drop_subset_set_drop) simp
    then have "\<forall>r\<in>set (drop (length tried - nat max_errors) tried). region_failed c' r"
      using Cons.prems(3) region_failed_mono [OF _ all(1)] by blast
    then show ?thesis using all True Cons.prems(2) by (intro exI [of _ 0]) auto
  next
    case False
    obtain c1 items bad w1 where j: "region_jobs region account aws dry force job jobs (c, [], False) w = (Inr (c1, items, bad), w1)"
      using Cons.prems(1) False by (auto split: sum.splits prod.splits)
    obtain c2 w2 where co: "correlate account dry items c1 w1 = (Inr c2, w2)"
      using Cons.prems(1) False j by (auto split: sum.splits prod.splits)
    let ?d = "c2\<lparr>cl_consecutive := (if bad then Suc (cl_consecutive c2) else 0)\<rparr>"
    have e: "collect_regions account aws dry force job jobs max_errors regions ?d w2 = (Inr c', w')"
      using Cons.prems(1) False j co by simp
    note f = region_jobs_facts [OF j] correlate_facts [OF co]
    have ext: "\<exists>es. cl_errors ?d = cl_errors c @ es" "cl_skipped ?d = cl_skipped c" "cl_consecutive c2 = cl_consecutive c" using f by auto
    have last: "\<forall>r\<in>set (drop (length (tried @ [region]) - cl_consecutive ?d) (tried @ [region])). region_failed ?d r"
    proof (cases bad)
      case True
      then have "region_failed ?d region" using f by (simp add: region_failed_def)
      moreover have "length (tried @ [region]) - cl_consecutive ?d = length tried - cl_consecutive c" using True ext by simp
      ultimately show ?thesis using Cons.prems(3) region_failed_mono [OF _ ext(1)] by auto
    qed simp
    have "cl_consecutive ?d \<le> length (tried @ [region])" using Cons.prems(2) ext by simp
    from Cons.IH [OF e this last] obtain k where k: "cl_skipped c' = cl_skipped ?d @ drop k regions" "\<exists>es. cl_errors c' = cl_errors ?d @ es"
      "k < length regions \<longrightarrow> max_errors \<le> int (length (tried @ [region]) + k) \<and>
       (\<forall>r\<in>set (drop (length (tried @ [region]) + k - nat max_errors) ((tried @ [region]) @ take k regions)). region_failed c' r)" by blast
    moreover have "\<exists>es. cl_errors c' = cl_errors c @ es" using k(2) ext(1) by auto
    ultimately show ?thesis using ext(2) by (intro exI [of _ "Suc k"]) auto
  qed
qed

text \<open>The circuit breaker skips a region only behind \<open>max_errors\<close> consecutive regions with a
  recorded error, and then all the remaining ones; no region in between is left out.\<close>

theorem breaker_skips_rest_after_errors:
  assumes "collect_regions account aws dry force job jobs max_errors regions new_collection w = (Inr c, w')"
  shows "\<exists>k. cl_skipped c = drop k regions \<and> (k < length regions \<longrightarrow> max_errors \<le> int k \<and>
    (\<forall>r\<in>set (drop (k - nat max_errors) (take k regions)). region_failed c r))"
  using collect_regions_breaker [OF assms, of "[]"] by (auto simp: new_collection_def)

definition denied_aws :: aws_session where
  "denied_aws = idle_aws\<lparr>describe_volumes := \<lambda>r. ([], Some (ClientError ''AccessDenied'' ''no''))\<rparr>"

theorem breaker_skips_rest_after_errors_witness:
  "\<exists>c w' k. collect_regions 1 denied_aws True False None [snd (JOB_REGISTRY ! 1)] 1 [''eu-west-1'', ''us-east-1''] new_collection gone_world = (Inr c, w') \<and>
     cl_skipped c = [''us-east-1''] \<and> cl_skipped c = drop k [''eu-west-1'', ''us-east-1'']"
proof -
  let ?r = "collect_regions 1 denied_aws True False None [snd (JOB_REGISTRY ! 1)] 1 [''eu-west-1'', ''us-east-1''] new_collection gone_world"
  have e: "case fst ?r of Inr c \<Rightarrow> cl_skipped c = [''us-east-1''] | Inl _ \<Rightarrow> False" by code_simp
  then obtain c where c: "fst ?r = Inr c" "cl_skipped c = [''us-east-1'']" by (auto split: sum.splits)
  then have r: "?r = (Inr c, snd ?r)" by (metis prod.collapse)
  from breaker_skips_rest_after_errors [OF r] show ?thesis using r c(2) by blast
qed

end
