(* ===== verification/Runner.thy ===== *)
theory Runner
  imports InsightStore FocusStore CollectorAws EolEngines StorageRules StoppedStorage
begin

text \<open>
  The insight runner (\<open>insights/runner.py\<close>): the registries of rules and of their sources, the proof of a
  scope by a fresh successful scan, the run of a resource rule over the inventory with its
  delete-and-replace, acknowledgement carry-over and life-cycle events, the chargeback run over the stored
  FOCUS charges, and the dispatcher.

  \<open>sha\<close> is the SHA-256 digest in hexadecimal and \<open>local_date\<close> the calendar date of an instant in the
  zone of the process. A failed flush leaves a session that refuses every later statement, so that the run
  ends with \<open>PendingRollbackError\<close>.
\<close>

section \<open>Registries\<close>

type_synonym evaluator = "uuid \<Rightarrow> fact list \<Rightarrow> date option \<Rightarrow> date \<Rightarrow> outcome res"

definition RESOURCE_RULES :: "(string, evaluator) dict" where
  "RESOURCE_RULES = [
    (''rds_eol'', rds_eol_evaluate), (''mysql_eol'', mysql_eol_evaluate), (''aurora_eol'', aurora_eol_evaluate),
    (''ebs_gp2_to_gp3'', ebs_gp2_to_gp3_evaluate), (''ebs_unattached'', ebs_unattached_evaluate),
    (''snapshot_orphan'', snapshot_orphan_evaluate), (''ec2_stopped_with_storage'', ec2_stopped_evaluate)]"

definition RULE_SOURCES :: "(string, string) dict" where
  "RULE_SOURCES = [
    (''rds_eol'', ''aws_rds''), (''mysql_eol'', ''aws_rds''), (''aurora_eol'', ''aws_rds''),
    (''ebs_gp2_to_gp3'', ''aws_ec2''), (''ebs_unattached'', ''aws_ec2''),
    (''snapshot_orphan'', ''aws_ec2''), (''ec2_stopped_with_storage'', ''aws_ec2'')]"

definition DEFAULT_SOURCE :: string where
  "DEFAULT_SOURCE = ''aws_rds''"

definition DEFAULT_SCOPE_MAX_AGE :: int where
  "DEFAULT_SCOPE_MAX_AGE = hours 24"

record run_result =
  rs_rule :: string
  rs_scanned :: nat
  rs_insights :: nat
  rs_inconclusive :: nat
  rs_errors :: "(uuid \<times> exn) list"
  rs_period :: string

section \<open>Is the scope proven?\<close>

definition scope_of :: "string \<Rightarrow> resource_row \<Rightarrow> scope" where
  "scope_of source r = \<lparr>sc_account = rr_account r, sc_region = rr_region r, sc_type = rr_type r, sc_source = source\<rparr>"

definition is_scope_proven :: "resource_row \<Rightarrow> string \<Rightarrow> int option \<Rightarrow> world \<Rightarrow> bool \<times> world" where
  "is_scope_proven r source max_age w =
    (case latest_successful_run (scope_of source r) max_age w of (run, w) \<Rightarrow> (run \<noteq> None, w))"

text \<open>\<open>str()\<close> of a \<open>timedelta\<close>.\<close>

definition str_timedelta :: "int \<Rightarrow> string" where
  "str_timedelta t =
    (let d = t div 86400000000; s = t mod 86400000000 div 1000000; us = t mod 1000000 in
     (if d = 0 then [] else str_of_int d @ '' day'' @ (if \<bar>d\<bar> = 1 then [] else ''s'') @ '', '') @
     str_of_int (s div 3600) @ '':'' @ nat_str2 (s div 60 mod 60) @ '':'' @ nat_str2 (s mod 60) @
     (if us = 0 then [] else ''.'' @ pad0 6 (str_of_nat (nat us))))"

definition str_or_None :: "int option \<Rightarrow> string" where
  "str_or_None t = (case t of None \<Rightarrow> ''None'' | Some t \<Rightarrow> str_timedelta t)"

definition scope_name :: "resource_row \<Rightarrow> string" where
  "scope_name r = ''('' @ rr_region r @ '', '' @ rr_type r @ '')''"

definition scope_inconclusive :: "resource_row \<Rightarrow> string \<Rightarrow> string \<Rightarrow> int option \<Rightarrow> world \<Rightarrow> inconclusive option \<times> world" where
  "scope_inconclusive r rule source max_age w =
    (let (proven, w) = is_scope_proven r source max_age w;
         inc = (\<lambda>missing reason. \<lparr>inc_rule = rule, inc_resource = Some (rr_id r), inc_account = Some (uuid_str (rr_account r)),
           inc_missing = [missing], inc_reason = Some reason\<rparr>)
     in if proven then (None, w)
        else (case latest_successful_run (scope_of source r) None w of
          (None, w) \<Rightarrow> (Some (inc ''scope_not_proven'' (''no successful source_run for '' @ scope_name r)), w)
        | (Some run, w) \<Rightarrow>
          (let (age, w) = (case sr_finished run of None \<Rightarrow> (None, w) | Some f \<Rightarrow> let (t, w) = now w in (Some (t - f), w))
           in (Some (inc ''scope_stale'' (''scope_stale: latest successful source_run for '' @ scope_name r @ '' is '' @
                 str_or_None age @ '' old, older than the freshness window '' @ str_or_None max_age)), w))))"

section \<open>One resource\<close>

definition evaluate_resource ::
    "(instant \<Rightarrow> date) \<Rightarrow> resource_row \<Rightarrow> string \<Rightarrow> evaluator \<Rightarrow> fact list \<Rightarrow> string \<Rightarrow> date option \<Rightarrow> int option \<Rightarrow> world \<Rightarrow>
     (insight list \<times> inconclusive list) res \<times> world" where
  "evaluate_resource local_date r rule evaluate_fn facts source today max_age w =
    (let inc = (\<lambda>missing reason. \<lparr>inc_rule = rule, inc_resource = Some (rr_id r), inc_account = Some (uuid_str (rr_account r)),
           inc_missing = missing, inc_reason = Some reason\<rparr>) in
     case scope_inconclusive r rule source max_age w of
       (Some x, w) \<Rightarrow> (Inr ([], [x]), w)
     | (None, w) \<Rightarrow>
       if facts = [] then (Inr ([], [inc [''<no facts>''] ''no facts observed for this resource'']), w)
       else (let (t, w) = now w in
         case evaluate_fn (rr_id r) facts today (local_date t) of
           Inl e \<Rightarrow> (Inl e, w)
         | Inr result \<Rightarrow> (Inr (insights result,
             if is_conclusive result then [] else [inc (inconclusive_reasons result) ''missing_facts'']), w)))"

text \<open>The inserts of one resource, up to the first exception; the number is that of the rows written.\<close>

fun insert_all :: "('a \<Rightarrow> world \<Rightarrow> 'b res \<times> world) \<Rightarrow> 'a list \<Rightarrow> nat \<Rightarrow> world \<Rightarrow> (nat \<times> exn option) \<times> world" where
  "insert_all ins [] n w = ((n, None), w)"
| "insert_all ins (x # xs) n w =
    (case ins x w of (Inl e, w) \<Rightarrow> ((n, Some e), w) | (Inr _, w) \<Rightarrow> insert_all ins xs (Suc n) w)"

record tally =
  n_insights :: nat
  n_inconclusive :: nat
  n_errors :: "(uuid \<times> exn) list"

definition add_error :: "uuid \<Rightarrow> exn option \<Rightarrow> tally \<Rightarrow> tally" where
  "add_error i e k = (case e of None \<Rightarrow> k | Some e \<Rightarrow> k\<lparr>n_errors := n_errors k @ [(i, e)]\<rparr>)"

text \<open>An \<open>IntegrityError\<close> ends the run: what the loop still does cannot be seen.\<close>

definition run_resource ::
    "(instant \<Rightarrow> date) \<Rightarrow> string \<Rightarrow> evaluator \<Rightarrow> string \<Rightarrow> date option \<Rightarrow> int option \<Rightarrow> (uuid option, fact list) dict \<Rightarrow>
     resource_row \<Rightarrow> tally \<Rightarrow> world \<Rightarrow> tally res \<times> world" where
  "run_resource local_date rule evaluate_fn source today max_age facts r k w =
    (case evaluate_resource local_date r rule evaluate_fn (get_default facts (Some (rr_id r)) []) source today max_age w of
       (Inl e, w) \<Rightarrow> (Inr (add_error (rr_id r) (Some e) k), w)
     | (Inr (gaps, unknowns), w) \<Rightarrow>
       (case insert_all insert_insight gaps 0 w of
          ((n, Some e), w) \<Rightarrow> if e = IntegrityError then (Inl (RuntimeError ''PendingRollbackError''), w)
            else (Inr (add_error (rr_id r) (Some e) (k\<lparr>n_insights := n_insights k + n\<rparr>)), w)
        | ((n, None), w) \<Rightarrow>
          (case insert_all insert_inconclusive unknowns 0 w of
             ((m, e), w) \<Rightarrow> (Inr (add_error (rr_id r) e
               (k\<lparr>n_insights := n_insights k + n, n_inconclusive := n_inconclusive k + m\<rparr>)), w))))"

fun run_resources ::
    "(instant \<Rightarrow> date) \<Rightarrow> string \<Rightarrow> evaluator \<Rightarrow> string \<Rightarrow> date option \<Rightarrow> int option \<Rightarrow> (uuid option, fact list) dict \<Rightarrow>
     resource_row list \<Rightarrow> tally \<Rightarrow> world \<Rightarrow> tally res \<times> world" where
  "run_resources local_date rule evaluate_fn source today max_age facts [] k w = (Inr k, w)"
| "run_resources local_date rule evaluate_fn source today max_age facts (r # rs) k w =
    (case run_resource local_date rule evaluate_fn source today max_age facts r k w of
       (Inl e, w) \<Rightarrow> (Inl e, w)
     | (Inr k, w) \<Rightarrow> run_resources local_date rule evaluate_fn source today max_age facts rs k w)"

section \<open>The run of a resource rule\<close>

definition start_insight_run :: "string \<Rightarrow> world \<Rightarrow> uuid \<times> world" where
  "start_insight_run rule w =
    (let (i, w) = fresh w;
         run = \<lparr>nu_id = i, nu_rule = rule, nu_started = w_begin w, nu_finished = None, nu_status = Running,
           nu_scanned = None, nu_emitted = None\<rparr>
     in (i, commit (with_insight_runs (\<lambda>rs. rs @ [run]) w)))"

definition finish_insight_run :: "uuid \<Rightarrow> run_status \<Rightarrow> nat \<Rightarrow> nat \<Rightarrow> world \<Rightarrow> world" where
  "finish_insight_run i status n_scanned emitted w =
    (let (t, w) = now w in
     with_insight_runs (update_where (\<lambda>r. nu_id r = i) (\<lambda>r. r\<lparr>nu_finished := Some t, nu_status := status,
       nu_scanned := Some n_scanned, nu_emitted := Some emitted\<rparr>)) w)"

definition clear_rule :: "string \<Rightarrow> world \<Rightarrow> world" where
  "clear_rule rule w = snd (delete_inconclusive_for_rule rule (snd (delete_insights_for_rule rule w)))"

text \<open>Everything behind the loop: FOCUS context, acknowledgements, events, the run's row, commit.\<close>

definition close_rule ::
    "(string \<Rightarrow> string) \<Rightarrow> string \<Rightarrow> (string, insight_row) dict \<Rightarrow> (string, ack) dict \<Rightarrow> uuid \<Rightarrow> nat \<Rightarrow> tally \<Rightarrow> world \<Rightarrow>
     run_result res \<times> world" where
  "close_rule sha rule previous acks run n_scanned k w =
    (case reconcile_with_focus rule w of
       (Inl e, w) \<Rightarrow> (Inl e, w)
     | (Inr _, w) \<Rightarrow>
       (let w = snd (apply_acks_to_rule rule acks w) in
        case diff_and_record_events sha rule previous (Some run) w of
          (Inl e, w) \<Rightarrow> (Inl e, w)
        | (Inr _, w) \<Rightarrow>
          (let w = finish_insight_run run (if n_errors k = [] then Success else Partial) n_scanned (n_insights k) w
           in (Inr \<lparr>rs_rule = rule, rs_scanned = n_scanned, rs_insights = n_insights k, rs_inconclusive = n_inconclusive k,
                 rs_errors = n_errors k, rs_period = []\<rparr>, commit w))))"

definition run_resource_rule ::
    "(string \<Rightarrow> string) \<Rightarrow> (instant \<Rightarrow> date) \<Rightarrow> string \<Rightarrow> date option \<Rightarrow> int option \<Rightarrow> world \<Rightarrow> run_result res \<times> world" where
  "run_resource_rule sha local_date rule today max_age w =
    (case dict_get RESOURCE_RULES rule of
       None \<Rightarrow> (Inl ValueError, w)
     | Some evaluate_fn \<Rightarrow>
       (let source = get_default RULE_SOURCES rule DEFAULT_SOURCE;
            (run, w) = start_insight_run rule w;
            resources = t_resources (w_db w);
            previous = snapshot_rule sha rule (w_db w);
            acks = snapshot_acks rule (w_db w);
            w = clear_rule rule w;
            facts = group_by fact_resource (list_facts_for_resources (map rr_id resources) (w_db w))
        in case run_resources local_date rule evaluate_fn source today max_age facts resources
                  \<lparr>n_insights = 0, n_inconclusive = 0, n_errors = []\<rparr> w of
             (Inl e, w) \<Rightarrow> (Inl e, w)
           | (Inr k, w) \<Rightarrow> close_rule sha rule previous acks run (length resources) k w))"

section \<open>The chargeback run\<close>

text \<open>The accounts of the set are taken in the order of their first row.\<close>

text \<open>The display names by account: the last row of an account counts, an empty name is left out.\<close>

definition account_names_of :: "db \<Rightarrow> (string, string) dict" where
  "account_names_of d = dict_of (map (\<lambda>a. (uuid_str (ac_id a), ac_name a)) (filter (\<lambda>a. ac_name a \<noteq> []) (t_accounts d)))"

definition account_charges :: "uuid \<Rightarrow> db \<Rightarrow> focus_charge list" where
  "account_charges account d =
    (let rows = filter (\<lambda>r. fo_account r = account) (t_focus d); ids = map fo_id rows;
         tags = load_per_row_tags_for d ids; costs = load_per_row_costs_for d ids
     in map (\<lambda>r. charge_of_row (dict_get tags (fo_id r)) (dict_get costs (fo_id r))
          (get_default (account_names_of d) (uuid_str (fo_account r)) []) r) rows)"

definition account_insights :: "string \<Rightarrow> string option \<Rightarrow> uuid \<Rightarrow> db \<Rightarrow> insight list res" where
  "account_insights plabel tag_key account d =
    (let charges = account_charges account d in
     rbind (case tag_key of None \<Rightarrow> aggregate_by_period charges
        | Some k \<Rightarrow> if k = [] then aggregate_by_period charges else aggregate_by_tag k charges)
       (build_insights plabel))"

fun charge_accounts :: "string \<Rightarrow> string option \<Rightarrow> uuid list \<Rightarrow> tally \<Rightarrow> world \<Rightarrow> tally res \<times> world" where
  "charge_accounts plabel tag_key [] k w = (Inr k, w)"
| "charge_accounts plabel tag_key (a # as) k w =
    (case account_insights plabel tag_key a (w_db w) of
       Inl e \<Rightarrow> charge_accounts plabel tag_key as (add_error a (Some e) k) w
     | Inr gaps \<Rightarrow>
       (case insert_all insert_insight gaps 0 w of
          ((n, e), w) \<Rightarrow> if e = Some IntegrityError then (Inl (RuntimeError ''PendingRollbackError''), w)
            else charge_accounts plabel tag_key as (add_error a e (k\<lparr>n_insights := n_insights k + n\<rparr>)) w))"

definition chargeback_metadata :: "nat \<Rightarrow> tally \<Rightarrow> string option \<Rightarrow> payload" where
  "chargeback_metadata n_scanned k tag_key = [
    (''accounts_scanned'', PInt (int n_scanned)), (''insights_emitted'', PInt (int (n_insights k))),
    (''errors_count'', PInt (int (length (n_errors k)))), (''has_tag_key'', PBool (tag_key \<noteq> None))]"

definition close_chargeback ::
    "(string \<Rightarrow> string) \<Rightarrow> string \<Rightarrow> string option \<Rightarrow> (string, insight_row) dict \<Rightarrow> (string, ack) dict \<Rightarrow> uuid \<Rightarrow> nat \<Rightarrow> tally \<Rightarrow> world \<Rightarrow>
     run_result res \<times> world" where
  "close_chargeback sha plabel tag_key previous acks run n_scanned k w =
    (let w = finish_insight_run run (if n_errors k = [] then Success else Partial) n_scanned (n_insights k) w;
         w = snd (apply_acks_to_rule ''chargeback'' acks w)
     in case diff_and_record_events sha ''chargeback'' previous (Some run) w of
          (Inl e, w) \<Rightarrow> (Inl e, w)
        | (Inr _, w) \<Rightarrow>
          (case record_event ''chargeback_run'' (Some ''system:insights_runner'') (Some ''rule'') (Some ''chargeback'')
                  (chargeback_metadata n_scanned k tag_key) w of
             (Inl e, w) \<Rightarrow> (Inl e, w)
           | (Inr _, w) \<Rightarrow>
             (Inr \<lparr>rs_rule = ''chargeback'', rs_scanned = n_scanned, rs_insights = n_insights k, rs_inconclusive = 0,
                 rs_errors = n_errors k, rs_period = (case tag_key of None \<Rightarrow> plabel
                   | Some key \<Rightarrow> if key = [] then plabel else plabel @ '' tag_key='' @ key)\<rparr>, commit w)))"

definition run_chargeback :: "(string \<Rightarrow> string) \<Rightarrow> string \<Rightarrow> string option \<Rightarrow> world \<Rightarrow> run_result res \<times> world" where
  "run_chargeback sha plabel tag_key w =
    (let (run, w) = start_insight_run ''chargeback'' w;
         previous = snapshot_rule sha ''chargeback'' (w_db w);
         acks = snapshot_acks ''chargeback'' (w_db w);
         w = snd (delete_insights_for_rule ''chargeback'' w);
         accounts = remdups (map fo_account (t_focus (w_db w)))
     in case charge_accounts plabel tag_key accounts \<lparr>n_insights = 0, n_inconclusive = 0, n_errors = []\<rparr> w of
          (Inl e, w) \<Rightarrow> (Inl e, w)
        | (Inr k, w) \<Rightarrow> close_chargeback sha plabel tag_key previous acks run (length accounts) k w)"

section \<open>The dispatcher\<close>

definition RUNNERS :: "string list" where
  "RUNNERS = map fst RESOURCE_RULES @ [''chargeback'']"

definition run_rule ::
    "(string \<Rightarrow> string) \<Rightarrow> (instant \<Rightarrow> date) \<Rightarrow> string \<Rightarrow> date option \<Rightarrow> string \<Rightarrow> string option \<Rightarrow> world \<Rightarrow> run_result res \<times> world" where
  "run_rule sha local_date rule today plabel tag_key w =
    (if rule \<notin> set RUNNERS then (Inl ValueError, w)
     else if rule = ''chargeback'' then run_chargeback sha plabel tag_key w
     else run_resource_rule sha local_date rule today (Some DEFAULT_SCOPE_MAX_AGE) w)"

section \<open>The contract of a resource rule\<close>

lemma make_eol_insight_about:
  "make_eol_insight config m rid acct major version vcpu region info current days severity title rec cv = Inr i \<Longrightarrow>
    ins_rule i = eol_rule_name config \<and> ins_resource i = Some rid"
  by (auto simp: make_eol_insight_def Let_def rmap_Inr_iff)

lemma evaluate_eol_about:
  assumes "evaluate_eol rid facts config today clock cv = Inr out"
  shows "outcome_ok out \<and> (\<forall>i\<in>set (insights out). ins_rule i = eol_rule_name config \<and> ins_resource i = Some rid)"
  using assms
  by (auto simp: evaluate_eol_def eol_branches_def Let_def rbind_Inr_iff rmap_Inr_iff dest: make_eol_insight_about
      split: if_splits option.splits sum.splits)

lemma evaluate_storage_about:
  assumes "evaluate_storage rid facts config today clock cv = Inr out"
  shows "outcome_ok out \<and> (\<forall>i\<in>set (insights out). ins_rule i = storage_rule_name config \<and> ins_resource i = Some rid)"
proof (cases "insights out = []")
  case False
  then show ?thesis
    using evaluate_storage_found [OF assms False] make_storage_insight_simps
    by (metis list.set_cases list.simps(15) outcome.select_convs(1) outcome_ok_simps(3) set_ConsD empty_iff list.set(1))
qed (simp add: outcome_ok_def)

lemma ec2_stopped_about:
  assumes "ec2_stopped_evaluate rid facts today clock = Inr out"
  shows "outcome_ok out \<and> (\<forall>i\<in>set (insights out). ins_rule i = ''ec2_stopped_with_storage'' \<and> ins_resource i = Some rid)"
  using assms
  by (auto simp: ec2_stopped_evaluate_def make_stopped_insight_def Let_def rmap_Inr_iff split: option.splits if_splits)

text \<open>What the runner relies on: an evaluator speaks about the resource it is asked about, under the name of its
  rule, and never both reports a gap and says it does not know.\<close>

locale resource_rule =
  fixes name :: string and evaluate :: evaluator
  assumes about: "evaluate rid facts today clock = Inr out \<Longrightarrow> i \<in> set (insights out) \<Longrightarrow> ins_rule i = name \<and> ins_resource i = Some rid"
    and shape: "evaluate rid facts today clock = Inr out \<Longrightarrow> outcome_ok out"
begin

lemma at_most_one: "evaluate rid facts today clock = Inr out \<Longrightarrow> length (insights out) \<le> 1"
  using shape by (auto simp: outcome_ok_def)

lemma conclusive_gap: "evaluate rid facts today clock = Inr out \<Longrightarrow> insights out \<noteq> [] \<Longrightarrow> is_conclusive out"
  by (metis shape outcome_ok_def is_conclusive_def)

end

interpretation rds_rule: resource_rule "''rds_eol''" rds_eol_evaluate
  by unfold_locales (auto simp: rds_eol_evaluate_def RDS_CONFIG_def dest: evaluate_eol_about)

interpretation mysql_rule: resource_rule "''mysql_eol''" mysql_eol_evaluate
  by unfold_locales (auto simp: mysql_eol_evaluate_def MYSQL_CONFIG_def dest: evaluate_eol_about)

interpretation aurora_rule: resource_rule "''aurora_eol''" aurora_eol_evaluate
  by unfold_locales (auto simp: aurora_eol_evaluate_def AURORA_CONFIG_def dest: evaluate_eol_about)

interpretation gp2_rule: resource_rule "''ebs_gp2_to_gp3''" ebs_gp2_to_gp3_evaluate
  by unfold_locales (auto simp: ebs_gp2_to_gp3_evaluate_def GP2_CONFIG_def dest: evaluate_storage_about)

interpretation unattached_rule: resource_rule "''ebs_unattached''" ebs_unattached_evaluate
  by unfold_locales (auto simp: ebs_unattached_evaluate_def UNATTACHED_CONFIG_def dest: evaluate_storage_about)

interpretation orphan_rule: resource_rule "''snapshot_orphan''" snapshot_orphan_evaluate
  by unfold_locales (auto simp: snapshot_orphan_evaluate_def SNAPSHOT_CONFIG_def dest: evaluate_storage_about)

interpretation stopped_rule: resource_rule "''ec2_stopped_with_storage''" ec2_stopped_evaluate
  by unfold_locales (auto dest: ec2_stopped_about)

text \<open>Every rule of the registry fulfils the contract under its key.\<close>

lemma registered_rule: "dict_get RESOURCE_RULES rule = Some evaluate \<Longrightarrow> resource_rule rule evaluate"
  using rds_rule.resource_rule_axioms mysql_rule.resource_rule_axioms aurora_rule.resource_rule_axioms
    gp2_rule.resource_rule_axioms unattached_rule.resource_rule_axioms orphan_rule.resource_rule_axioms
    stopped_rule.resource_rule_axioms
  by (auto simp: RESOURCE_RULES_def split: if_splits)

section \<open>What the loop may do\<close>

definition succeeded :: "string \<Rightarrow> resource_row \<Rightarrow> db \<Rightarrow> source_run list" where
  "succeeded source r d = filter (\<lambda>run. in_scope (scope_of source r) run \<and> sr_status run = Success) (t_runs d)"

text \<open>The scope of a resource is proven at an instant by a successful run that is not older than the window.\<close>

definition proven :: "string \<Rightarrow> int option \<Rightarrow> instant \<Rightarrow> db \<Rightarrow> resource_row \<Rightarrow> bool" where
  "proven source max_age t d r = (\<exists>run\<in>set (succeeded source r d).
     pred_option (\<lambda>age. \<exists>f. sr_finished run = Some f \<and> t - f \<le> age) max_age)"

definition outdated :: "string \<Rightarrow> int option \<Rightarrow> instant \<Rightarrow> db \<Rightarrow> resource_row \<Rightarrow> bool" where
  "outdated source max_age t d r = (succeeded source r d \<noteq> [] \<and> (\<exists>age. max_age = Some age \<and>
     ((\<exists>run\<in>set (succeeded source r d). sr_finished run = None) \<or>
      (\<forall>run\<in>set (succeeded source r d). \<forall>f. sr_finished run = Some f \<longrightarrow> age < t - f))))"

lemma set_by_finished [simp]: "set (by_finished rs) = set rs"
  by (auto simp: by_finished_def)

lemma latest_run_facts:
  assumes "latest_successful_run s max_age w = (res, w')"
  shows "session_step w w'" and "w_db w' = w_db w"
  using assms by (auto simp: latest_successful_run_def Let_def now_def session_step_def split: list.splits option.splits if_splits)

lemma latest_run_Some:
  assumes "latest_successful_run (scope_of source r) max_age w = (Some run, w')" and "clock_ok w" and "t0 \<le> w_clock w (w_tick w)"
  shows "proven source max_age t0 (w_db w) r"
proof -
  let ?rs = "succeeded source r (w_db w)"
  obtain rest where "by_finished ?rs = run # rest"
    using assms(1) by (auto simp: latest_successful_run_def succeeded_def Let_def now_def split: list.splits option.splits if_splits)
  then have "run \<in> set ?rs" by (metis list.set_intros(1) set_by_finished)
  moreover have "pred_option (\<lambda>age. \<exists>f. sr_finished run = Some f \<and> t0 - f \<le> age) max_age"
    using assms(1,3) by (auto simp: latest_successful_run_def now_def Let_def split: list.splits option.splits if_splits)
  ultimately show ?thesis by (auto simp: proven_def)
qed

lemma by_finished_hd:
  assumes "by_finished rs = run # rest" and "sr_finished run = Some f" and "run' \<in> set rs" and "sr_finished run' = Some f'"
  shows "f' \<le> f"
proof -
  have none: "filter (\<lambda>r. sr_finished r = None) rs = []"
    using assms(1,2) by (cases "filter (\<lambda>r. sr_finished r = None) rs") (auto simp: by_finished_def filter_eq_Cons_iff)
  let ?s = "sort_key (\<lambda>r. - the (sr_finished r)) (filter (\<lambda>r. sr_finished r \<noteq> None) rs)"
  have "?s = run # rest" using assms(1) none by (simp add: by_finished_def)
  moreover have "sorted (map (\<lambda>r. - the (sr_finished r)) ?s)" by simp
  moreover have "run' \<in> set ?s" using assms(3,4) by simp
  ultimately show ?thesis using assms(2,4) by auto
qed

lemma latest_run_None:
  assumes "latest_successful_run (scope_of source r) max_age w = (None, w')"
  shows "succeeded source r (w_db w) = [] \<or> outdated source max_age (w_clock w (w_tick w)) (w_db w) r"
proof (cases "by_finished (succeeded source r (w_db w))")
  case Nil
  then show ?thesis using set_by_finished [of "succeeded source r (w_db w)"] by (simp del: set_by_finished)
next
  case (Cons run rest)
  then have ne: "succeeded source r (w_db w) \<noteq> []" by (auto simp: by_finished_def)
  have mem: "run \<in> set (succeeded source r (w_db w))" using set_by_finished [of "succeeded source r (w_db w)"] Cons by auto
  obtain age where a: "max_age = Some age"
    using assms Cons by (auto simp: latest_successful_run_def succeeded_def split: option.splits)
  show ?thesis
  proof (cases "sr_finished run")
    case None
    then show ?thesis using ne mem a by (auto simp: outdated_def)
  next
    case (Some f)
    then have "age < w_clock w (w_tick w) - f"
      using assms Cons a by (auto simp: latest_successful_run_def succeeded_def now_def Let_def split: if_splits)
    then have "age < w_clock w (w_tick w) - f'" if "run' \<in> set (succeeded source r (w_db w))" "sr_finished run' = Some f'" for run' f'
      using by_finished_hd [OF Cons Some that] by linarith
    then show ?thesis using ne a by (auto simp: outdated_def)
  qed
qed

definition facts_of :: "db \<Rightarrow> resource_row \<Rightarrow> fact list" where
  "facts_of d r = sort_key (\<lambda>f. (fact_namespace f, fact_key f, - fact_observed_at f))
     (filter (\<lambda>f. fact_resource f = Some (rr_id r)) (map fr_fact (t_facts d)))"

definition about_resource :: "string \<Rightarrow> resource_row \<Rightarrow> string list \<Rightarrow> string \<Rightarrow> inconclusive" where
  "about_resource rule r missing reason = \<lparr>inc_rule = rule, inc_resource = Some (rr_id r), inc_account = Some (uuid_str (rr_account r)),
     inc_missing = missing, inc_reason = Some reason\<rparr>"

text \<open>The specification of one resource: what a run that starts at \<open>t0\<close> may say about it.\<close>

type_synonym verdict = "(insight list \<times> inconclusive list) res"

inductive allowed :: "string \<Rightarrow> evaluator \<Rightarrow> string \<Rightarrow> int option \<Rightarrow> date option \<Rightarrow> instant \<Rightarrow> db \<Rightarrow> resource_row \<Rightarrow> verdict \<Rightarrow> bool"
  for rule evaluate source max_age today t0 d r where
  never_scanned: "succeeded source r d = [] \<Longrightarrow>
    allowed rule evaluate source max_age today t0 d r (Inr ([], [about_resource rule r [''scope_not_proven''] reason]))"
| scanned_too_long_ago: "t0 \<le> t \<Longrightarrow> outdated source max_age t d r \<Longrightarrow>
    allowed rule evaluate source max_age today t0 d r (Inr ([], [about_resource rule r [''scope_stale''] reason]))"
| no_facts: "proven source max_age t0 d r \<Longrightarrow> facts_of d r = [] \<Longrightarrow>
    allowed rule evaluate source max_age today t0 d r (Inr ([], [about_resource rule r [''<no facts>''] reason]))"
| judged: "proven source max_age t0 d r \<Longrightarrow> facts_of d r \<noteq> [] \<Longrightarrow> evaluate (rr_id r) (facts_of d r) today current = Inr out \<Longrightarrow>
    allowed rule evaluate source max_age today t0 d r (Inr (insights out,
      if is_conclusive out then [] else [about_resource rule r (inconclusive_reasons out) ''missing_facts'']))"
| raised: "proven source max_age t0 d r \<Longrightarrow> facts_of d r \<noteq> [] \<Longrightarrow> evaluate (rr_id r) (facts_of d r) today current = Inl e \<Longrightarrow>
    allowed rule evaluate source max_age today t0 d r (Inl e)"

inductive_cases allowed_InrE: "allowed rule evaluate source max_age today t0 d r (Inr (gs, us))"

lemma succeeded_cong: "t_runs d = t_runs d' \<Longrightarrow> succeeded source r d = succeeded source r d'"
  by (simp add: succeeded_def)

lemma proven_cong: "t_runs d = t_runs d' \<Longrightarrow> proven source max_age t d r = proven source max_age t d' r"
  by (simp add: proven_def succeeded_cong [of d d'])

lemma outdated_cong: "t_runs d = t_runs d' \<Longrightarrow> outdated source max_age t d r = outdated source max_age t d' r"
  by (simp add: outdated_def succeeded_cong [of d d'])

lemma clock_later: "clock_ok w \<Longrightarrow> session_step w w' \<Longrightarrow> t0 \<le> w_clock w (w_tick w) \<Longrightarrow> t0 \<le> w_clock w' (w_tick w')"
  by (auto simp: clock_ok_def session_step_def mono_def intro: order_trans)

lemma scope_inconclusive_facts:
  assumes "scope_inconclusive r rule source max_age w = (res, w')" and "clock_ok w" and "t0 \<le> w_clock w (w_tick w)"
  shows "session_step w w' \<and> w_db w' = w_db w"
    and "res = None \<Longrightarrow> proven source max_age t0 (w_db w) r"
    and "res = Some x \<Longrightarrow> (succeeded source r (w_db w) = [] \<and> (\<exists>reason. x = about_resource rule r [''scope_not_proven''] reason)) \<or>
      (\<exists>t\<ge>t0. outdated source max_age t (w_db w) r \<and> (\<exists>reason. x = about_resource rule r [''scope_stale''] reason))"
proof -
  obtain l1 w1 where l1: "latest_successful_run (scope_of source r) max_age w = (l1, w1)" by (metis surj_pair)
  obtain l2 w2 where l2: "latest_successful_run (scope_of source r) None w1 = (l2, w2)" by (metis surj_pair)
  note f = latest_run_facts [OF l1] latest_run_facts [OF l2]
  have eq: "(res, w') = (if l1 \<noteq> None then (None, w1) else (case l2 of
      None \<Rightarrow> (Some (about_resource rule r [''scope_not_proven''] (''no successful source_run for '' @ scope_name r)), w2)
    | Some run \<Rightarrow> (let (age, w3) = (case sr_finished run of None \<Rightarrow> (None, w2) | Some f \<Rightarrow> let (t, w) = now w2 in (Some (t - f), w))
        in (Some (about_resource rule r [''scope_stale''] (''scope_stale: latest successful source_run for '' @ scope_name r @ '' is '' @
             str_or_None age @ '' old, older than the freshness window '' @ str_or_None max_age)), w3))))"
    using assms(1) l1 l2 by (auto simp: scope_inconclusive_def is_scope_proven_def about_resource_def Let_def split: option.splits)
  have step2: "session_step w w2" "w_db w2 = w_db w" using f session_step_trans by auto
  have step3: "session_step w (snd (now w2))" using step2 by (auto simp: session_step_def now_def)
  show "session_step w w' \<and> w_db w' = w_db w"
    using eq f step2 step3 by (auto simp: case_prod_unfold Let_def split: if_splits option.splits)
  show "res = None \<Longrightarrow> proven source max_age t0 (w_db w) r"
    using eq l1 latest_run_Some [OF _ assms(2,3)] by (auto simp: case_prod_unfold Let_def split: if_splits option.splits)
  assume x: "res = Some x"
  then have none: "l1 = None" using eq by (auto split: if_splits)
  note n = latest_run_None [OF l1 [unfolded none]]
  show "(succeeded source r (w_db w) = [] \<and> (\<exists>reason. x = about_resource rule r [''scope_not_proven''] reason)) \<or>
      (\<exists>t\<ge>t0. outdated source max_age t (w_db w) r \<and> (\<exists>reason. x = about_resource rule r [''scope_stale''] reason))"
  proof (cases l2)
    case None
    then have "succeeded source r (w_db w) = []"
      using latest_run_None [of source r None w1 w2] l2 f by (auto simp: outdated_def)
    then show ?thesis using x eq none None by auto
  next
    case (Some run)
    then have "succeeded source r (w_db w) \<noteq> []"
      using latest_run_Some [OF l2 [unfolded Some] clock_ok_step [OF assms(2) f(1)] order.refl] f(2)
      by (auto simp: proven_def)
    then have "outdated source max_age (w_clock w (w_tick w)) (w_db w) r" using n by simp
    moreover have "\<exists>reason. x = about_resource rule r [''scope_stale''] reason"
      using x eq none Some by (auto simp: case_prod_unfold Let_def)
    ultimately show ?thesis using assms(3) by blast
  qed
qed

lemma evaluate_resource_allowed:
  assumes "evaluate_resource local_date r rule evaluate (facts_of d r) source today max_age w = (res, w')"
    and "clock_ok w" and "t0 \<le> w_clock w (w_tick w)" and "t_runs (w_db w) = t_runs d"
  shows "allowed rule evaluate source max_age today t0 d r res \<and> session_step w w' \<and> w_db w' = w_db w"
proof -
  obtain x w1 where s: "scope_inconclusive r rule source max_age w = (x, w1)" by (metis surj_pair)
  note f = scope_inconclusive_facts [OF s assms(2,3)]
  note c = succeeded_cong [OF assms(4)] proven_cong [OF assms(4)] outdated_cong [OF assms(4)]
  show ?thesis
  proof (cases x)
    case (Some inc)
    then have "res = Inr ([], [inc])" "w' = w1" using assms(1) s by (simp_all add: evaluate_resource_def Let_def)
    then show ?thesis using f(1) f(3) [OF Some] unfolding c by (auto intro: never_scanned scanned_too_long_ago)
  next
    case None
    have p: "proven source max_age t0 d r" using f(2) [OF None] unfolding c .
    show ?thesis
    proof (cases "facts_of d r = []")
      case True
      then have "res = Inr ([], [about_resource rule r [''<no facts>''] ''no facts observed for this resource''])" "w' = w1"
        using assms(1) s None by (simp_all add: evaluate_resource_def Let_def about_resource_def)
      then show ?thesis using f(1) p True by (auto intro: no_facts)
    next
      case False
      let ?day = "local_date (fst (now w1))"
      have "w' = snd (now w1)" and res: "res = rmap (\<lambda>out. (insights out, if is_conclusive out then [] else
            [about_resource rule r (inconclusive_reasons out) ''missing_facts''])) (evaluate (rr_id r) (facts_of d r) today ?day)"
        using assms(1) s None False
        by (auto simp: evaluate_resource_def Let_def about_resource_def case_prod_unfold rmap_def split: sum.splits)
      then have "session_step w w' \<and> w_db w' = w_db w" using f(1) by (auto simp: session_step_def now_def)
      moreover have "allowed rule evaluate source max_age today t0 d r res"
      proof (cases "evaluate (rr_id r) (facts_of d r) today ?day")
        case (Inl e)
        then show ?thesis using res raised [where evaluate = evaluate, OF p False Inl] by simp
      next
        case (Inr out)
        then show ?thesis using res judged [where evaluate = evaluate, OF p False Inr] by simp
      qed
      ultimately show ?thesis by simp
    qed
  qed
qed

section \<open>What is stored of a verdict\<close>

definition storable :: "insight \<Rightarrow> bool" where
  "storable i = (\<exists>a. account_uuid (ins_account i) = Inr a)"

definition as_stored :: "insight \<Rightarrow> insight" where
  "as_stored i = i\<lparr>ins_account := (case account_uuid (ins_account i) of Inl _ \<Rightarrow> None | Inr a \<Rightarrow> map_option uuid_str a)\<rparr>"

fun gap_rows :: "verdict \<Rightarrow> insight list" where
  "gap_rows (Inl e) = []"
| "gap_rows (Inr (gs, us)) = map as_stored (takeWhile storable gs)"

fun unsure_rows :: "verdict \<Rightarrow> inconclusive list" where
  "unsure_rows (Inl e) = []"
| "unsure_rows (Inr (gs, us)) = (if list_all storable gs then us else [])"

fun error_of :: "verdict \<Rightarrow> exn list" where
  "error_of (Inl e) = [e]"
| "error_of (Inr (gs, us)) = (if list_all storable gs then [] else [ValueError])"

lemma account_uuid_Inl: "account_uuid a = Inl e \<Longrightarrow> e = ValueError"
  by (auto simp: account_uuid_def uuid_of_str_def Let_def rmap_def split: option.splits if_splits sum.splits)

lemma account_uuid_str [simp]: "account_uuid (Some (uuid_str u)) = Inr (Some u)"
proof -
  have "uuid_str u \<noteq> []" by (simp add: uuid_str_def Let_def)
  then show ?thesis by (simp add: account_uuid_def uuid_of_uuid_str)
qed

text \<open>Only the given tables differ.\<close>

definition grown :: "world \<Rightarrow> insight_row list \<Rightarrow> inconclusive_row list \<Rightarrow> world \<Rightarrow> bool" where
  "grown w rows urows w' = (session_step w w' \<and> (\<forall>r\<in>set rows. ir_ack r = None) \<and>
     w_db w' = (w_db w)\<lparr>t_insights := t_insights (w_db w) @ rows, t_inconclusive := t_inconclusive (w_db w) @ urows\<rparr>)"

lemma grown_refl: "session_step w w' \<Longrightarrow> w_db w' = w_db w \<Longrightarrow> grown w [] [] w'"
  by (simp add: grown_def)

lemma grown_trans: "grown w rs us w1 \<Longrightarrow> grown w1 rs' us' w2 \<Longrightarrow> grown w (rs @ rs') (us @ us') w2"
  by (auto simp: grown_def intro: session_step_trans)

lemma insert_insight_ok:
  assumes "storable i" and "ins_resource i \<noteq> None"
  obtains row w' where "insert_insight i w = (Inr row, w')" and "ir_insight row = as_stored i" and "grown w [row] [] w'"
proof -
  obtain a where a: "account_uuid (ins_account i) = Inr a" using assms(1) by (auto simp: storable_def)
  show thesis
    by (rule that [of "\<lparr>ir_id = w_uuids w (w_next w), ir_insight = as_stored i, ir_computed = w_clock w (w_tick w), ir_ack = None\<rparr>"])
      (use a assms(2) in \<open>auto simp: insert_insight_def now_def fresh_def as_stored_def with_insights_def grown_def session_step_def Let_def\<close>)
qed

lemma insert_insight_bad: "\<not> storable i \<Longrightarrow> insert_insight i w = (Inl ValueError, w)"
  by (cases "account_uuid (ins_account i)") (auto simp: storable_def insert_insight_def dest: account_uuid_Inl)

lemma insert_all_insights:
  assumes "\<forall>i\<in>set gs. ins_resource i \<noteq> None"
  shows "\<exists>rows w'. insert_all insert_insight gs n w =
      ((n + length rows, if list_all storable gs then None else Some ValueError), w') \<and>
    grown w rows [] w' \<and> map ir_insight rows = map as_stored (takeWhile storable gs)"
  using assms
proof (induction gs arbitrary: n w)
  case Nil
  then show ?case by (auto intro!: exI [of _ "[]"] grown_refl)
next
  case (Cons g gs)
  show ?case
  proof (cases "storable g")
    case True
    then obtain row w1 where i: "insert_insight g w = (Inr row, w1)" "ir_insight row = as_stored g" "grown w [row] [] w1"
      using Cons.prems by (auto intro: insert_insight_ok)
    have "\<forall>i\<in>set gs. ins_resource i \<noteq> None" using Cons.prems by simp
    from Cons.IH [OF this, of "Suc n" w1] obtain rows w' where r: "insert_all insert_insight gs (Suc n) w1 =
        ((Suc n + length rows, if list_all storable gs then None else Some ValueError), w')"
      "grown w1 rows [] w'" "map ir_insight rows = map as_stored (takeWhile storable gs)" by blast
    then show ?thesis using True i grown_trans [OF i(3) r(2)]
      by (intro exI [of _ "row # rows"] exI [of _ w']) auto
  next
    case False
    then show ?thesis by (auto simp: insert_insight_bad intro!: exI [of _ "[]"] grown_refl)
  qed
qed

lemma insert_inconclusive_ok:
  "\<exists>row w'. insert_inconclusive (about_resource rule r missing reason) w = (Inr row, w') \<and>
    nr_inconclusive row = about_resource rule r missing reason \<and> grown w [] [row] w'"
  by (auto simp: insert_inconclusive_def about_resource_def now_def fresh_def with_inconclusive_def grown_def session_step_def Let_def)

lemma insert_all_inconclusive:
  assumes "\<forall>u\<in>set us. \<exists>missing reason. u = about_resource rule r missing reason"
  shows "\<exists>urows w'. insert_all insert_inconclusive us n w = ((n + length urows, None), w') \<and>
    grown w [] urows w' \<and> map nr_inconclusive urows = us"
  using assms
proof (induction us arbitrary: n w)
  case Nil
  then show ?case by (auto intro!: exI [of _ "[]"] grown_refl)
next
  case (Cons u us)
  then obtain missing reason where u: "u = about_resource rule r missing reason" by auto
  obtain row w1 where i: "insert_inconclusive u w = (Inr row, w1)" "nr_inconclusive row = u" "grown w [] [row] w1"
    using insert_inconclusive_ok u by blast
  have "\<forall>u\<in>set us. \<exists>missing reason. u = about_resource rule r missing reason" using Cons.prems by simp
  from Cons.IH [OF this, of "Suc n" w1] obtain urows w' where r: "insert_all insert_inconclusive us (Suc n) w1 = ((Suc n + length urows, None), w')"
    "grown w1 [] urows w'" "map nr_inconclusive urows = us" by blast
  then show ?case using i grown_trans [OF i(3) r(2)] by (intro exI [of _ "row # urows"] exI [of _ w']) auto
qed

lemma allowed_about:
  assumes "allowed rule evaluate source max_age today t0 d r (Inr (gs, us))" and "resource_rule rule evaluate"
  shows "(\<forall>i\<in>set gs. ins_rule i = rule \<and> ins_resource i = Some (rr_id r)) \<and>
    (\<forall>u\<in>set us. \<exists>missing reason. u = about_resource rule r missing reason)"
  using assms(1) by (cases rule: allowed_InrE) (auto dest: resource_rule.about [OF assms(2)] split: if_splits, blast+)

definition tally_of :: "tally \<Rightarrow> insight_row list \<Rightarrow> inconclusive_row list \<Rightarrow> (uuid \<times> exn) list \<Rightarrow> tally" where
  "tally_of k rows urows es = k\<lparr>n_insights := n_insights k + length rows, n_inconclusive := n_inconclusive k + length urows,
     n_errors := n_errors k @ es\<rparr>"

lemma tally_of_trans: "tally_of (tally_of k rs us es) rs' us' es' = tally_of k (rs @ rs') (us @ us') (es @ es')"
  by (simp add: tally_of_def)

lemma tally_of_Nil: "tally_of k [] [] [] = k"
  by (simp add: tally_of_def)

lemma run_resource_step:
  assumes "resource_rule rule evaluate" and "clock_ok w" and "t0 \<le> w_clock w (w_tick w)" and "t_runs (w_db w) = t_runs d"
    and "get_default facts (Some (rr_id r)) [] = facts_of d r"
  shows "\<exists>v rows urows w'. run_resource local_date rule evaluate source today max_age facts r k w =
      (Inr (tally_of k rows urows (map (Pair (rr_id r)) (error_of v))), w') \<and>
    allowed rule evaluate source max_age today t0 d r v \<and> grown w rows urows w' \<and>
    map ir_insight rows = gap_rows v \<and> map nr_inconclusive urows = unsure_rows v"
proof -
  obtain v w1 where e: "evaluate_resource local_date r rule evaluate (facts_of d r) source today max_age w = (v, w1)" by (metis surj_pair)
  note a = evaluate_resource_allowed [OF e assms(2-4)]
  show ?thesis
  proof (cases v)
    case (Inl x)
    then have "run_resource local_date rule evaluate source today max_age facts r k w = (Inr (add_error (rr_id r) (Some x) k), w1)"
      using e assms(5) by (simp add: run_resource_def)
    then show ?thesis using a Inl
      by (intro exI [of _ v] exI [of _ "[]"] exI [of _ w1]) (auto simp: tally_of_def add_error_def intro: grown_refl)
  next
    case (Inr gu)
    obtain gs us where gu: "gu = (gs, us)" by (cases gu)
    have about: "\<forall>i\<in>set gs. ins_resource i \<noteq> None" "\<forall>u\<in>set us. \<exists>missing reason. u = about_resource rule r missing reason"
      using allowed_about [OF _ assms(1)] a Inr gu by blast+
    obtain rows w2 where i: "insert_all insert_insight gs 0 w1 = ((length rows, if list_all storable gs then None else Some ValueError), w2)"
      "grown w1 rows [] w2" "map ir_insight rows = map as_stored (takeWhile storable gs)"
      using insert_all_insights [OF about(1), of 0 w1] by auto
    obtain urows w3 where u: "insert_all insert_inconclusive us 0 w2 = ((length urows, None), w3)" "grown w2 [] urows w3" "map nr_inconclusive urows = us"
      using insert_all_inconclusive [OF about(2), of 0 w2] by auto
    have g1: "grown w rows [] w2" using grown_trans [OF grown_refl i(2)] a by fastforce
    show ?thesis
    proof (cases "list_all storable gs")
      case True
      have "run_resource local_date rule evaluate source today max_age facts r k w =
          (Inr (tally_of k rows urows []), w3)"
        using e assms(5) Inr gu i u True by (simp add: run_resource_def add_error_def tally_of_def)
      moreover have "grown w rows urows w3" using grown_trans [OF g1 u(2)] by simp
      ultimately show ?thesis using a Inr gu i u True
        by (intro exI [of _ v] exI [of _ rows] exI [of _ urows] exI [of _ w3]) auto
    next
      case False
      have "run_resource local_date rule evaluate source today max_age facts r k w =
          (Inr (tally_of k rows [] [(rr_id r, ValueError)]), w2)"
        using e assms(5) Inr gu i False by (simp add: run_resource_def add_error_def tally_of_def)
      then show ?thesis using a Inr gu i g1 False
        by (intro exI [of _ v] exI [of _ rows] exI [of _ "[]"] exI [of _ w2]) auto
    qed
  qed
qed

lemma run_resources_steps:
  assumes "resource_rule rule evaluate" and "clock_ok w" and "t0 \<le> w_clock w (w_tick w)" and "t_runs (w_db w) = t_runs d"
    and "\<forall>r\<in>set rs. get_default facts (Some (rr_id r)) [] = facts_of d r"
  shows "\<exists>vs rows urows w'. run_resources local_date rule evaluate source today max_age facts rs k w =
      (Inr (tally_of k rows urows (concat (map2 (\<lambda>r v. map (Pair (rr_id r)) (error_of v)) rs vs))), w') \<and>
    list_all2 (allowed rule evaluate source max_age today t0 d) rs vs \<and> grown w rows urows w' \<and>
    map ir_insight rows = concat (map gap_rows vs) \<and> map nr_inconclusive urows = concat (map unsure_rows vs)"
  using assms(2-)
proof (induction rs arbitrary: k w)
  case Nil
  then show ?case by (intro exI [of _ "[]"] exI [of _ w]) (auto simp: tally_of_Nil intro: grown_refl)
next
  case (Cons r rs)
  obtain v rows urows w1 where s: "run_resource local_date rule evaluate source today max_age facts r k w =
      (Inr (tally_of k rows urows (map (Pair (rr_id r)) (error_of v))), w1)"
    "allowed rule evaluate source max_age today t0 d r v" "grown w rows urows w1"
    "map ir_insight rows = gap_rows v" "map nr_inconclusive urows = unsure_rows v"
    using run_resource_step [OF assms(1) Cons.prems(1-3)] Cons.prems(4) by (metis list.set_intros(1))
  have st: "session_step w w1" "t_runs (w_db w1) = t_runs d" using s(3) Cons.prems(3) by (simp_all add: grown_def)
  have "\<forall>r\<in>set rs. get_default facts (Some (rr_id r)) [] = facts_of d r" using Cons.prems(4) by simp
  from Cons.IH [OF clock_ok_step [OF Cons.prems(1) st(1)] clock_later [OF Cons.prems(1) st(1) Cons.prems(2)] st(2) this]
  obtain vs rows' urows' w2 where t: "run_resources local_date rule evaluate source today max_age facts rs (tally_of k rows urows (map (Pair (rr_id r)) (error_of v))) w1 =
      (Inr (tally_of (tally_of k rows urows (map (Pair (rr_id r)) (error_of v))) rows' urows' (concat (map2 (\<lambda>r v. map (Pair (rr_id r)) (error_of v)) rs vs))), w2)"
    "list_all2 (allowed rule evaluate source max_age today t0 d) rs vs" "grown w1 rows' urows' w2"
    "map ir_insight rows' = concat (map gap_rows vs)" "map nr_inconclusive urows' = concat (map unsure_rows vs)" by blast
  show ?case
    by (rule exI [of _ "v # vs"], rule exI [of _ "rows @ rows'"], rule exI [of _ "urows @ urows'"], rule exI [of _ w2])
      (use s t grown_trans [OF s(3) t(3)] in \<open>simp add: tally_of_trans\<close>)
qed

section \<open>The stages of a run\<close>

lemma facts_grouped:
  assumes "r \<in> set rs"
  shows "get_default (group_by fact_resource (list_facts_for_resources (map rr_id rs) d)) (Some (rr_id r)) [] = facts_of d r"
proof -
  let ?fs = "list_facts_for_resources (map rr_id rs) d"
  have "get_default (group_by fact_resource ?fs) (Some (rr_id r)) [] = filter (\<lambda>f. fact_resource f = Some (rr_id r)) ?fs"
  proof (cases "Some (rr_id r) \<in> fact_resource ` set ?fs")
    case False
    then have "filter (\<lambda>f. fact_resource f = Some (rr_id r)) ?fs = []"
      unfolding filter_empty_conv by (metis image_eqI)
    then show ?thesis using False by (simp add: get_default_def group_by_spec dict_get_map)
  qed (simp add: get_default_def group_by_spec dict_get_map)
  also have "\<dots> = sort_key (\<lambda>f. (fact_namespace f, fact_key f, - fact_observed_at f))
      (filter (\<lambda>f. fact_resource f = Some (rr_id r)) (filter (\<lambda>f. case fact_resource f of None \<Rightarrow> False | Some i \<Rightarrow> i \<in> set (map rr_id rs)) (map fr_fact (t_facts d))))"
    unfolding list_facts_for_resources_def by (rule filter_sort)
  also have "\<dots> = facts_of d r"
    unfolding facts_of_def filter_filter using assms by (intro arg_cong [where f = "sort_key _"] filter_cong) auto
  finally show ?thesis .
qed

lemma facts_of_cong: "t_facts d = t_facts d' \<Longrightarrow> facts_of d r = facts_of d' r"
  by (simp add: facts_of_def)

lemma clear_rule_facts:
  "session_step w (clear_rule rule w)"
  "w_db (clear_rule rule w) = (w_db w)\<lparr>t_insights := filter (\<lambda>r. rule_of r \<noteq> rule) (t_insights (w_db w)),
     t_inconclusive := filter (\<lambda>r. inc_rule_of r \<noteq> rule) (t_inconclusive (w_db w))\<rparr>"
  by (simp_all add: clear_rule_def delete_insights_for_rule_def delete_inconclusive_for_rule_def with_insights_def
      with_inconclusive_def session_step_def)

text \<open>The row that opens a run is committed before anything else happens.\<close>

definition opened :: "string \<Rightarrow> uuid \<Rightarrow> instant \<Rightarrow> insight_run" where
  "opened rule i t = \<lparr>nu_id = i, nu_rule = rule, nu_started = t, nu_finished = None, nu_status = Running, nu_scanned = None, nu_emitted = None\<rparr>"

lemma start_insight_run_facts:
  assumes "start_insight_run rule w = (i, w')" and "clock_ok w"
  shows "w_db w' = (w_db w)\<lparr>t_insight_runs := t_insight_runs (w_db w) @ [opened rule i (w_begin w)]\<rparr>" and "w_saved w' = w_db w'"
    and "clock_ok w'" and "w_clock w (w_tick w) \<le> w_clock w' (w_tick w')"
proof -
  have e: "i = w_uuids w (w_next w)" "w' = commit (with_insight_runs (\<lambda>rs. rs @ [opened rule i (w_begin w)]) (snd (fresh w)))"
    using assms(1) by (auto simp: start_insight_run_def fresh_def opened_def Let_def)
  show "w_db w' = (w_db w)\<lparr>t_insight_runs := t_insight_runs (w_db w) @ [opened rule i (w_begin w)]\<rparr>" "w_saved w' = w_db w'"
    by (simp_all add: e commit_def begin_tx_def with_insight_runs_def fresh_def now_def Let_def)
  have "w_clock w' = w_clock w" "w_tick w' = Suc (w_tick w)" "w_begin w' = w_clock w (w_tick w)"
    by (simp_all add: e commit_def begin_tx_def with_insight_runs_def fresh_def now_def Let_def)
  then show "clock_ok w'" "w_clock w (w_tick w) \<le> w_clock w' (w_tick w')"
    using assms(2) by (auto simp: clock_ok_def mono_def)
qed

definition zero_tally :: tally where
  "zero_tally = \<lparr>n_insights = 0, n_inconclusive = 0, n_errors = []\<rparr>"

text \<open>What is behind the loop, for a rule of the registry.\<close>

lemma run_stages:
  assumes "clock_ok w" and "dict_get RESOURCE_RULES rule = Some evaluate"
    and "run_resource_rule sha local_date rule today max_age w = (res, w')"
  obtains i vs rows urows w1 w2 es
  where "w_saved w2 = (w_db w)\<lparr>t_insight_runs := t_insight_runs (w_db w) @ [opened rule i (w_begin w)]\<rparr>"
    and "list_all2 (allowed rule evaluate (get_default RULE_SOURCES rule DEFAULT_SOURCE) max_age today (w_clock w (w_tick w)) (w_db w))
      (t_resources (w_db w)) vs"
    and "w_db w2 = (w_saved w2)\<lparr>t_insights := filter (\<lambda>r. rule_of r \<noteq> rule) (t_insights (w_db w)) @ rows,
      t_inconclusive := filter (\<lambda>r. inc_rule_of r \<noteq> rule) (t_inconclusive (w_db w)) @ urows\<rparr>"
    and "map ir_insight rows = concat (map gap_rows vs)" and "map nr_inconclusive urows = concat (map unsure_rows vs)"
    and "\<forall>r\<in>set rows. ir_ack r = None"
    and "es = concat (map2 (\<lambda>r v. map (Pair (rr_id r)) (error_of v)) (t_resources (w_db w)) vs)"
    and "close_rule sha rule (snapshot_rule sha rule (w_db w)) (snapshot_acks rule (w_db w)) i (length (t_resources (w_db w)))
      (tally_of zero_tally rows urows es) w2 = (res, w')"
proof -
  obtain i w1 where st: "start_insight_run rule w = (i, w1)" by (metis surj_pair)
  note f = start_insight_run_facts [OF st assms(1)]
  let ?w = "clear_rule rule w1"
  note c = clear_rule_facts [where w = w1 and rule = rule]
  let ?facts = "group_by fact_resource (list_facts_for_resources (map rr_id (t_resources (w_db w1))) (w_db ?w))"
  let ?source = "get_default RULE_SOURCES rule DEFAULT_SOURCE"
  have rr: "resource_rule rule evaluate" using registered_rule [OF assms(2)] .
  have eq: "run_resource_rule sha local_date rule today max_age w =
      (case run_resources local_date rule evaluate ?source today max_age ?facts (t_resources (w_db w1)) zero_tally ?w of
         (Inl e, w) \<Rightarrow> (Inl e, w)
       | (Inr k, w) \<Rightarrow> close_rule sha rule (snapshot_rule sha rule (w_db w1)) (snapshot_acks rule (w_db w1)) i (length (t_resources (w_db w1))) k w)"
    using assms(2) st by (simp add: run_resource_rule_def zero_tally_def Let_def)
  have cl: "clock_ok ?w" "w_clock w (w_tick w) \<le> w_clock ?w (w_tick ?w)"
    using clock_ok_step [OF f(3) c(1)] clock_later [OF f(3) c(1) f(4)] by auto
  have runs: "t_runs (w_db ?w) = t_runs (w_db w)" "t_resources (w_db w1) = t_resources (w_db w)" using c(2) f(1) by simp_all
  have facts: "\<forall>r\<in>set (t_resources (w_db w)). get_default ?facts (Some (rr_id r)) [] = facts_of (w_db w) r"
    using facts_grouped [of _ "t_resources (w_db w)" "w_db ?w"] facts_of_cong [of "w_db ?w" "w_db w"] c(2) f(1) by simp
  obtain vs rows urows w2 where l: "run_resources local_date rule evaluate ?source today max_age ?facts (t_resources (w_db w)) zero_tally ?w =
      (Inr (tally_of zero_tally rows urows (concat (map2 (\<lambda>r v. map (Pair (rr_id r)) (error_of v)) (t_resources (w_db w)) vs))), w2)"
    "list_all2 (allowed rule evaluate ?source max_age today (w_clock w (w_tick w)) (w_db w)) (t_resources (w_db w)) vs"
    "grown ?w rows urows w2" "map ir_insight rows = concat (map gap_rows vs)" "map nr_inconclusive urows = concat (map unsure_rows vs)"
    using run_resources_steps [OF rr cl runs(1) facts] by blast
  have saved: "w_saved w2 = w_db w1" using l(3) c(1) f(2) by (simp add: grown_def session_step_def)
  have snap: "snapshot_rule sha rule (w_db w1) = snapshot_rule sha rule (w_db w)" "snapshot_acks rule (w_db w1) = snapshot_acks rule (w_db w)"
    using f(1) by (simp_all add: snapshot_rule_def snapshot_acks_def)
  have close: "close_rule sha rule (snapshot_rule sha rule (w_db w)) (snapshot_acks rule (w_db w)) i (length (t_resources (w_db w)))
      (tally_of zero_tally rows urows (concat (map2 (\<lambda>r v. map (Pair (rr_id r)) (error_of v)) (t_resources (w_db w)) vs))) w2 = (res, w')"
    using assms(3) l(1) by (simp add: eq runs(2) snap)
  show thesis
    by (rule that [OF _ l(2) _ l(4,5) _ refl close]) (use saved f l(3) c in \<open>simp_all add: grown_def\<close>)
qed

section \<open>The end of a run\<close>

definition focus_keys :: "string list" where
  "focus_keys = [''focus_confirmed'', ''focus_resource_monthly_usd'', ''focus_period'', ''focus_billing_currency'']"

text \<open>A row with FOCUS context added to its payload, or as it was.\<close>

definition enriched :: "insight_row \<Rightarrow> insight_row \<Rightarrow> bool" where
  "enriched r r' = (r' = r \<or> (\<exists>ctx. set (dict_keys ctx) \<subseteq> set focus_keys \<and>
     r' = r\<lparr>ir_insight := (ir_insight r)\<lparr>ins_payload := dict_update (ins_payload (ir_insight r)) ctx\<rparr>\<rparr>))"

lemma enriched_fields:
  assumes "enriched r r'"
  shows "ir_ack r' = ir_ack r" "ir_id r' = ir_id r" "rule_of r' = rule_of r" "ins_resource (ir_insight r') = ins_resource (ir_insight r)"
    "ins_account (ir_insight r') = ins_account (ir_insight r)" "ins_severity (ir_insight r') = ins_severity (ir_insight r)"
    "ins_title (ir_insight r') = ins_title (ir_insight r)"
    "k \<notin> set focus_keys \<Longrightarrow> pget (ins_payload (ir_insight r')) k = pget (ins_payload (ir_insight r)) k"
proof -
  show "ir_ack r' = ir_ack r" "ir_id r' = ir_id r" "rule_of r' = rule_of r" "ins_resource (ir_insight r') = ins_resource (ir_insight r)"
    "ins_account (ir_insight r') = ins_account (ir_insight r)" "ins_severity (ir_insight r') = ins_severity (ir_insight r)"
    "ins_title (ir_insight r') = ins_title (ir_insight r)"
    using assms by (auto simp: enriched_def)
  assume k: "k \<notin> set focus_keys"
  then have "k \<notin> fst ` set ctx" if "set (dict_keys ctx) \<subseteq> set focus_keys" for ctx :: payload
    using that by (auto simp: dict_keys_def)
  then show "pget (ins_payload (ir_insight r')) k = pget (ins_payload (ir_insight r)) k"
    using assms by (auto simp: enriched_def pget_def get_default_def dict_get_update_notin)
qed

lemma focus_context_keys: "focus_context service d key i = Inr (Some ctx) \<Longrightarrow> set (dict_keys ctx) \<subseteq> set focus_keys"
  by (auto simp: focus_context_def focus_keys_def dict_keys_def Let_def rbind_Inr_iff rmap_Inr_iff split: if_splits option.splits list.splits)

lemma reconcile_row_facts:
  "reconcile_row rule service d key r = Inr (r', n) \<Longrightarrow> enriched r r' \<and> (rule_of r \<noteq> rule \<longrightarrow> r' = r)"
  using focus_context_keys by (fastforce simp: reconcile_row_def enriched_def rmap_Inr_iff split: if_splits option.splits)

lemma mapM_rows:
  "mapM (reconcile_row rule service d key) rows = Inr rs \<Longrightarrow>
    list_all2 (\<lambda>r r'. enriched r r' \<and> (rule_of r \<noteq> rule \<longrightarrow> r' = r)) rows (map fst rs)"
proof (induction rows arbitrary: rs)
  case (Cons r rows)
  then show ?case using reconcile_row_facts by (fastforce simp: rbind_Inr_iff rmap_Inr_iff)
qed simp

lemma reconcile_facts:
  assumes "reconcile_with_focus rule w = (Inr n, w')"
  obtains rows where "session_step w w'" and "w_db w' = (w_db w)\<lparr>t_insights := rows\<rparr>"
    and "list_all2 (\<lambda>r r'. enriched r r' \<and> (rule_of r \<noteq> rule \<longrightarrow> r' = r)) (t_insights (w_db w)) rows"
proof (cases "dict_get MONETARY rule")
  case None
  then have "w' = w" using assms by (simp add: reconcile_with_focus_def)
  then show ?thesis by (intro that [of "t_insights (w_db w)"]) (simp_all add: list_all2_same enriched_def)
next
  case (Some entry)
  then obtain rs where rs: "mapM (reconcile_row rule (dict_get RULE_FOCUS_SERVICES rule) (w_db w) (payload_key entry)) (t_insights (w_db w)) = Inr rs"
    and w': "w' = with_insights (\<lambda>_. map fst rs) w"
    using assms by (auto simp: reconcile_with_focus_def split: sum.splits)
  show ?thesis using mapM_rows [OF rs] w'
    by (intro that [of "map fst rs"]) (simp_all add: with_insights_def session_step_def)
qed

definition acked_by :: "string \<Rightarrow> (string, ack) dict \<Rightarrow> insight_row \<Rightarrow> insight_row" where
  "acked_by rule acks r = (if rule_of r = rule \<and> ir_ack r = None then r\<lparr>ir_ack := dict_get acks (ack_snapshot_key r)\<rparr> else r)"

lemma apply_acks_facts:
  "session_step w (snd (apply_acks_to_rule rule acks w))"
  "w_db (snd (apply_acks_to_rule rule acks w)) = (w_db w)\<lparr>t_insights := map (acked_by rule acks) (t_insights (w_db w))\<rparr>"
proof -
  show "session_step w (snd (apply_acks_to_rule rule acks w))"
    by (simp add: apply_acks_to_rule_def with_insights_def session_step_def Let_def)
  have "update_where (\<lambda>r. rule_of r = rule \<and> ir_ack r = None \<and> dict_get acks (ack_snapshot_key r) \<noteq> None)
      (\<lambda>r. r\<lparr>ir_ack := dict_get acks (ack_snapshot_key r)\<rparr>) rs = map (acked_by rule acks) rs" for rs
  proof -
    have same: "r\<lparr>ir_ack := None\<rparr> = r" if "ir_ack r = None" for r :: insight_row using that by (cases r) simp
    have "(if rule_of r = rule \<and> ir_ack r = None \<and> dict_get acks (ack_snapshot_key r) \<noteq> None
        then r\<lparr>ir_ack := dict_get acks (ack_snapshot_key r)\<rparr> else r) = acked_by rule acks r" for r
      by (cases "dict_get acks (ack_snapshot_key r)") (simp_all add: acked_by_def same)
    then show ?thesis unfolding update_where_def by (intro map_cong) simp_all
  qed
  then show "w_db (snd (apply_acks_to_rule rule acks w)) = (w_db w)\<lparr>t_insights := map (acked_by rule acks) (t_insights (w_db w))\<rparr>"
    by (simp add: apply_acks_to_rule_def with_insights_def Let_def)
qed

definition new_events :: "(string \<Rightarrow> string) \<Rightarrow> string \<Rightarrow> (string, insight_row) dict \<Rightarrow> (string, insight_row) dict \<Rightarrow> uuid option \<Rightarrow> instant \<Rightarrow> event_row list \<Rightarrow> bool" where
  "new_events sha rule previous current run t es = (\<exists>new gone. es = new @ gone \<and>
     mapM (event_of rule run t Appeared) (missing_from previous current) = Inr new \<and>
     mapM (event_of rule run t Resolved) (missing_from current previous) = Inr gone)"

lemma diff_facts:
  assumes "diff_and_record_events sha rule previous run w = (Inr n, w')"
  obtains es where "session_step w w'" and "w_db w' = (w_db w)\<lparr>t_events := t_events (w_db w) @ es\<rparr>"
    and "new_events sha rule previous (snapshot_rule sha rule (w_db w)) run (w_begin w) es"
proof -
  obtain new gone where e: "mapM (event_of rule run (w_begin w) Appeared) (missing_from previous (snapshot_rule sha rule (w_db w))) = Inr new"
      "mapM (event_of rule run (w_begin w) Resolved) (missing_from (snapshot_rule sha rule (w_db w)) previous) = Inr gone"
    and w': "w' = with_events (\<lambda>es. es @ new @ gone) w"
    using assms by (auto simp: diff_and_record_events_def Let_def rbind_Inr_iff rmap_Inr_iff split: sum.splits)
  show thesis
    by (rule that [of "new @ gone"]) (use e w' in \<open>auto simp: with_events_def session_step_def new_events_def\<close>)
qed

lemma finish_insight_run_facts:
  "session_step w (finish_insight_run i st n m w)"
  "\<exists>rs. w_db (finish_insight_run i st n m w) = (w_db w)\<lparr>t_insight_runs := rs\<rparr>"
  by (auto simp: finish_insight_run_def with_insight_runs_def session_step_def now_def)

text \<open>A run that ends without an exception: the insights carry FOCUS context and acknowledgements, the
  inconclusive records are those of the loop, and everything is committed.\<close>

lemma close_rule_Inr:
  assumes "close_rule sha rule previous acks i n k w = (Inr res, w')"
  obtains rows es where "list_all2 (\<lambda>r r'. enriched r r' \<and> (rule_of r \<noteq> rule \<longrightarrow> r' = r)) (t_insights (w_db w)) rows"
    and "t_insights (w_db w') = map (acked_by rule acks) rows" and "t_inconclusive (w_db w') = t_inconclusive (w_db w)"
    and "t_events (w_db w') = t_events (w_db w) @ es"
    and "new_events sha rule previous (snapshot_rule sha rule (w_db w')) (Some i) (w_begin w) es"
    and "rs_errors res = n_errors k" and "rs_insights res = n_insights k" and "rs_inconclusive res = n_inconclusive k"
    and "w_saved w' = w_db w'"
proof -
  obtain r1 w1 where rc: "reconcile_with_focus rule w = (r1, w1)" by (metis surj_pair)
  obtain n1 where n1: "r1 = Inr n1" using assms rc by (cases r1) (auto simp: close_rule_def)
  let ?w2 = "snd (apply_acks_to_rule rule acks w1)"
  obtain r2 w3 where df: "diff_and_record_events sha rule previous (Some i) ?w2 = (r2, w3)" by (metis surj_pair)
  obtain n2 where n2: "r2 = Inr n2" using assms rc n1 df by (cases r2) (auto simp: close_rule_def Let_def)
  let ?st = "if n_errors k = [] then Success else Partial"
  have w': "w' = commit (finish_insight_run i ?st n (n_insights k) w3)"
    and res: "rs_errors res = n_errors k" "rs_insights res = n_insights k" "rs_inconclusive res = n_inconclusive k"
    using assms rc n1 df n2 by (auto simp: close_rule_def Let_def)
  obtain rows where rows: "session_step w w1" "w_db w1 = (w_db w)\<lparr>t_insights := rows\<rparr>"
    "list_all2 (\<lambda>r r'. enriched r r' \<and> (rule_of r \<noteq> rule \<longrightarrow> r' = r)) (t_insights (w_db w)) rows"
    by (rule reconcile_facts [OF rc [unfolded n1]])
  note ac = apply_acks_facts [where w = w1 and rule = rule and acks = acks]
  obtain es where es: "session_step ?w2 w3" "w_db w3 = (w_db ?w2)\<lparr>t_events := t_events (w_db ?w2) @ es\<rparr>"
    "new_events sha rule previous (snapshot_rule sha rule (w_db ?w2)) (Some i) (w_begin ?w2) es"
    by (rule diff_facts [OF df [unfolded n2]])
  obtain rs where rs: "w_db (finish_insight_run i ?st n (n_insights k) w3) = (w_db w3)\<lparr>t_insight_runs := rs\<rparr>"
    using finish_insight_run_facts(2) by blast
  have db: "w_db w' = (w_db w3)\<lparr>t_insight_runs := rs\<rparr>" and saved: "w_saved w' = w_db w'"
    using rs by (simp_all add: w' commit_def begin_tx_def now_def Let_def)
  have b: "w_begin ?w2 = w_begin w" using rows(1) ac(1) by (simp add: session_step_def)
  have snap: "snapshot_rule sha rule (w_db w') = snapshot_rule sha rule (w_db ?w2)"
    using db es(2) by (simp add: snapshot_rule_def)
  show thesis
    by (rule that [OF rows(3) _ _ _ _ res saved]) (use db es rows(2) ac(2) b snap in simp_all)
qed

lemma as_stored_simps [simp]: "ins_rule (as_stored i) = ins_rule i" "ins_resource (as_stored i) = ins_resource i"
    "ins_severity (as_stored i) = ins_severity i" "ins_title (as_stored i) = ins_title i" "ins_payload (as_stored i) = ins_payload i"
  by (simp_all add: as_stored_def)

lemma gap_rows_about:
  assumes "resource_rule rule evaluate" and "list_all2 (allowed rule evaluate source max_age today t0 d) rs vs"
    and "i \<in> set (concat (map gap_rows vs))"
  obtains r v where "r \<in> set rs" and "allowed rule evaluate source max_age today t0 d r v" and "i \<in> set (gap_rows v)"
    and "ins_rule i = rule" and "ins_resource i = Some (rr_id r)"
proof -
  obtain v where v: "v \<in> set vs" "i \<in> set (gap_rows v)" using assms(3) by auto
  then obtain r where r: "r \<in> set rs" "allowed rule evaluate source max_age today t0 d r v"
    using assms(2) by (metis in_set_impl_in_set_zip2 list_all2_iff set_zip_leftD case_prodD)
  obtain gs us where "v = Inr (gs, us)" using v(2) by (cases v) auto
  moreover from this obtain j where "j \<in> set gs" "i = as_stored j" using v(2) by (auto dest: set_takeWhileD)
  ultimately show thesis using that r v(2) allowed_about [OF _ assms(1), of source max_age today t0 d r gs us] by auto
qed

text \<open>The store after a run without exception.\<close>

lemma run_after:
  assumes "clock_ok w" and "run_resource_rule sha local_date rule today max_age w = (Inr res, w')"
  obtains evaluate i vs rows rows' es t
  where "dict_get RESOURCE_RULES rule = Some evaluate"
    and "list_all2 (allowed rule evaluate (get_default RULE_SOURCES rule DEFAULT_SOURCE) max_age today (w_clock w (w_tick w)) (w_db w))
      (t_resources (w_db w)) vs"
    and "map ir_insight rows = concat (map gap_rows vs)" and "\<forall>r\<in>set rows. rule_of r = rule \<and> ir_ack r = None"
    and "list_all2 enriched rows rows'" and "\<forall>r\<in>set rows'. rule_of r = rule \<and> ir_ack r = None"
    and "t_insights (w_db w') = filter (\<lambda>r. rule_of r \<noteq> rule) (t_insights (w_db w)) @
      map (\<lambda>r. r\<lparr>ir_ack := dict_get (snapshot_acks rule (w_db w)) (ack_snapshot_key r)\<rparr>) rows'"
    and "map nr_inconclusive (filter (\<lambda>r. inc_rule_of r = rule) (t_inconclusive (w_db w'))) = concat (map unsure_rows vs)"
    and "t_events (w_db w') = t_events (w_db w) @ es"
    and "new_events sha rule (snapshot_rule sha rule (w_db w)) (snapshot_rule sha rule (w_db w')) (Some i) t es"
    and "rs_errors res = concat (map2 (\<lambda>r v. map (Pair (rr_id r)) (error_of v)) (t_resources (w_db w)) vs)"
    and "rs_insights res = length rows" and "w_saved w' = w_db w'"
proof -
  obtain evaluate where ev: "dict_get RESOURCE_RULES rule = Some evaluate"
    using assms(2) by (cases "dict_get RESOURCE_RULES rule") (auto simp: run_resource_rule_def)
  let ?source = "get_default RULE_SOURCES rule DEFAULT_SOURCE" and ?acks = "snapshot_acks rule (w_db w)"
  let ?old = "filter (\<lambda>r. rule_of r \<noteq> rule) (t_insights (w_db w))"
  obtain i vs rows urows w1 w2 errors
    where saved: "w_saved w2 = (w_db w)\<lparr>t_insight_runs := t_insight_runs (w_db w) @ [opened rule i (w_begin w)]\<rparr>"
    and vs: "list_all2 (allowed rule evaluate ?source max_age today (w_clock w (w_tick w)) (w_db w)) (t_resources (w_db w)) vs"
    and db: "w_db w2 = (w_saved w2)\<lparr>t_insights := ?old @ rows,
      t_inconclusive := filter (\<lambda>r. inc_rule_of r \<noteq> rule) (t_inconclusive (w_db w)) @ urows\<rparr>"
    and rows: "map ir_insight rows = concat (map gap_rows vs)" and urows: "map nr_inconclusive urows = concat (map unsure_rows vs)"
    and acks: "\<forall>r\<in>set rows. ir_ack r = None"
    and errors: "errors = concat (map2 (\<lambda>r v. map (Pair (rr_id r)) (error_of v)) (t_resources (w_db w)) vs)"
    and close: "close_rule sha rule (snapshot_rule sha rule (w_db w)) ?acks i (length (t_resources (w_db w)))
      (tally_of zero_tally rows urows errors) w2 = (Inr res, w')"
    by (rule run_stages [OF assms(1) ev assms(2)])
  obtain all es where all: "list_all2 (\<lambda>r r'. enriched r r' \<and> (rule_of r \<noteq> rule \<longrightarrow> r' = r)) (t_insights (w_db w2)) all"
    and ins: "t_insights (w_db w') = map (acked_by rule ?acks) all" and inc: "t_inconclusive (w_db w') = t_inconclusive (w_db w2)"
    and es: "t_events (w_db w') = t_events (w_db w2) @ es"
      "new_events sha rule (snapshot_rule sha rule (w_db w)) (snapshot_rule sha rule (w_db w')) (Some i) (w_begin w2) es"
    and res: "rs_errors res = n_errors (tally_of zero_tally rows urows errors)" "rs_insights res = n_insights (tally_of zero_tally rows urows errors)"
    and fin: "w_saved w' = w_db w'"
    by (rule close_rule_Inr [OF close])
  have mine: "rule_of r = rule" if "r \<in> set rows" for r
  proof -
    have "ir_insight r \<in> set (concat (map gap_rows vs))" using that rows by (metis image_eqI list.set_map)
    then show ?thesis by (rule gap_rows_about [OF registered_rule [OF ev] vs])
  qed
  obtain old' rows' where split: "all = old' @ rows'" "list_all2 (\<lambda>r r'. enriched r r' \<and> (rule_of r \<noteq> rule \<longrightarrow> r' = r)) ?old old'"
      "list_all2 (\<lambda>r r'. enriched r r' \<and> (rule_of r \<noteq> rule \<longrightarrow> r' = r)) rows rows'"
    using all db by (auto simp: list_all2_append1)
  have old': "old' = ?old"
  proof (rule nth_equalityI)
    fix n assume n: "n < length old'"
    then have "n < length ?old" using split(2) by (simp add: list_all2_conv_all_nth)
    then have "rule_of (?old ! n) \<noteq> rule" using nth_mem by fastforce
    then show "old' ! n = ?old ! n" using split(2) n by (simp add: list_all2_conv_all_nth)
  qed (use split(2) in \<open>simp add: list_all2_conv_all_nth\<close>)
  have rows': "list_all2 enriched rows rows'" using split(3) by (auto elim: list_all2_mono)
  then have mine': "\<forall>r\<in>set rows'. rule_of r = rule \<and> ir_ack r = None"
    using mine acks enriched_fields by (fastforce simp: list_all2_conv_all_nth in_set_conv_nth)
  have "map (acked_by rule ?acks) ?old = ?old" by (rule map_idI) (simp add: acked_by_def)
  moreover have "map (acked_by rule ?acks) rows' = map (\<lambda>r. r\<lparr>ir_ack := dict_get ?acks (ack_snapshot_key r)\<rparr>) rows'"
    using mine' by (simp add: acked_by_def)
  ultimately have t: "t_insights (w_db w') = ?old @ map (\<lambda>r. r\<lparr>ir_ack := dict_get ?acks (ack_snapshot_key r)\<rparr>) rows'"
    using ins split(1) old' by simp
  have "inc_rule_of u = rule" if "u \<in> set urows" for u
  proof -
    have "nr_inconclusive u \<in> set (concat (map unsure_rows vs))" using that urows by (metis image_eqI list.set_map)
    then obtain v where v: "v \<in> set vs" "nr_inconclusive u \<in> set (unsure_rows v)" by auto
    then obtain r where r: "allowed rule evaluate ?source max_age today (w_clock w (w_tick w)) (w_db w) r v"
      using vs by (metis in_set_impl_in_set_zip2 list_all2_iff case_prodD)
    obtain gs us where v2: "v = Inr (gs, us)" "nr_inconclusive u \<in> set us" using v(2) by (cases v) (auto split: if_splits)
    have "\<exists>missing reason. nr_inconclusive u = about_resource rule r missing reason"
      using allowed_about [OF r [unfolded v2(1)] registered_rule [OF ev]] v2(2) by blast
    then show ?thesis by (auto simp: about_resource_def)
  qed
  then have "filter (\<lambda>r. inc_rule_of r = rule) (t_inconclusive (w_db w')) = urows"
    using inc db by (simp add: filter_id_conv)
  then have u: "map nr_inconclusive (filter (\<lambda>r. inc_rule_of r = rule) (t_inconclusive (w_db w'))) = concat (map unsure_rows vs)"
    using urows by simp
  show thesis
    by (rule that [OF ev vs rows _ rows' mine' t u _ es(2) _ _ fin])
      (use mine acks es(1) db saved res errors in \<open>simp_all add: tally_of_def zero_tally_def\<close>)
qed

end
