(* ===== verification/RuleRuns.thy ===== *)
theory RuleRuns
  imports Runner
begin

text \<open>
  What one run of a resource rule leaves in the store: the insights and inconclusive records against the
  specification of one resource, the proof behind every insight, acknowledgements, life-cycle events,
  a run that raises, and the FOCUS context. The last section runs a rule on a small inventory.
\<close>

section \<open>What a run leaves\<close>

definition reported :: "string \<Rightarrow> db \<Rightarrow> insight list" where
  "reported rule d = map ir_insight (filter (\<lambda>r. rule_of r = rule) (t_insights d))"

definition undecided :: "string \<Rightarrow> db \<Rightarrow> inconclusive list" where
  "undecided rule d = map nr_inconclusive (filter (\<lambda>r. inc_rule_of r = rule) (t_inconclusive d))"

definition same_finding :: "insight \<Rightarrow> insight \<Rightarrow> bool" where
  "same_finding i i' = (i' = i \<or> (\<exists>ctx. set (dict_keys ctx) \<subseteq> set focus_keys \<and> i' = i\<lparr>ins_payload := dict_update (ins_payload i) ctx\<rparr>))"

lemma enriched_same_finding: "enriched r r' \<Longrightarrow> same_finding (ir_insight r) (ir_insight r')"
  by (auto simp: enriched_def same_finding_def)

lemma acked_insights: "map ir_insight (map (\<lambda>r. r\<lparr>ir_ack := f r\<rparr>) rows) = map ir_insight rows"
  by simp

text \<open>The store of the rule's rows behind a run without exception.\<close>

lemma filter_replaced:
  assumes "\<forall>r\<in>set rows. rule_of r = rule"
    and "t_insights d = filter (\<lambda>r. rule_of r \<noteq> rule) olds @ map (\<lambda>r. r\<lparr>ir_ack := f r\<rparr>) rows"
  shows "filter (\<lambda>r. rule_of r = rule) (t_insights d) = map (\<lambda>r. r\<lparr>ir_ack := f r\<rparr>) rows"
    and "filter (\<lambda>r. rule_of r \<noteq> rule) (t_insights d) = filter (\<lambda>r. rule_of r \<noteq> rule) olds"
  using assms by (auto simp: filter_empty_conv intro!: filter_True)

text \<open>C1: A run of a resource rule that ends without an exception implements the specification of one resource
  for every resource of the inventory, in its order: the stored insights of the rule are exactly the
  gaps that the specification allows (with at most FOCUS context added to their payload), the stored
  inconclusive records exactly the doubts, the reported errors exactly what the evaluators raised or the
  store refused, and the insights of every other rule stay.\<close>

theorem resource_run_implements_spec:
  assumes "clock_ok w" and "run_resource_rule sha local_date rule today max_age w = (Inr res, w')"
  shows "\<exists>evaluate vs. dict_get RESOURCE_RULES rule = Some evaluate \<and>
    list_all2 (allowed rule evaluate (get_default RULE_SOURCES rule DEFAULT_SOURCE) max_age today (w_clock w (w_tick w)) (w_db w))
      (t_resources (w_db w)) vs \<and>
    list_all2 same_finding (concat (map gap_rows vs)) (reported rule (w_db w')) \<and>
    undecided rule (w_db w') = concat (map unsure_rows vs) \<and>
    rs_errors res = concat (map2 (\<lambda>r v. map (Pair (rr_id r)) (error_of v)) (t_resources (w_db w)) vs) \<and>
    filter (\<lambda>r. rule_of r \<noteq> rule) (t_insights (w_db w')) = filter (\<lambda>r. rule_of r \<noteq> rule) (t_insights (w_db w))"
proof -
  obtain evaluate i vs rows rows' es t
    where ev: "dict_get RESOURCE_RULES rule = Some evaluate"
    and vs: "list_all2 (allowed rule evaluate (get_default RULE_SOURCES rule DEFAULT_SOURCE) max_age today (w_clock w (w_tick w)) (w_db w))
      (t_resources (w_db w)) vs"
    and rows: "map ir_insight rows = concat (map gap_rows vs)" and en: "list_all2 enriched rows rows'"
    and mine: "\<forall>r\<in>set rows'. rule_of r = rule \<and> ir_ack r = None"
    and ins: "t_insights (w_db w') = filter (\<lambda>r. rule_of r \<noteq> rule) (t_insights (w_db w)) @
      map (\<lambda>r. r\<lparr>ir_ack := dict_get (snapshot_acks rule (w_db w)) (ack_snapshot_key r)\<rparr>) rows'"
    and inc: "map nr_inconclusive (filter (\<lambda>r. inc_rule_of r = rule) (t_inconclusive (w_db w'))) = concat (map unsure_rows vs)"
    and errs: "rs_errors res = concat (map2 (\<lambda>r v. map (Pair (rr_id r)) (error_of v)) (t_resources (w_db w)) vs)"
    by (rule run_after [OF assms])
  have r: "\<forall>r\<in>set rows'. rule_of r = rule" using mine by simp
  note f = filter_replaced [OF r ins]
  have "reported rule (w_db w') = map ir_insight rows'" by (simp add: reported_def f(1) comp_def)
  moreover have "list_all2 same_finding (map ir_insight rows) (map ir_insight rows')"
    unfolding list.rel_map using en by (auto elim!: list_all2_mono simp: enriched_same_finding)
  ultimately show ?thesis using ev vs inc errs f(2) rows unfolding undecided_def by metis
qed

lemma reported_proven:
  assumes "clock_ok w" and "run_resource_rule sha local_date rule today max_age w = (Inr res, w')" and "i \<in> set (reported rule (w_db w'))"
  obtains r where "r \<in> set (t_resources (w_db w))" and "ins_resource i = Some (rr_id r)"
    and "proven (get_default RULE_SOURCES rule DEFAULT_SOURCE) max_age (w_clock w (w_tick w)) (w_db w) r"
proof -
  obtain evaluate j vs rows rows' es t
    where ev: "dict_get RESOURCE_RULES rule = Some evaluate"
    and vs: "list_all2 (allowed rule evaluate (get_default RULE_SOURCES rule DEFAULT_SOURCE) max_age today (w_clock w (w_tick w)) (w_db w))
      (t_resources (w_db w)) vs"
    and rows: "map ir_insight rows = concat (map gap_rows vs)" and en: "list_all2 enriched rows rows'"
    and mine: "\<forall>r\<in>set rows'. rule_of r = rule \<and> ir_ack r = None"
    and ins: "t_insights (w_db w') = filter (\<lambda>r. rule_of r \<noteq> rule) (t_insights (w_db w)) @
      map (\<lambda>r. r\<lparr>ir_ack := dict_get (snapshot_acks rule (w_db w)) (ack_snapshot_key r)\<rparr>) rows'"
    by (rule run_after [OF assms(1,2)])
  have r: "\<forall>r\<in>set rows'. rule_of r = rule" using mine by simp
  obtain r' where r': "r' \<in> set rows'" "i = ir_insight r'"
    using assms(3) by (auto simp: reported_def filter_replaced(1) [OF r ins])
  then obtain r0 where r0: "r0 \<in> set rows" "enriched r0 r'" using en by (metis in_set_conv_nth list_all2_conv_all_nth)
  then have "ir_insight r0 \<in> set (concat (map gap_rows vs))" using rows by (metis image_eqI list.set_map)
  then obtain q v where q: "q \<in> set (t_resources (w_db w))"
      "allowed rule evaluate (get_default RULE_SOURCES rule DEFAULT_SOURCE) max_age today (w_clock w (w_tick w)) (w_db w) q v"
      "ir_insight r0 \<in> set (gap_rows v)" "ins_resource (ir_insight r0) = Some (rr_id q)"
    by (rule gap_rows_about [OF registered_rule [OF ev] vs, of "ir_insight r0"]) (rule that)
  have "proven (get_default RULE_SOURCES rule DEFAULT_SOURCE) max_age (w_clock w (w_tick w)) (w_db w) q"
    using q(2,3) by (cases rule: allowed.cases) auto
  then show thesis using q(1,4) r' enriched_fields(4) [OF r0(2)] by (auto intro: that)
qed

text \<open>C2: Every insight a run of a resource rule leaves is about a resource of the inventory whose scope was scanned
  successfully within the freshness window before the run: a resource that no fresh scan proves never gets one.\<close>

theorem insights_only_for_proven_scope:
  assumes "clock_ok w" and "run_resource_rule sha local_date rule today max_age w = (Inr res, w')" and "i \<in> set (reported rule (w_db w'))"
  shows "\<exists>r run. r \<in> set (t_resources (w_db w)) \<and> ins_resource i = Some (rr_id r) \<and> run \<in> set (t_runs (w_db w)) \<and>
    sr_status run = Success \<and> in_scope (scope_of (get_default RULE_SOURCES rule DEFAULT_SOURCE) r) run \<and>
    (\<forall>age. max_age = Some age \<longrightarrow> (\<exists>f. sr_finished run = Some f \<and> w_clock w (w_tick w) - f \<le> age))"
  by (rule reported_proven [OF assms]) (use assms(1) in \<open>unfold proven_def succeeded_def, cases max_age; fastforce\<close>)

lemma resource_ack_key:
  assumes "ins_resource (ir_insight r) = Some u" and "rule_of r = rule" and "rule_of r' = rule"
  shows "ack_snapshot_key r' = ack_snapshot_key r \<longleftrightarrow> ins_resource (ir_insight r') = Some u"
  using assms by (cases "ins_resource (ir_insight r')") (auto simp: ack_snapshot_key_def stable_id_of_def uuid_str_inj)

lemma snapshot_acks_Some:
  assumes "dict_get (snapshot_acks rule d) k = Some a"
  shows "\<exists>r\<in>set (t_insights d). rule_of r = rule \<and> ack_snapshot_key r = k \<and> ir_ack r = Some a"
proof -
  have "(k, a) \<in> set (map (\<lambda>r. (ack_snapshot_key r, the (ir_ack r))) (filter (\<lambda>r. rule_of r = rule \<and> ir_ack r \<noteq> None) (t_insights d)))"
    using assms by (auto simp: snapshot_acks_def dict_get_of dest: map_of_SomeD)
  then show ?thesis by auto
qed


lemma snapshot_acks_None:
  "dict_get (snapshot_acks rule d) k = None \<Longrightarrow> r \<in> set (t_insights d) \<Longrightarrow> rule_of r = rule \<Longrightarrow> ack_snapshot_key r = k \<Longrightarrow> ir_ack r = None"
  by (cases "ir_ack r") (auto simp: snapshot_acks_def dict_get_of map_of_eq_None_iff image_iff)

text \<open>C11: Acknowledgements survive the replacement of a rule's insights: a new insight about a resource is acknowledged
  precisely when an old insight of the rule about the same resource was, and then with the status, time and
  author of such an old one; an acknowledgement never passes to another resource.\<close>

theorem acks_survive_replacement:
  assumes "clock_ok w" and "run_resource_rule sha local_date rule today max_age w = (Inr res, w')"
    and "r' \<in> set (t_insights (w_db w'))" and "rule_of r' = rule"
  shows "\<exists>u. ins_resource (ir_insight r') = Some u \<and>
    (let old = filter (\<lambda>r. rule_of r = rule \<and> ins_resource (ir_insight r) = Some u) (t_insights (w_db w)) in
     (ir_ack r' = None \<longrightarrow> (\<forall>r\<in>set old. ir_ack r = None)) \<and> (ir_ack r' \<noteq> None \<longrightarrow> (\<exists>r\<in>set old. ir_ack r = ir_ack r')))"
proof -
  let ?acks = "snapshot_acks rule (w_db w)"
  obtain evaluate j vs rows rows' es t
    where ev: "dict_get RESOURCE_RULES rule = Some evaluate"
    and vs: "list_all2 (allowed rule evaluate (get_default RULE_SOURCES rule DEFAULT_SOURCE) max_age today (w_clock w (w_tick w)) (w_db w))
      (t_resources (w_db w)) vs"
    and rows: "map ir_insight rows = concat (map gap_rows vs)" and en: "list_all2 enriched rows rows'"
    and mine: "\<forall>r\<in>set rows'. rule_of r = rule \<and> ir_ack r = None"
    and ins: "t_insights (w_db w') = filter (\<lambda>r. rule_of r \<noteq> rule) (t_insights (w_db w)) @
      map (\<lambda>r. r\<lparr>ir_ack := dict_get ?acks (ack_snapshot_key r)\<rparr>) rows'"
    by (rule run_after [OF assms(1,2)])
  obtain r1 where r1: "r1 \<in> set rows'" "r' = r1\<lparr>ir_ack := dict_get ?acks (ack_snapshot_key r1)\<rparr>"
    using assms(3,4) ins by auto
  then obtain r0 where r0: "r0 \<in> set rows" "enriched r0 r1" using en by (metis in_set_conv_nth list_all2_conv_all_nth)
  then have "ir_insight r0 \<in> set (concat (map gap_rows vs))" using rows by (metis image_eqI list.set_map)
  then obtain q :: resource_row where "ins_resource (ir_insight r0) = Some (rr_id q)"
    by (rule gap_rows_about [OF registered_rule [OF ev] vs, of "ir_insight r0"]) (use that in blast)
  then have u: "ins_resource (ir_insight r1) = Some (rr_id q)" using enriched_fields(4) [OF r0(2)] by simp
  have key: "ack_snapshot_key r = ack_snapshot_key r1 \<longleftrightarrow> ins_resource (ir_insight r) = Some (rr_id q)" if "rule_of r = rule" for r
    using resource_ack_key [OF u _ that] mine r1(1) by simp
  have none: "ir_ack r = None" if "dict_get ?acks (ack_snapshot_key r1) = None" "r \<in> set (t_insights (w_db w))" "rule_of r = rule"
      "ins_resource (ir_insight r) = Some (rr_id q)" for r
    using snapshot_acks_None [OF that(1-3)] key [OF that(3)] that(4) by simp
  have some: "\<exists>r\<in>set (t_insights (w_db w)). rule_of r = rule \<and> ins_resource (ir_insight r) = Some (rr_id q) \<and> ir_ack r = Some a"
    if "dict_get ?acks (ack_snapshot_key r1) = Some a" for a
    using snapshot_acks_Some [OF that] key by auto
  show ?thesis
  proof (intro exI [of _ "rr_id q"] conjI)
    show "ins_resource (ir_insight r') = Some (rr_id q)" using u r1(2) by simp
    show "let old = filter (\<lambda>r. rule_of r = rule \<and> ins_resource (ir_insight r) = Some (rr_id q)) (t_insights (w_db w)) in
     (ir_ack r' = None \<longrightarrow> (\<forall>r\<in>set old. ir_ack r = None)) \<and> (ir_ack r' \<noteq> None \<longrightarrow> (\<exists>r\<in>set old. ir_ack r = ir_ack r'))"
      using none some r1(2) by (cases "dict_get ?acks (ack_snapshot_key r1)") (auto simp: Let_def)
  qed
qed

section \<open>The life cycle\<close>

definition fingerprints :: "(string \<Rightarrow> string) \<Rightarrow> string \<Rightarrow> db \<Rightarrow> string set" where
  "fingerprints sha rule d = row_fingerprint sha ` {r \<in> set (t_insights d). rule_of r = rule}"

lemma snapshot_rule_keys: "dict_get (snapshot_rule sha rule d) k \<noteq> None \<longleftrightarrow> k \<in> fingerprints sha rule d"
  by (auto simp: snapshot_rule_def fingerprints_def dict_get_of map_of_eq_None_iff image_iff)

lemma event_of_facts: "event_of rule run t e kr = Inr x \<Longrightarrow> ev_fingerprint x = fst kr \<and> ev_rule x = rule \<and> ev_event x = e \<and> ev_run x = run \<and> ev_at x = t"
  by (auto simp: event_of_def rmap_Inr_iff split: prod.splits)

lemma mapM_events:
  "mapM (event_of rule run t e) kvs = Inr xs \<Longrightarrow> map ev_fingerprint xs = map fst kvs \<and>
     (\<forall>x\<in>set xs. ev_rule x = rule \<and> ev_event x = e \<and> ev_run x = run \<and> ev_at x = t)"
proof (induction kvs arbitrary: xs)
  case (Cons kv kvs)
  then obtain x ys where "event_of rule run t e kv = Inr x" "mapM (event_of rule run t e) kvs = Inr ys" "xs = x # ys"
    by (auto simp: rbind_Inr_iff rmap_Inr_iff)
  then show ?case using Cons.IH [of ys] event_of_facts [of rule run t e kv x] by simp
qed simp

lemma missing_keys:
  assumes "dict_wf d"
  shows "distinct (map fst (missing_from other d))"
    and "set (map fst (missing_from other d)) = {k. dict_get d k \<noteq> None \<and> dict_get other k = None}"
proof -
  have d: "distinct (map fst d)" using assms by (simp add: dict_wf_def dict_keys_def)
  show "distinct (map fst (missing_from other d))" unfolding missing_from_def by (rule distinct_map_filter [OF d])
  show "set (map fst (missing_from other d)) = {k. dict_get d k \<noteq> None \<and> dict_get other k = None}"
    unfolding missing_from_def by (force dest: map_of_SomeD simp: map_of_eq_None_iff)
qed

text \<open>C17: The events of a run are the difference of what the rule reported before and reports after it: one \<open>appeared\<close> for
  every new fingerprint, one \<open>resolved\<close> for every fingerprint that is gone, none for what stays, all under one
  run and at one instant, appended to the events recorded before.\<close>

theorem events_are_the_difference:
  assumes "clock_ok w" and "run_resource_rule sha local_date rule today max_age w = (Inr res, w')"
  shows "\<exists>new gone run t. t_events (w_db w') = t_events (w_db w) @ new @ gone \<and>
    (\<forall>e\<in>set new. ev_rule e = rule \<and> ev_event e = Appeared \<and> ev_run e = Some run \<and> ev_at e = t) \<and>
    (\<forall>e\<in>set gone. ev_rule e = rule \<and> ev_event e = Resolved \<and> ev_run e = Some run \<and> ev_at e = t) \<and>
    distinct (map ev_fingerprint new) \<and> distinct (map ev_fingerprint gone) \<and>
    set (map ev_fingerprint new) = fingerprints sha rule (w_db w') - fingerprints sha rule (w_db w) \<and>
    set (map ev_fingerprint gone) = fingerprints sha rule (w_db w) - fingerprints sha rule (w_db w')"
proof -
  obtain i es t where es: "t_events (w_db w') = t_events (w_db w) @ es"
    and ev: "new_events sha rule (snapshot_rule sha rule (w_db w)) (snapshot_rule sha rule (w_db w')) (Some i) t es"
    by (rule run_after [OF assms])
  obtain new gone where split: "es = new @ gone"
    and new: "mapM (event_of rule (Some i) t Appeared) (missing_from (snapshot_rule sha rule (w_db w)) (snapshot_rule sha rule (w_db w'))) = Inr new"
    and gone: "mapM (event_of rule (Some i) t Resolved) (missing_from (snapshot_rule sha rule (w_db w')) (snapshot_rule sha rule (w_db w))) = Inr gone"
    using ev by (auto simp: new_events_def)
  have wf: "dict_wf (snapshot_rule sha rule d)" for d by (simp add: snapshot_rule_def)
  have keys: "{k. dict_get (snapshot_rule sha rule d) k \<noteq> None \<and> dict_get (snapshot_rule sha rule d') k = None} =
      fingerprints sha rule d - fingerprints sha rule d'" for d d'
    using snapshot_rule_keys [of sha rule d] snapshot_rule_keys [of sha rule d'] by blast
  have missing: "fst ` set (missing_from (snapshot_rule sha rule d') (snapshot_rule sha rule d)) =
      fingerprints sha rule d - fingerprints sha rule d'" for d d'
    unfolding missing_keys(2) [OF wf, unfolded list.set_map] by (rule keys)
  show ?thesis
    by (rule exI [of _ new], rule exI [of _ gone], rule exI [of _ i], rule exI [of _ t])
      (simp add: es split mapM_events [OF new] mapM_events [OF gone] missing_keys(1) [OF wf] missing)
qed

section \<open>A run that raises\<close>

lemma close_rule_Inl:
  assumes "close_rule sha rule previous acks i n k w = (Inl e, w')"
  shows "w_saved w' = w_saved w"
proof -
  obtain r1 w1 where rc: "reconcile_with_focus rule w = (r1, w1)" by (metis surj_pair)
  have s1: "w_saved w1 = w_saved w"
    using rc by (auto simp: reconcile_with_focus_def with_insights_def split: option.splits sum.splits)
  let ?w2 = "snd (apply_acks_to_rule rule acks w1)"
  have s2: "w_saved ?w2 = w_saved w1" using apply_acks_facts(1) by (simp add: session_step_def)
  show ?thesis
    using assms rc s1 s2 by (auto simp: close_rule_def diff_and_record_events_def Let_def split: sum.splits)
qed

text \<open>C18: A run that raises replaces nothing: after the rollback of the caller the insights, inconclusive records,
  acknowledgements and events are those of before the run. Only the row that opened the run was committed;
  it stays \<open>running\<close> without an end, because no path closes it.\<close>

theorem failed_run_keeps_report:
  assumes "clock_ok w" and "rule \<in> set (map fst RESOURCE_RULES)" and "run_resource_rule sha local_date rule today max_age w = (Inl e, w')"
  shows "\<exists>i t. w_db (rollback w') = (w_db w)\<lparr>t_insight_runs := t_insight_runs (w_db w) @
    [\<lparr>nu_id = i, nu_rule = rule, nu_started = t, nu_finished = None, nu_status = Running, nu_scanned = None, nu_emitted = None\<rparr>]\<rparr>"
proof -
  obtain evaluate where ev: "dict_get RESOURCE_RULES rule = Some evaluate"
    using assms(2) by (metis image_set map_of_eq_None_iff option.exhaust)
  obtain i vs rows urows w1 w2 es
    where saved: "w_saved w2 = (w_db w)\<lparr>t_insight_runs := t_insight_runs (w_db w) @ [opened rule i (w_begin w)]\<rparr>"
    and close: "close_rule sha rule (snapshot_rule sha rule (w_db w)) (snapshot_acks rule (w_db w)) i (length (t_resources (w_db w)))
      (tally_of zero_tally rows urows es) w2 = (Inl e, w')"
    by (rule run_stages [OF assms(1) ev assms(3)])
  have "w_db (rollback w') = w_saved w'" by (simp add: rollback_def begin_tx_def now_def Let_def)
  then show ?thesis using close_rule_Inl [OF close] saved by (auto simp: opened_def)
qed

section \<open>FOCUS context and amounts\<close>

lemma payload_key_not_focus: "dict_get MONETARY rule = Some entry \<Longrightarrow> payload_key entry \<notin> set focus_keys"
  by (auto simp: MONETARY_def focus_keys_def split: if_splits)

text \<open>The FOCUS context never changes an amount: reconciliation keeps the number and order of the insights, their
  identifiers, acknowledgements, titles and severities, and the monthly amount that the monetary registry
  extracts for each.\<close>

lemma focus_context_keeps_amounts:
  assumes "reconcile_with_focus rule w = (Inr n, w')"
  shows "list_all2 (\<lambda>r r'. ir_id r' = ir_id r \<and> ir_ack r' = ir_ack r \<and> rule_of r' = rule_of r \<and>
      ins_title (ir_insight r') = ins_title (ir_insight r) \<and> ins_severity (ir_insight r') = ins_severity (ir_insight r) \<and>
      monthly_cost_and_basis (rule_of r') (ins_payload (ir_insight r')) = monthly_cost_and_basis (rule_of r) (ins_payload (ir_insight r)) \<and>
      (rule_of r \<noteq> rule \<longrightarrow> r' = r)) (t_insights (w_db w)) (t_insights (w_db w'))"
proof -
  obtain rows where w': "w_db w' = (w_db w)\<lparr>t_insights := rows\<rparr>"
    and rows: "list_all2 (\<lambda>r r'. enriched r r' \<and> (rule_of r \<noteq> rule \<longrightarrow> r' = r)) (t_insights (w_db w)) rows"
    by (rule reconcile_facts [OF assms])
  have amount: "monthly_cost_and_basis (rule_of r') (ins_payload (ir_insight r')) = monthly_cost_and_basis (rule_of r) (ins_payload (ir_insight r))"
    if "enriched r r'" for r r'
    using enriched_fields(3,8) [OF that] payload_key_not_focus by (auto simp: monthly_cost_and_basis_def split: option.splits)
  show ?thesis unfolding w' by (simp, rule list_all2_mono [OF rows]) (simp add: enriched_fields amount)
qed

section \<open>A run on a small inventory\<close>

text \<open>A run ends without an exception when there are no FOCUS charges and the amounts of the old and new insights are in range.\<close>

lemma reconcile_no_focus:
  assumes "t_focus (w_db w) = []"
  shows "\<exists>n. reconcile_with_focus rule w = (Inr n, w)"
proof -
  have ctx: "focus_context service (w_db w) key i = Inr None" for service key i
    using assms by (auto simp: focus_context_def latest_period_lines_def split: option.splits)
  have "mapM (reconcile_row rule service (w_db w) key) rows = Inr (map (\<lambda>r. (r, 0)) rows)" for service key rows
    by (induction rows) (simp_all add: reconcile_row_def ctx)
  then show ?thesis
    by (auto simp: reconcile_with_focus_def with_insights_def comp_def split: option.splits)
qed

lemma mapM_total: "\<forall>x\<in>set xs. \<exists>y. f x = Inr y \<Longrightarrow> \<exists>ys. mapM f xs = Inr ys"
  by (induction xs) auto

lemma snapshot_rule_member:
  assumes "(k, r) \<in> set (snapshot_rule sha rule d)"
  shows "r \<in> set (t_insights d) \<and> rule_of r = rule"
proof -
  have "dict_wf (snapshot_rule sha rule d)" by (simp add: snapshot_rule_def)
  then have "dict_get (snapshot_rule sha rule d) k = Some r" using assms by (simp add: dict_wf_def dict_keys_def)
  then show ?thesis by (auto simp: snapshot_rule_def dict_get_of dest!: map_of_SomeD)
qed

lemma close_rule_total:
  assumes "t_focus (w_db w) = []" and "\<forall>(k, r)\<in>set previous. \<exists>x. monthly_of rule r = Inr x"
    and "\<forall>r\<in>set (t_insights (w_db w)). rule_of r = rule \<longrightarrow> (\<exists>x. monthly_of rule r = Inr x)"
  shows "\<exists>res w'. close_rule sha rule previous acks i n k w = (Inr res, w')"
proof -
  obtain m where rc: "reconcile_with_focus rule w = (Inr m, w)" using reconcile_no_focus [OF assms(1)] by blast
  let ?w = "snd (apply_acks_to_rule rule acks w)"
  let ?cur = "snapshot_rule sha rule (w_db ?w)"
  have same: "monthly_of rule (acked_by rule acks r) = monthly_of rule r" for r by (simp add: monthly_of_def acked_by_def)
  have cur: "\<exists>x. monthly_of rule r = Inr x" if "(key, r) \<in> set ?cur" for key r
  proof -
    have "r \<in> acked_by rule acks ` set (t_insights (w_db w))" "rule_of r = rule"
      using snapshot_rule_member [OF that] apply_acks_facts(2) [of rule acks w] by simp_all
    then obtain r0 where "r0 \<in> set (t_insights (w_db w))" "r = acked_by rule acks r0" by blast
    moreover have "rule_of r0 = rule" using calculation \<open>rule_of r = rule\<close> by (simp add: acked_by_def split: if_splits)
    ultimately show ?thesis using assms(3) same by simp
  qed
  have ev: "\<exists>x. event_of rule (Some i) t e (key, r) = Inr x" if "\<exists>x. monthly_of rule r = Inr x" for t e key r
    using that by (auto simp: event_of_def)
  obtain new gone where "mapM (event_of rule (Some i) (w_begin ?w) Appeared) (missing_from previous ?cur) = Inr new"
    "mapM (event_of rule (Some i) (w_begin ?w) Resolved) (missing_from ?cur previous) = Inr gone"
    using mapM_total [of "missing_from previous ?cur" "event_of rule (Some i) (w_begin ?w) Appeared"]
      mapM_total [of "missing_from ?cur previous" "event_of rule (Some i) (w_begin ?w) Resolved"] cur assms(2) ev
    by (fastforce simp: missing_from_def)
  then have "\<exists>x w'. diff_and_record_events sha rule previous (Some i) ?w = (Inr x, w')"
    by (simp add: diff_and_record_events_def Let_def)
  then show ?thesis using rc by (auto simp: close_rule_def Let_def)
qed

text \<open>A gp2 volume of a scanned region, whose old insight was dismissed, and a volume of a region that was never
  scanned, with an old insight of its own.\<close>

definition old_insight :: "uuid \<Rightarrow> string \<Rightarrow> ack option \<Rightarrow> insight_row" where
  "old_insight rid title a = \<lparr>ir_id = 90, ir_insight = \<lparr>ins_rule = ''ebs_gp2_to_gp3'', ins_resource = Some rid, ins_account = None,
     ins_severity = INFO, ins_title = title, ins_payload = []\<rparr>, ir_computed = 0, ir_ack = a\<rparr>"

definition demo_volume :: "uuid \<Rightarrow> string \<Rightarrow> resource_row" where
  "demo_volume i region = \<lparr>rr_id = i, rr_account = 1, rr_region = region, rr_type = ''AWS::EC2::Volume'', rr_native = ''vol'',
     rr_first_seen = 0, rr_last_seen = 0, rr_retired = None\<rparr>"

definition demo_db :: db where
  "demo_db = empty_db\<lparr>
     t_resources := [demo_volume 7 ''eu-west-1'', demo_volume 8 ''us-east-1''],
     t_runs := [\<lparr>sr_id = 6, sr_account = 1, sr_region = ''eu-west-1'', sr_type = ''AWS::EC2::Volume'', sr_source = ''aws_ec2'',
       sr_started = 10, sr_finished = Some 11, sr_status = Success, sr_found = Some 1, sr_error = None, sr_job = None\<rparr>],
     t_facts := map (\<lambda>f. \<lparr>fr_id = 60, fr_fact = f, fr_run = None\<rparr>) gp2_facts,
     t_insights := [old_insight 7 ''old'' (Some (''dismissed'', 5, Some ''ana'')), old_insight 8 ''old'' None]\<rparr>"

definition demo_world :: world where
  "demo_world = \<lparr>w_db = demo_db, w_saved = demo_db, w_clock = \<lambda>n. 20 + int n, w_tick = 0, w_uuids = \<lambda>n. 200 + of_nat n, w_next = 0, w_begin = 20\<rparr>"

abbreviation demo_run :: "run_result res \<times> world" where
  "demo_run \<equiv> run_resource_rule (\<lambda>s. s) (\<lambda>_. Date 2026 7 1) ''ebs_gp2_to_gp3'' None None demo_world"

lemma demo_clock: "clock_ok demo_world"
  by (auto simp: clock_ok_def demo_world_def mono_def)

lemma demo_facts: "facts_of demo_db (demo_volume 7 region) = gp2_facts"
proof -
  have r: "\<forall>f\<in>set gp2_facts. fact_resource f = Some 7" by (simp add: gp2_facts_def vol_fact_def)
  have "map (\<lambda>f. (fact_namespace f, fact_key f, - fact_observed_at f)) gp2_facts =
      [(''aws.ec2.volume'', ''region'', 0), (''aws.ec2.volume'', ''size_gb'', 0), (''aws.ec2.volume'', ''state'', 0), (''aws.ec2.volume'', ''volume_type'', 0)]"
    by (simp add: gp2_facts_def vol_fact_def)
  moreover have "sorted [(''aws.ec2.volume'', ''region'', 0 :: int), (''aws.ec2.volume'', ''size_gb'', 0), (''aws.ec2.volume'', ''state'', 0), (''aws.ec2.volume'', ''volume_type'', 0)]"
    by code_simp
  ultimately have "sorted (map (\<lambda>f. (fact_namespace f, fact_key f, - fact_observed_at f)) gp2_facts)" by simp
  then show ?thesis using r by (simp add: facts_of_def demo_db_def demo_volume_def comp_def sort_key_id_if_sorted)
qed

abbreviation gp2_rule_name :: string where
  "gp2_rule_name \<equiv> ''ebs_gp2_to_gp3''"

lemma demo_rule:
  "dict_get RESOURCE_RULES gp2_rule_name = Some ebs_gp2_to_gp3_evaluate" "get_default RULE_SOURCES gp2_rule_name DEFAULT_SOURCE = ''aws_ec2''"
  by (simp_all add: RESOURCE_RULES_def RULE_SOURCES_def get_default_def)

lemma demo_scanned: "succeeded ''aws_ec2'' (demo_volume 7 ''eu-west-1'') demo_db \<noteq> []" "succeeded ''aws_ec2'' (demo_volume 8 ''us-east-1'') demo_db = []"
  by (simp_all add: succeeded_def demo_db_def demo_volume_def in_scope_def scope_of_def)

lemma vol_account_uuid: "account_uuid (Some vol_account) = Inr (Some 1)"
  by code_simp

text \<open>What the specification allows of the two volumes: the gap of the first.\<close>

lemma demo_verdicts:
  assumes "list_all2 (allowed gp2_rule_name ebs_gp2_to_gp3_evaluate ''aws_ec2'' None None t0 demo_db) (t_resources demo_db) vs"
  obtains j t where "concat (map gap_rows vs) = [as_stored j]" and "ebs_gp2_to_gp3_evaluate 7 gp2_facts None t = Inr (found j)"
    and "ins_resource j = Some 7"
proof -
  obtain v1 v2 where v: "vs = [v1, v2]" "allowed gp2_rule_name ebs_gp2_to_gp3_evaluate ''aws_ec2'' None None t0 demo_db (demo_volume 7 ''eu-west-1'') v1"
      "allowed gp2_rule_name ebs_gp2_to_gp3_evaluate ''aws_ec2'' None None t0 demo_db (demo_volume 8 ''us-east-1'') v2"
    using assms by (auto simp: demo_db_def list_all2_Cons1)
  have i7: "rr_id (demo_volume 7 ''eu-west-1'') = 7" by (simp add: demo_volume_def)
  have "\<exists>j t. v1 = Inr ([j], []) \<and> ins_account j = Some vol_account \<and> ebs_gp2_to_gp3_evaluate 7 gp2_facts None t = Inr (found j)"
    using v(2)
  proof (cases rule: allowed.cases)
    case (judged t out)
    obtain j where "ebs_gp2_to_gp3_evaluate 7 gp2_facts None t = Inr (found j)" "ins_account j = Some vol_account" using gp2_1000_found by blast
    then show ?thesis using judged by (auto simp: demo_facts i7 is_conclusive_def)
  next
    case (raised t e)
    obtain j where "ebs_gp2_to_gp3_evaluate 7 gp2_facts None t = Inr (found j)" using gp2_1000_found by blast
    then show ?thesis using raised by (simp add: demo_facts i7)
  qed (simp_all add: outdated_def demo_facts demo_scanned gp2_facts_def)
  then obtain j t where j: "v1 = Inr ([j], [])" "ins_account j = Some vol_account" "ebs_gp2_to_gp3_evaluate 7 gp2_facts None t = Inr (found j)" by blast
  have "gap_rows v2 = []" using v(3) by (cases rule: allowed.cases) (auto simp: proven_def demo_scanned)
  moreover have "storable j" using j(2) vol_account_uuid by (simp add: storable_def)
  ultimately show thesis using that [OF _ j(3)] v(1) j(1) gp2_rule.about [OF j(3)] by simp
qed

lemma demo_run_ends: "\<exists>res w'. demo_run = (Inr res, w')"
proof -
  obtain res w' where run: "demo_run = (res, w')" by (metis surj_pair)
  obtain i vs rows urows w1 w2 es
    where saved: "w_saved w2 = (w_db demo_world)\<lparr>t_insight_runs := t_insight_runs (w_db demo_world) @ [opened gp2_rule_name i (w_begin demo_world)]\<rparr>"
    and vs: "list_all2 (allowed gp2_rule_name ebs_gp2_to_gp3_evaluate (get_default RULE_SOURCES gp2_rule_name DEFAULT_SOURCE) None None (w_clock demo_world (w_tick demo_world)) (w_db demo_world))
      (t_resources (w_db demo_world)) vs"
    and db: "w_db w2 = (w_saved w2)\<lparr>t_insights := filter (\<lambda>r. rule_of r \<noteq> gp2_rule_name) (t_insights (w_db demo_world)) @ rows,
      t_inconclusive := filter (\<lambda>r. inc_rule_of r \<noteq> gp2_rule_name) (t_inconclusive (w_db demo_world)) @ urows\<rparr>"
    and rows: "map ir_insight rows = concat (map gap_rows vs)"
    and close: "close_rule (\<lambda>s. s) gp2_rule_name (snapshot_rule (\<lambda>s. s) gp2_rule_name (w_db demo_world)) (snapshot_acks gp2_rule_name (w_db demo_world)) i (length (t_resources (w_db demo_world)))
      (tally_of zero_tally rows urows es) w2 = (res, w')"
    by (rule run_stages [OF demo_clock demo_rule(1) run])
  have d: "w_db demo_world = demo_db" by (simp add: demo_world_def)
  obtain j t where j: "concat (map gap_rows vs) = [as_stored j]" "ebs_gp2_to_gp3_evaluate 7 gp2_facts None t = Inr (found j)"
    by (rule demo_verdicts [OF vs [unfolded demo_rule(2) d]])
  have "\<exists>x. monthly_of gp2_rule_name r = Inr x" if "r \<in> set rows" for r
  proof -
    have "ins_rule j = gp2_rule_name" using gp2_rule.about [OF j(2)] by simp
    moreover obtain x where "monthly_cost_and_basis (ins_rule j) (ins_payload j) = Inr (Some x, Some ''ESTIMATED'')"
      using j(2) gp2.amount_registered unfolding storage_evaluate_defs by blast
    moreover have "ir_insight r = as_stored j" using that rows j(1) by (cases rows) auto
    ultimately show ?thesis by (simp add: monthly_of_def)
  qed
  moreover have "monthly_of gp2_rule_name (old_insight u s a) = Inr None" for u s a
    by (simp add: monthly_of_def old_insight_def monthly_cost_and_basis_def MONETARY_def pget_def get_default_def)
  moreover have "\<exists>x. monthly_of gp2_rule_name r = Inr x" if "(k, r) \<in> set (snapshot_rule (\<lambda>s. s) gp2_rule_name (w_db demo_world))" for k r
    using snapshot_rule_member [OF that] calculation(2) by (auto simp: d demo_db_def)
  moreover have w2: "t_focus (w_db w2) = []" "t_insights (w_db w2) = rows"
    by (simp_all add: db saved d) (simp_all add: demo_db_def empty_db_def old_insight_def)
  ultimately have "\<exists>res w'. close_rule (\<lambda>s. s) gp2_rule_name (snapshot_rule (\<lambda>s. s) gp2_rule_name (w_db demo_world)) (snapshot_acks gp2_rule_name (w_db demo_world)) i (length (t_resources (w_db demo_world)))
      (tally_of zero_tally rows urows es) w2 = (Inr res, w')"
    by (intro close_rule_total) (auto simp: w2)
  then show ?thesis using run close by auto
qed

lemma demo_run_found: "\<exists>res w' i. demo_run = (Inr res, w') \<and> reported gp2_rule_name (w_db w') = [i] \<and> ins_resource i = Some 7"
proof -
  obtain res w' where run: "demo_run = (Inr res, w')" using demo_run_ends by blast
  have d: "w_db demo_world = demo_db" by (simp add: demo_world_def)
  obtain evaluate k vs rows rows' es t
    where ev: "dict_get RESOURCE_RULES gp2_rule_name = Some evaluate"
    and vs: "list_all2 (allowed gp2_rule_name evaluate (get_default RULE_SOURCES gp2_rule_name DEFAULT_SOURCE) None None (w_clock demo_world (w_tick demo_world)) (w_db demo_world))
      (t_resources (w_db demo_world)) vs"
    and rows: "map ir_insight rows = concat (map gap_rows vs)" and en: "list_all2 enriched rows rows'"
    and mine: "\<forall>r\<in>set rows'. rule_of r = gp2_rule_name \<and> ir_ack r = None"
    and ins: "t_insights (w_db w') = filter (\<lambda>r. rule_of r \<noteq> gp2_rule_name) (t_insights (w_db demo_world)) @
      map (\<lambda>r. r\<lparr>ir_ack := dict_get (snapshot_acks gp2_rule_name (w_db demo_world)) (ack_snapshot_key r)\<rparr>) rows'"
    by (rule run_after [OF demo_clock run])
  have e: "evaluate = ebs_gp2_to_gp3_evaluate" using ev demo_rule(1) by simp
  obtain j t where j: "concat (map gap_rows vs) = [as_stored j]" "ins_resource j = Some 7"
    by (rule demo_verdicts [OF vs [unfolded demo_rule(2) d e]])
  obtain r r' where r: "rows = [r]" "rows' = [r']" "ir_insight r = as_stored j" "enriched r r'"
    using rows j(1) en by (cases rows) (auto simp: list_all2_Cons1)
  have mine': "\<forall>r\<in>set rows'. rule_of r = gp2_rule_name" using mine by simp
  have "reported gp2_rule_name (w_db w') = [ir_insight r']" by (simp add: reported_def filter_replaced(1) [OF mine' ins] r(2))
  then show ?thesis using run enriched_fields(4) [OF r(4)] r(3) j(2) by auto
qed

theorem resource_run_implements_spec_witness:
  "\<exists>res w' i vs. demo_run = (Inr res, w') \<and> reported gp2_rule_name (w_db w') = [i] \<and> concat (map gap_rows vs) \<noteq> [] \<and>
    list_all2 same_finding (concat (map gap_rows vs)) [i] \<and> undecided gp2_rule_name (w_db w') = concat (map unsure_rows vs)"
proof -
  obtain res w' i where run: "demo_run = (Inr res, w')" "reported gp2_rule_name (w_db w') = [i]" using demo_run_found by blast
  from resource_run_implements_spec [OF demo_clock run(1)] obtain vs where
    "list_all2 same_finding (concat (map gap_rows vs)) [i]" "undecided gp2_rule_name (w_db w') = concat (map unsure_rows vs)"
    unfolding run(2) by blast
  then show ?thesis using run by (metis list_all2_Nil list.distinct(1))
qed

theorem insights_only_for_proven_scope_witness:
  "\<exists>res w' i r run. demo_run = (Inr res, w') \<and> i \<in> set (reported gp2_rule_name (w_db w')) \<and> r \<in> set (t_resources demo_db) \<and>
    ins_resource i = Some (rr_id r) \<and> run \<in> set (t_runs demo_db) \<and> sr_status run = Success"
proof -
  obtain res w' i where run: "demo_run = (Inr res, w')" "i \<in> set (reported gp2_rule_name (w_db w'))" using demo_run_found by (metis list.set_intros(1))
  have d: "w_db demo_world = demo_db" by (simp add: demo_world_def)
  from insights_only_for_proven_scope [OF demo_clock run] show ?thesis using run unfolding d by blast
qed

theorem acks_survive_replacement_witness:
  "\<exists>res w' r'. demo_run = (Inr res, w') \<and> r' \<in> set (t_insights (w_db w')) \<and> ins_resource (ir_insight r') = Some 7 \<and> ir_ack r' \<noteq> None"
proof -
  obtain res w' i where run: "demo_run = (Inr res, w')" "reported gp2_rule_name (w_db w') = [i]" "ins_resource i = Some 7" using demo_run_found by blast
  have "i \<in> set (reported gp2_rule_name (w_db w'))" using run(2) by simp
  then obtain r' where r': "r' \<in> set (t_insights (w_db w'))" "rule_of r' = gp2_rule_name" "ir_insight r' = i"
    by (auto simp: reported_def)
  have "\<exists>r\<in>set (t_insights (w_db demo_world)). rule_of r = gp2_rule_name \<and> ins_resource (ir_insight r) = Some 7 \<and> ir_ack r \<noteq> None"
    by (simp add: demo_world_def demo_db_def old_insight_def)
  then have "ir_ack r' \<noteq> None"
    using acks_survive_replacement [OF demo_clock run(1) r'(1,2)] r'(3) run(3) by (fastforce simp: Let_def)
  then show ?thesis using run r' by blast
qed

theorem events_are_the_difference_witness:
  "\<exists>res w' new gone. demo_run = (Inr res, w') \<and> t_events (w_db w') = new @ gone \<and>
    set (map ev_fingerprint gone) = fingerprints (\<lambda>s. s) gp2_rule_name demo_db - fingerprints (\<lambda>s. s) gp2_rule_name (w_db w')"
proof -
  obtain res w' where run: "demo_run = (Inr res, w')" using demo_run_found by blast
  have d: "w_db demo_world = demo_db" "t_events demo_db = []" by (simp_all add: demo_world_def demo_db_def empty_db_def)
  from events_are_the_difference [OF demo_clock run] show ?thesis using run unfolding d by auto
qed

text \<open>An old amount beyond the float range makes the run raise when it records that the insight is gone.\<close>

definition huge_world :: world where
  "huge_world = demo_world\<lparr>w_db := empty_db\<lparr>t_insights := [\<lparr>ir_id = 90, ir_insight = \<lparr>ins_rule = ''ebs_gp2_to_gp3'', ins_resource = None,
     ins_account = None, ins_severity = INFO, ins_title = [], ins_payload = [(''savings_monthly_usd'', PInt (2 ^ 1024))]\<rparr>, ir_computed = 0, ir_ack = None\<rparr>]\<rparr>\<rparr>"

theorem failed_run_keeps_report_witness:
  "\<exists>e w'. run_resource_rule (\<lambda>s. s) (\<lambda>_. Date 2026 7 1) gp2_rule_name None None huge_world = (Inl e, w') \<and>
    t_insights (w_db (rollback w')) = t_insights (w_db huge_world)"
proof -
  let ?run = "run_resource_rule (\<lambda>s. s) (\<lambda>_. Date 2026 7 1) gp2_rule_name None None huge_world"
  have c: "clock_ok huge_world" by (auto simp: clock_ok_def huge_world_def demo_world_def mono_def)
  have r: "gp2_rule_name \<in> set (map fst RESOURCE_RULES)" by (simp add: RESOURCE_RULES_def)
  have "case fst ?run of Inl e \<Rightarrow> True | Inr _ \<Rightarrow> False"
    by code_simp
  then obtain e w' where run: "?run = (Inl e, w')" by (metis prod.collapse sum.case_eq_if sum.collapse(1))
  from failed_run_keeps_report [OF c r run] show ?thesis using run by auto
qed

end
