(* ===== verification/Worker.thy ===== *)
theory Worker
  imports RuleRuns
begin

text \<open>
  The collection worker (\<open>worker.py\<close>) and the job rows behind it (\<open>repositories/collect_jobs.py\<close>): the
  per-account limiter, the backoff, the completion of a job with the evaluation that follows it, and
  the drain of the in-process queue.

  A worker owns the queue, the limiter and the world of its database sessions. A new session sees what is
  committed; closing one drops what it did not commit. The AWS client, the digest and the time zone are
  parameters, bundled in an \<open>env\<close>.
\<close>

section \<open>Collect jobs\<close>

definition create_job :: "string \<Rightarrow> int \<Rightarrow> payload \<Rightarrow> world \<Rightarrow> collect_job \<times> world" where
  "create_job actor total_items summary w =
    (let (i, w) = fresh w;
         job = \<lparr>cj_id = i, cj_actor = actor, cj_total = total_items, cj_summary = summary, cj_enqueue_error = None, cj_evaluation = None\<rparr>
     in (job, with_jobs (\<lambda>js. js @ [job]) w))"

definition get_job :: "uuid \<Rightarrow> db \<Rightarrow> collect_job option" where
  "get_job i d = find (\<lambda>j. cj_id j = i) (t_jobs d)"

definition list_runs_for_job :: "uuid \<Rightarrow> db \<Rightarrow> source_run list" where
  "list_runs_for_job i d = sort_key sr_started (filter (\<lambda>r. sr_job r = Some i) (t_runs d))"

definition is_job_complete :: "uuid \<Rightarrow> int \<Rightarrow> db \<Rightarrow> bool" where
  "is_job_complete i total_items d =
    (let runs = list_runs_for_job i d in
     if \<exists>r\<in>set runs. sr_status r = Running then False
     else total_items \<le> int (card (set (map (\<lambda>r. (sr_account r, sr_region r)) runs))))"

record job_ops =
  jo_enqueue_error :: "string option"
  jo_evaluation :: "string option"

definition get_job_ops :: "uuid \<Rightarrow> db \<Rightarrow> job_ops option" where
  "get_job_ops i d = map_option (\<lambda>j. \<lparr>jo_enqueue_error = cj_enqueue_error j, jo_evaluation = cj_evaluation j\<rparr>) (get_job i d)"

definition mark_enqueue_failed :: "uuid \<Rightarrow> string \<Rightarrow> world \<Rightarrow> world" where
  "mark_enqueue_failed i err = with_jobs (update_where (\<lambda>j. cj_id j = i) (\<lambda>j. j\<lparr>cj_enqueue_error := Some err\<rparr>))"

text \<open>The conditional update: the count of the rows it matches decides.\<close>

definition try_claim_evaluation :: "uuid \<Rightarrow> world \<Rightarrow> bool \<times> world" where
  "try_claim_evaluation i w =
    (let free = (\<lambda>j. cj_id j = i \<and> cj_evaluation j = None) in
     (length (filter free (t_jobs (w_db w))) = 1, with_jobs (update_where free (\<lambda>j. j\<lparr>cj_evaluation := Some ''running''\<rparr>)) w))"

definition set_evaluation_status :: "uuid \<Rightarrow> string \<Rightarrow> world \<Rightarrow> unit res \<times> world" where
  "set_evaluation_status i status w =
    (if status \<notin> {''success'', ''failed''} then (Inl ValueError, w)
     else (Inr (), with_jobs (update_where (\<lambda>j. cj_id j = i) (\<lambda>j. j\<lparr>cj_evaluation := Some status\<rparr>)) w))"

section \<open>The limiter\<close>

record limiter =
  lm_max :: int
  lm_counts :: "(string, int) dict"

definition new_limiter :: "int \<Rightarrow> limiter res" where
  "new_limiter max_per_account = (if max_per_account < 1 then Inl ValueError else Inr \<lparr>lm_max = max_per_account, lm_counts = []\<rparr>)"

definition lm_in_flight :: "string \<Rightarrow> limiter \<Rightarrow> int" where
  "lm_in_flight account l = get_default (lm_counts l) account 0"

definition try_acquire :: "string \<Rightarrow> limiter \<Rightarrow> bool \<times> limiter" where
  "try_acquire account l =
    (let current = lm_in_flight account l in
     if lm_max l \<le> current then (False, l)
     else (True, l\<lparr>lm_counts := dict_set account (current + 1) (lm_counts l)\<rparr>))"

definition release :: "string \<Rightarrow> limiter \<Rightarrow> limiter" where
  "release account l =
    (let current = lm_in_flight account l in
     if current \<le> 1 then l\<lparr>lm_counts := dict_pop account (lm_counts l)\<rparr>
     else l\<lparr>lm_counts := dict_set account (current - 1) (lm_counts l)\<rparr>)"

section \<open>The evaluation of a completed job\<close>

definition NACK_BACKOFF_BASE_SECONDS :: int where
  "NACK_BACKOFF_BASE_SECONDS = 30"

definition NACK_BACKOFF_MAX_SECONDS :: int where
  "NACK_BACKOFF_MAX_SECONDS = 300"

definition BUSY_ACCOUNT_DELAY_SECONDS :: int where
  "BUSY_ACCOUNT_DELAY_SECONDS = 5"

definition backoff_seconds :: "int \<Rightarrow> int" where
  "backoff_seconds attempts = min (NACK_BACKOFF_BASE_SECONDS * max attempts 1) NACK_BACKOFF_MAX_SECONDS"

record env =
  en_sha :: "string \<Rightarrow> string"
  en_local_date :: "instant \<Rightarrow> date"
  en_sts :: "string \<Rightarrow> string \<Rightarrow> aws_session res"
  en_base :: aws_session

definition open_session :: "world \<Rightarrow> world" where
  "open_session = rollback"

definition close_session :: "world \<Rightarrow> world" where
  "close_session w = w\<lparr>w_db := w_saved w\<rparr>"

definition job_exists :: "uuid \<Rightarrow> world \<Rightarrow> bool \<times> world" where
  "job_exists i w = (let w = open_session w in (get_job i (w_db w) \<noteq> None, close_session w))"

text \<open>The rules of the registry in their alphabetical order; a rule that raises is rolled back and counts as a failure.\<close>

fun run_rules :: "env \<Rightarrow> string list \<Rightarrow> bool \<Rightarrow> world \<Rightarrow> bool \<times> world" where
  "run_rules e [] failed w = (failed, w)"
| "run_rules e (rule # rules) failed w =
    (case run_rule (en_sha e) (en_local_date e) rule None ''all-time'' None w of
       (Inl _, w) \<Rightarrow> run_rules e rules True (rollback w)
     | (Inr _, w) \<Rightarrow> run_rules e rules failed w)"

text \<open>The chain behind the last ack of a job. Its outer handler is for exceptions of the database itself.\<close>

definition maybe_run_evaluation :: "env \<Rightarrow> uuid \<Rightarrow> world \<Rightarrow> world" where
  "maybe_run_evaluation e i w =
    (let w = open_session w in
     case get_job i (w_db w) of
       None \<Rightarrow> close_session w
     | Some job \<Rightarrow>
       if \<not> is_job_complete i (cj_total job) (w_db w) then close_session w
       else (case try_claim_evaluation i w of
           (False, w) \<Rightarrow> close_session (rollback w)
         | (True, w) \<Rightarrow>
           (let (failed, w) = run_rules e (sort RUNNERS) False (commit w);
                w = snd (set_evaluation_status i (if failed then ''failed'' else ''success'') w)
            in close_session (commit w))))"

section \<open>The drain\<close>

record item_outcome =
  io_item :: work_item
  io_status :: string
  io_errors :: "string list"

definition target_of_item :: "work_item \<Rightarrow> target" where
  "target_of_item i = \<lparr>tg_account = wi_account i, tg_role_arn = wi_role_arn i, tg_external_id = wi_external_id i,
     tg_name = wi_name i, tg_regions = Some [wi_region i], tg_types = wi_types i\<rparr>"

definition process_item :: "env \<Rightarrow> received \<Rightarrow> world \<Rightarrow> item_outcome res \<times> world" where
  "process_item e r w =
    (let i = rc_item r in
     case collect_target (en_sha e) (en_sts e) (en_base e) (Some collect_db_instances)
            \<lparr>co_dry_run = wi_dry_run i, co_force = wi_force i, co_max_errors = DEFAULT_MAX_CONSECUTIVE_REGION_ERRORS,
              co_job = Some (wi_job i)\<rparr> (target_of_item i) (open_session w) of
       (Inl x, w) \<Rightarrow> (Inl x, close_session (rollback w))
     | (Inr res, w) \<Rightarrow> (Inr \<lparr>io_item = i, io_status = (if cr_errors res = [] then ''success'' else ''failed''),
          io_errors = cr_errors res\<rparr>, close_session w))"

record worker =
  k_queue :: in_process_queue
  k_limiter :: limiter
  k_world :: world
  k_clock :: "nat \<Rightarrow> seconds"
  k_tick :: nat

text \<open>The reading of the monotonic clock by the queue.\<close>

definition tick :: "worker \<Rightarrow> seconds \<times> worker" where
  "tick k = (k_clock k (k_tick k), k\<lparr>k_tick := Suc (k_tick k)\<rparr>)"

definition nack_item :: "received \<Rightarrow> int \<Rightarrow> worker \<Rightarrow> worker" where
  "nack_item r delay k = (let (t, k) = tick k in k\<lparr>k_queue := nack (rc_receipt r) (of_int delay) t (k_queue k)\<rparr>)"

text \<open>\<open>show_exn\<close> is the text \<open>type: message\<close> of an exception.\<close>

definition drain_item :: "env \<Rightarrow> (exn \<Rightarrow> string) \<Rightarrow> received \<Rightarrow> worker \<Rightarrow> item_outcome \<times> worker" where
  "drain_item e show_exn r k =
    (let i = rc_item r;
         (exists, w) = job_exists (wi_job i) (k_world k);
         k = k\<lparr>k_world := w\<rparr>
     in if \<not> exists then (\<lparr>io_item = i, io_status = ''dropped'', io_errors = []\<rparr>, k\<lparr>k_queue := ack (rc_receipt r) (k_queue k)\<rparr>)
        else (case try_acquire (wi_account i) (k_limiter k) of
            (False, l) \<Rightarrow> (\<lparr>io_item = i, io_status = ''deferred'', io_errors = []\<rparr>, nack_item r BUSY_ACCOUNT_DELAY_SECONDS (k\<lparr>k_limiter := l\<rparr>))
          | (True, l) \<Rightarrow>
            (case process_item e r (k_world k) of
               (Inl x, w) \<Rightarrow>
                 (let k = nack_item r (backoff_seconds (int (rc_attempts r))) (k\<lparr>k_limiter := l, k_world := w\<rparr>)
                  in (\<lparr>io_item = i, io_status = ''failed'', io_errors = [show_exn x]\<rparr>, k\<lparr>k_limiter := release (wi_account i) (k_limiter k)\<rparr>))
             | (Inr out, w) \<Rightarrow>
                 (let k = k\<lparr>k_limiter := l, k_world := w\<rparr>;
                      k = (if io_status out = ''success''
                         then k\<lparr>k_queue := ack (rc_receipt r) (k_queue k), k_world := maybe_run_evaluation e (wi_job i) w\<rparr>
                         else nack_item r (backoff_seconds (int (rc_attempts r))) k)
                  in (out, k\<lparr>k_limiter := release (wi_account i) (k_limiter k)\<rparr>)))))"

fun drain_items :: "env \<Rightarrow> (exn \<Rightarrow> string) \<Rightarrow> received list \<Rightarrow> worker \<Rightarrow> item_outcome list \<times> worker" where
  "drain_items e show_exn [] k = ([], k)"
| "drain_items e show_exn (r # rs) k =
    (let (out, k) = drain_item e show_exn r k; (outs, k) = drain_items e show_exn rs k in (out # outs, k))"

text \<open>A batch that is ready: the receive does not wait.\<close>

definition drain_once :: "env \<Rightarrow> (exn \<Rightarrow> string) \<Rightarrow> nat \<Rightarrow> worker \<Rightarrow> item_outcome list \<times> worker" where
  "drain_once e show_exn max_items k =
    (let (t, k) = tick k; (received, q) = poll max_items t (k_queue k) in drain_items e show_exn received (k\<lparr>k_queue := q\<rparr>))"

end
