(* ===== verification/RuleFrame.thy ===== *)
theory RuleFrame
  imports Worker
begin

text \<open>
  What a run of a rule leaves alone, as three contracts that extend each other. A \<open>session_frame\<close> is a predicate on worlds that
  the tables a rule writes do not touch: insights, inconclusive records, events, the outcome of insight runs and the audit log,
  and neither do the clock and the generator of identifiers. A \<open>tx_frame\<close> also survives a commit and a rollback, a \<open>rule_frame\<close> also the
  opening row of a run, and so the whole run of any rule, whether it ends or raises.
\<close>

lemma known_rule: "rule \<in> set RUNNERS \<Longrightarrow> rule \<noteq> ''chargeback'' \<Longrightarrow> \<exists>ev. dict_get RESOURCE_RULES rule = Some ev"
  unfolding RUNNERS_def by (cases "dict_get RESOURCE_RULES rule") (simp_all add: dict_get_of map_of_eq_None_iff)

locale session_frame =
  fixes keeps :: "world \<Rightarrow> bool"
  assumes writes: "keeps w \<Longrightarrow> keeps (with_insights f w)" "keeps w \<Longrightarrow> keeps (with_inconclusive g w)" "keeps w \<Longrightarrow> keeps (with_events h w)"
      "keeps w \<Longrightarrow> keeps (with_audit j w)" "(\<And>rs. map nu_rule (i rs) = map nu_rule rs) \<Longrightarrow> keeps w \<Longrightarrow> keeps (with_insight_runs i w)"
    and reads: "keeps w \<Longrightarrow> keeps (snd (now w))" "keeps w \<Longrightarrow> keeps (snd (fresh w))"
begin

lemma steps: "now w = (t, w') \<Longrightarrow> keeps w \<Longrightarrow> keeps w'" "fresh w = (u, w') \<Longrightarrow> keeps w \<Longrightarrow> keeps w'"
  using reads [of w] by simp_all

lemma latest: "latest_successful_run s max_age w = (r, w') \<Longrightarrow> keeps w \<Longrightarrow> keeps w'"
  by (auto simp: latest_successful_run_def Let_def intro: steps split: list.splits option.splits if_splits prod.splits)

lemma scope: "scope_inconclusive r rule source max_age w = (x, w') \<Longrightarrow> keeps w \<Longrightarrow> keeps w'"
  by (auto simp: scope_inconclusive_def is_scope_proven_def Let_def dest: latest intro: steps split: prod.splits option.splits if_splits)

lemma evaluate: "evaluate_resource local_date r rule ev facts source today max_age w = (x, w') \<Longrightarrow> keeps w \<Longrightarrow> keeps w'"
  by (auto simp: evaluate_resource_def Let_def dest: scope intro: steps split: prod.splits option.splits if_splits sum.splits)

lemma inserts: "insert_insight i w = (x, w') \<Longrightarrow> keeps w \<Longrightarrow> keeps w'" "insert_inconclusive u w = (y, w') \<Longrightarrow> keeps w \<Longrightarrow> keeps w'"
  by (auto simp: insert_insight_def insert_inconclusive_def Let_def intro!: writes intro: steps split: prod.splits if_splits sum.splits)

lemma insert_all:
  assumes "\<And>x w y w'. ins x w = (y, w') \<Longrightarrow> keeps w \<Longrightarrow> keeps w'"
  shows "insert_all ins xs n w = (res, w') \<Longrightarrow> keeps w \<Longrightarrow> keeps w'"
  by (induction xs arbitrary: n w) (auto split: prod.splits sum.splits dest: assms)

lemma all_inserted:
  "insert_all insert_insight is n w = (res, w') \<Longrightarrow> keeps w \<Longrightarrow> keeps w'"
  "insert_all insert_inconclusive us n w = (res, w') \<Longrightarrow> keeps w \<Longrightarrow> keeps w'"
  by (erule insert_all [rotated], assumption, erule (1) inserts) (erule insert_all [rotated], assumption, erule (1) inserts)

lemma resource: "run_resource local_date rule ev source today max_age facts r k w = (x, w') \<Longrightarrow> keeps w \<Longrightarrow> keeps w'"
  by (auto simp: run_resource_def dest!: evaluate all_inserted split: prod.splits sum.splits option.splits if_splits)

lemma resources: "run_resources local_date rule ev source today max_age facts rs k w = (x, w') \<Longrightarrow> keeps w \<Longrightarrow> keeps w'"
  by (induction rs arbitrary: k w) (auto dest: resource split: prod.splits sum.splits)

lemma finish: "keeps w \<Longrightarrow> keeps (finish_insight_run i st n m w)"
  by (auto simp: finish_insight_run_def Let_def update_where_def intro!: writes intro: steps split: prod.splits)

lemma deletes: "keeps w \<Longrightarrow> keeps (snd (delete_insights_for_rule rule w))" "keeps w \<Longrightarrow> keeps (clear_rule rule w)"
    "keeps w \<Longrightarrow> keeps (snd (apply_acks_to_rule rule acks w))"
  by (simp_all add: clear_rule_def delete_insights_for_rule_def delete_inconclusive_for_rule_def apply_acks_to_rule_def Let_def writes)

lemma reconcile: "reconcile_with_focus rule w = (x, w') \<Longrightarrow> keeps w \<Longrightarrow> keeps w'"
  by (auto simp: reconcile_with_focus_def intro: writes split: option.splits sum.splits)

lemma diff: "diff_and_record_events sha rule previous run w = (x, w') \<Longrightarrow> keeps w \<Longrightarrow> keeps w'"
  by (auto simp: diff_and_record_events_def Let_def intro: writes split: sum.splits prod.splits)

lemma charge_accounts: "charge_accounts plabel tag_key as k w = (x, w') \<Longrightarrow> keeps w \<Longrightarrow> keeps w'"
  by (induction as arbitrary: k w) (auto dest!: all_inserted(1) split: prod.splits sum.splits if_splits)

lemma audited: "record_event a b c d e w = (x, w') \<Longrightarrow> keeps w \<Longrightarrow> keeps w'"
  by (auto simp: record_event_def Let_def intro: writes split: sum.splits)

lemma close_rule_raises: "close_rule sha rule previous acks i n k w = (Inl e, w') \<Longrightarrow> keeps w \<Longrightarrow> keeps w'"
  by (auto simp: close_rule_def Let_def intro!: deletes dest!: reconcile diff [OF _ deletes(3)] split: sum.splits prod.splits)

lemma close_chargeback_raises: "close_chargeback sha plabel tag_key previous acks i n k w = (Inl e, w') \<Longrightarrow> keeps w \<Longrightarrow> keeps w'"
  by (auto simp: close_chargeback_def Let_def split: sum.splits prod.splits dest!: diff [OF _ deletes(3) [OF finish]] audited)

text \<open>A run that raises keeps what holds behind its opening row.\<close>

lemma raised:
  assumes "run_rule sha local_date rule today plabel tag_key w = (Inl e, w')" and "keeps w"
    and "\<And>i w1. start_insight_run rule w = (i, w1) \<Longrightarrow> keeps w1"
  shows "keeps w'"
  using assms
  by (auto simp: run_rule_def run_resource_rule_def run_chargeback_def Let_def split: option.splits sum.splits prod.splits if_splits
      dest!: close_rule_raises close_chargeback_raises resources [OF _ deletes(2)] charge_accounts [OF _ deletes(1)])

end

locale tx_frame = session_frame +
  assumes tx: "keeps w \<Longrightarrow> keeps (commit w)" "keeps w \<Longrightarrow> keeps (rollback w)"
begin

lemma close_rule: "close_rule sha rule previous acks i n k w = (x, w') \<Longrightarrow> keeps w \<Longrightarrow> keeps w'"
  by (auto simp: close_rule_def Let_def intro!: tx finish deletes dest!: reconcile diff [OF _ deletes(3)] split: sum.splits prod.splits)

lemma close_chargeback: "close_chargeback sha plabel tag_key previous acks i n k w = (x, w') \<Longrightarrow> keeps w \<Longrightarrow> keeps w'"
  by (auto simp: close_chargeback_def Let_def intro!: tx split: sum.splits prod.splits dest!: diff [OF _ deletes(3) [OF finish]] audited)

text \<open>What holds behind the opening row of a run holds at its end.\<close>

lemma opened:
  assumes "run_rule sha local_date rule today plabel tag_key w = (x, w')" and "rule \<in> set RUNNERS"
    and "\<And>i w1. start_insight_run rule w = (i, w1) \<Longrightarrow> keeps w1"
  shows "keeps w'"
proof (cases "rule = ''chargeback''")
  case True
  then show ?thesis using assms
    by (auto simp: run_rule_def run_chargeback_def Let_def split: sum.splits prod.splits dest!: close_chargeback charge_accounts [OF _ deletes(1)])
next
  case False
  then obtain ev where "dict_get RESOURCE_RULES rule = Some ev" using assms(2) known_rule by blast
  then show ?thesis using assms False
    by (auto simp: run_rule_def run_resource_rule_def Let_def split: sum.splits prod.splits dest!: close_rule resources [OF _ deletes(2)])
qed

end

locale rule_frame = tx_frame +
  assumes opens: "keeps w \<Longrightarrow> keeps (with_insight_runs (\<lambda>rs. rs @ [run]) w)"
begin

lemma start: "start_insight_run rule w = (i, w') \<Longrightarrow> keeps w \<Longrightarrow> keeps w'"
  by (auto simp: start_insight_run_def Let_def intro!: tx opens intro: steps split: prod.splits)

lemma rule: "run_rule sha local_date rule today plabel tag_key w = (x, w') \<Longrightarrow> keeps w \<Longrightarrow> keeps w'"
  using opened start by (cases "rule \<in> set RUNNERS") (blast, simp add: run_rule_def)

lemma rules: "run_rules e rules failed w = (x, w') \<Longrightarrow> keeps w \<Longrightarrow> keeps w'"
  by (induction rules arbitrary: failed w) (auto dest: rule intro: tx split: prod.splits sum.splits)

end

section \<open>The jobs\<close>

definition jobs_are :: "collect_job list \<Rightarrow> world \<Rightarrow> bool" where
  "jobs_are js w = (t_jobs (w_db w) = js \<and> t_jobs (w_saved w) = js)"

lemma jobs_are_ops [simp]:
  "jobs_are js (with_insights f w) = jobs_are js w" "jobs_are js (with_inconclusive g w) = jobs_are js w"
  "jobs_are js (with_events h w) = jobs_are js w" "jobs_are js (with_insight_runs i w) = jobs_are js w"
  "jobs_are js (with_audit j w) = jobs_are js w"
  "jobs_are js (snd (now w)) = jobs_are js w" "jobs_are js (snd (fresh w)) = jobs_are js w"
  by (simp_all add: jobs_are_def with_insights_def with_inconclusive_def with_events_def with_insight_runs_def with_audit_def now_def fresh_def)

lemma jobs_are_tx: "jobs_are js w \<Longrightarrow> jobs_are js (commit w)" "jobs_are js w \<Longrightarrow> jobs_are js (rollback w)"
  by (simp_all add: jobs_are_def commit_def rollback_def begin_tx_def now_def Let_def)

interpretation jobs: rule_frame "jobs_are js" for js
  by unfold_locales (simp_all add: jobs_are_tx)

section \<open>The inventory and the clock\<close>

text \<open>What a rule reads of the inventory.\<close>

definition inventory :: "db \<Rightarrow> resource_row list \<times> fact_row list \<times> source_run list \<times> account_row list \<times> focus_row list" where
  "inventory d = (t_resources d, t_facts d, t_runs d, t_accounts d, t_focus d)"

definition same_inventory :: "db \<Rightarrow> (nat \<Rightarrow> instant) \<Rightarrow> nat \<Rightarrow> world \<Rightarrow> bool" where
  "same_inventory d clock n w = (inventory (w_db w) = inventory d \<and> inventory (w_saved w) = inventory d \<and> w_clock w = clock \<and> n \<le> w_tick w)"

interpretation stock: rule_frame "same_inventory d clock n" for d clock n
  by unfold_locales (auto simp: same_inventory_def inventory_def with_insights_def with_inconclusive_def with_events_def with_insight_runs_def
      with_audit_def now_def fresh_def commit_def rollback_def begin_tx_def Let_def)

section \<open>The reports and the log\<close>

text \<open>The insights of the committed state: a run that raises does not reach them.\<close>

definition saved_insights :: "insight_row list \<Rightarrow> world \<Rightarrow> bool" where
  "saved_insights rows w = (t_insights (w_saved w) = rows)"

interpretation saved: session_frame "saved_insights rows" for rows
  by unfold_locales (simp_all add: saved_insights_def with_insights_def with_inconclusive_def with_events_def with_insight_runs_def
      with_audit_def now_def fresh_def)

text \<open>The rules of the log of runs, in order.\<close>

definition log_is :: "string list \<Rightarrow> world \<Rightarrow> bool" where
  "log_is rules w = (map nu_rule (t_insight_runs (w_db w)) = rules \<and> map nu_rule (t_insight_runs (w_saved w)) = rules)"

interpretation log: tx_frame "log_is rules" for rules
  by unfold_locales (auto simp: log_is_def with_insights_def with_inconclusive_def with_events_def with_insight_runs_def
      with_audit_def now_def fresh_def commit_def rollback_def begin_tx_def Let_def)

lemma start_opens:
  assumes "start_insight_run rule w = (i, w')"
  shows "saved_insights (t_insights (w_db w)) w'" and "log_is (map nu_rule (t_insight_runs (w_db w)) @ [rule]) w'"
  using assms
  by (auto simp: start_insight_run_def saved_insights_def log_is_def with_insight_runs_def fresh_def commit_def begin_tx_def now_def Let_def)

end
