(* ===== verification/WorkerRuns.thy ===== *)
theory WorkerRuns
  imports RuleFrame
begin

text \<open>
  What the worker guarantees: the limiter under any interleaving of the threads of the pool, the settlement of every
  item of a drained batch against the contract of the queue, and the single evaluation of a completed job.
\<close>

section \<open>The limiter under any interleaving\<close>

text \<open>The threads of the pool: \<open>holders\<close> are the accounts of the items in flight, with their multiplicity. Every
  operation holds the lock, so a run is a sequence of the steps.\<close>

inductive pool_step :: "limiter \<times> string multiset \<Rightarrow> limiter \<times> string multiset \<Rightarrow> bool" where
  acquired: "try_acquire a l = (True, l') \<Longrightarrow> pool_step (l, hs) (l', add_mset a hs)"
| refused: "try_acquire a l = (False, l') \<Longrightarrow> pool_step (l, hs) (l', hs)"
| released: "a \<in># hs \<Longrightarrow> pool_step (l, hs) (release a l, hs - {#a#})"

definition limiter_ok :: "limiter \<Rightarrow> string multiset \<Rightarrow> bool" where
  "limiter_ok l hs = (\<forall>a. lm_in_flight a l = int (count hs a) \<and> (dict_get (lm_counts l) a \<noteq> Some 0) \<and> int (count hs a) \<le> lm_max l)"

lemma dict_get_pop: "dict_get (dict_pop k d) k' = (if k' = k then None else dict_get d k')"
  unfolding dict_pop_def by (induction d) auto

lemma lm_in_flight_set: "lm_in_flight a (l\<lparr>lm_counts := dict_set b n (lm_counts l)\<rparr>) = (if a = b then n else lm_in_flight a l)"
  by (simp add: lm_in_flight_def get_default_def)

lemma lm_in_flight_pop: "lm_in_flight a (l\<lparr>lm_counts := dict_pop b (lm_counts l)\<rparr>) = (if a = b then 0 else lm_in_flight a l)"
  by (simp add: lm_in_flight_def get_default_def dict_get_pop)

lemma try_acquire_ok:
  assumes "limiter_ok l hs" and "try_acquire a l = (ok, l')"
  shows "limiter_ok l' (if ok then add_mset a hs else hs)" and "ok \<longleftrightarrow> int (count hs a) < lm_max l" and "lm_max l' = lm_max l"
proof -
  have f: "lm_in_flight b l = int (count hs b)" for b using assms(1) by (simp add: limiter_ok_def)
  show "ok \<longleftrightarrow> int (count hs a) < lm_max l" "lm_max l' = lm_max l"
    using assms(2) by (auto simp: try_acquire_def f Let_def split: if_splits)
  show "limiter_ok l' (if ok then add_mset a hs else hs)"
  proof (cases "lm_max l \<le> int (count hs a)")
    case True
    then show ?thesis using assms by (auto simp: try_acquire_def f Let_def)
  next
    case False
    then have "ok" "l' = l\<lparr>lm_counts := dict_set a (int (count hs a) + 1) (lm_counts l)\<rparr>" using assms(2) by (auto simp: try_acquire_def f Let_def)
    then show ?thesis using assms(1) False by (auto simp: limiter_ok_def lm_in_flight_set)
  qed
qed

lemma release_ok:
  assumes "limiter_ok l hs" and "a \<in># hs"
  shows "limiter_ok (release a l) (hs - {#a#})" and "lm_max (release a l) = lm_max l"
proof -
  have f: "lm_in_flight b l = int (count hs b)" for b using assms(1) by (simp add: limiter_ok_def)
  show "lm_max (release a l) = lm_max l" by (simp add: release_def Let_def)
  have pos: "0 < count hs a" using assms(2) by simp
  show "limiter_ok (release a l) (hs - {#a#})"
  proof (cases "count hs a \<le> 1")
    case True
    then have "release a l = l\<lparr>lm_counts := dict_pop a (lm_counts l)\<rparr>" by (simp add: release_def f)
    then show ?thesis using assms(1) True by (auto simp: limiter_ok_def lm_in_flight_pop dict_get_pop)
  next
    case False
    then have "release a l = l\<lparr>lm_counts := dict_set a (int (count hs a) - 1) (lm_counts l)\<rparr>" by (simp add: release_def f)
    moreover have le: "int (count hs a) \<le> lm_max l" using assms(1) by (simp add: limiter_ok_def)
    moreover have "int (count hs a) - 1 \<le> lm_max l" using le by linarith
    moreover have "int (count hs a - Suc 0) = int (count hs a) - 1" using pos by linarith
    ultimately have "lm_in_flight b (release a l) = int (count (hs - {#a#}) b) \<and> dict_get (lm_counts (release a l)) b \<noteq> Some 0 \<and>
        int (count (hs - {#a#}) b) \<le> lm_max (release a l)" for b
      using assms(1) False unfolding limiter_ok_def by (cases "b = a") (simp_all add: lm_in_flight_set, linarith?)
    then show ?thesis by (simp add: limiter_ok_def)
  qed
qed

lemma new_limiter_ok: "new_limiter n = Inr l \<Longrightarrow> limiter_ok l {#} \<and> lm_max l = n"
  by (auto simp: new_limiter_def limiter_ok_def lm_in_flight_def get_default_def split: if_splits)

text \<open>C34: In every state that the threads of a pool can reach by acquiring and releasing slots in any order, the limiter
  counts exactly the items in flight of every account, their number never exceeds the cap, accounts without
  an item are forgotten, and a slot is granted precisely when one is free.\<close>

theorem limiter_bounds_every_account:
  assumes "new_limiter n = Inr l0" and "pool_step\<^sup>*\<^sup>* (l0, {#}) (l, hs)"
  shows "int (count hs a) \<le> n \<and> lm_in_flight a l = int (count hs a) \<and> (a \<in># hs \<longleftrightarrow> dict_get (lm_counts l) a \<noteq> None) \<and>
    (fst (try_acquire a l) \<longleftrightarrow> int (count hs a) < n)"
proof -
  have "limiter_ok l hs \<and> lm_max l = n"
    using assms(2)
  proof (induction "(l, hs)" arbitrary: l hs rule: rtranclp_induct)
    case base
    then show ?case using new_limiter_ok [OF assms(1)] by simp
  next
    case (step y)
    obtain l1 h1 where y: "y = (l1, h1)" by (cases y)
    then have ih: "limiter_ok l1 h1" "lm_max l1 = n" using step.hyps(3) by auto
    show ?case using step.hyps(2) unfolding y
      by (cases rule: pool_step.cases) (use try_acquire_ok [OF ih(1)] release_ok [OF ih(1)] ih(2) in \<open>fastforce+\<close>)
  qed
  then have ok: "limiter_ok l hs" "lm_max l = n" by auto
  obtain granted l' where t: "try_acquire a l = (granted, l')" by (metis surj_pair)
  have "a \<in># hs \<longleftrightarrow> dict_get (lm_counts l) a \<noteq> None"
    using ok(1) by (cases "dict_get (lm_counts l) a") (auto simp: limiter_ok_def lm_in_flight_def get_default_def dest!: spec [of _ a] simp flip: count_greater_zero_iff)
  then show ?thesis using ok try_acquire_ok(2) [OF ok(1) t] t by (simp add: limiter_ok_def)
qed

theorem limiter_bounds_every_account_witness:
  "\<exists>l0 l1 l2. new_limiter 1 = Inr l0 \<and> try_acquire ''1'' l0 = (True, l1) \<and> pool_step\<^sup>*\<^sup>* (l0, {#}) (l1, {#''1''#}) \<and>
     lm_in_flight ''1'' l1 = 1 \<and> try_acquire ''1'' l1 = (False, l2)"
proof -
  let ?l0 = "\<lparr>lm_max = 1, lm_counts = []\<rparr>"
  have n: "new_limiter 1 = Inr ?l0" by (simp add: new_limiter_def)
  obtain l1 where a: "try_acquire ''1'' ?l0 = (True, l1)" by (simp add: try_acquire_def lm_in_flight_def get_default_def)
  have r: "pool_step\<^sup>*\<^sup>* (?l0, {#}) (l1, {#''1''#})" using acquired [OF a, of "{#}"] by (rule r_into_rtranclp)
  note c = limiter_bounds_every_account [OF n r, of "''1''"]
  then have f: "lm_in_flight ''1'' l1 = 1" "\<not> fst (try_acquire ''1'' l1)" by simp_all
  then have "try_acquire ''1'' l1 = (False, snd (try_acquire ''1'' l1))" by (simp add: prod_eq_iff)
  then show ?thesis using n a r f(1) by blast
qed

section \<open>The drain settles what it received\<close>

lemma backoff_bounds: "30 \<le> backoff_seconds n \<and> backoff_seconds n \<le> 300"
  by (simp add: backoff_seconds_def NACK_BACKOFF_BASE_SECONDS_def NACK_BACKOFF_MAX_SECONDS_def)

definition settled :: "string list" where
  "settled = [''success'', ''dropped'']"

text \<open>What an outcome says about the queue: acked, or nacked with the delay of its status.\<close>

definition outcome_of :: "received \<Rightarrow> (seconds \<times> seconds) option \<Rightarrow> item_outcome \<Rightarrow> bool" where
  "outcome_of r d out = (io_item out = rc_item r \<and> (case d of
     None \<Rightarrow> io_status out = ''success'' \<or> io_status out = ''dropped''
   | Some (delay, _) \<Rightarrow> (io_status out = ''deferred'' \<and> delay = 5) \<or>
       (io_status out = ''failed'' \<and> delay = of_int (backoff_seconds (int (rc_attempts r))))))"

lemma process_item_status: "process_item e r w = (Inr out, w') \<Longrightarrow> io_item out = rc_item r \<and> (io_status out = ''success'' \<or> io_status out = ''failed'')"
proof -
  obtain c w1 where c: "collect_target (en_sha e) (en_sts e) (en_base e) (Some collect_db_instances)
      \<lparr>co_dry_run = wi_dry_run (rc_item r), co_force = wi_force (rc_item r), co_max_errors = DEFAULT_MAX_CONSECUTIVE_REGION_ERRORS,
        co_job = Some (wi_job (rc_item r))\<rparr> (target_of_item (rc_item r)) (open_session w) = (c, w1)" by (metis surj_pair)
  show "process_item e r w = (Inr out, w') \<Longrightarrow> io_item out = rc_item r \<and> (io_status out = ''success'' \<or> io_status out = ''failed'')"
    by (cases c) (auto simp: process_item_def c Let_def split: if_splits)
qed

lemma drain_item_settles:
  assumes "drain_item e show_exn r k = (out, k')"
  shows "\<exists>d. k_queue k' = ipq.settle [(r, d)] (k_queue k) \<and> outcome_of r d out"
    and "limiter_ok (k_limiter k) hs \<Longrightarrow> limiter_ok (k_limiter k') hs \<and> lm_max (k_limiter k') = lm_max (k_limiter k)"
proof -
  let ?i = "rc_item r"
  obtain ex w1 where j: "job_exists (wi_job ?i) (k_world k) = (ex, w1)" by (metis surj_pair)
  obtain ok l where a: "try_acquire (wi_account ?i) (k_limiter k) = (ok, l)" by (metis surj_pair)
  obtain p w2 where p: "process_item e r w1 = (p, w2)" by (metis surj_pair)
  let ?b = "of_int (backoff_seconds (int (rc_attempts r)))"
  have cases: "io_item out = ?i \<and> ((io_status out = ''dropped'' \<and> k_queue k' = ack (rc_receipt r) (k_queue k) \<and> k_limiter k' = k_limiter k) \<or>
      (io_status out = ''deferred'' \<and> (\<exists>t. k_queue k' = nack (rc_receipt r) 5 t (k_queue k)) \<and> \<not> ok \<and> k_limiter k' = l) \<or>
      (ok \<and> k_limiter k' = release (wi_account ?i) l \<and>
        ((io_status out = ''success'' \<and> k_queue k' = ack (rc_receipt r) (k_queue k)) \<or>
         (io_status out = ''failed'' \<and> (\<exists>t. k_queue k' = nack (rc_receipt r) ?b t (k_queue k))))))"
    proof (cases ex)
      case False
      then show ?thesis using assms j by (auto simp: drain_item_def)
    next
      case True
      show ?thesis
      proof (cases ok)
        case False
        then show ?thesis using assms j a \<open>ex\<close> by (auto simp: drain_item_def nack_item_def tick_def BUSY_ACCOUNT_DELAY_SECONDS_def)
      next
        case True
        show ?thesis
        proof (cases p)
          case (Inl x)
          then show ?thesis using assms j a p \<open>ex\<close> True by (auto simp: drain_item_def nack_item_def tick_def Let_def)
        next
          case (Inr o')
          then show ?thesis using assms j a p \<open>ex\<close> True process_item_status [of e r w1 o' w2]
            by (cases "io_status o' = ''success''") (auto simp: drain_item_def nack_item_def tick_def Let_def)
        qed
      qed
    qed
  then have item: "io_item out = ?i" by simp
  have acked: "\<exists>d. ack (rc_receipt r) q = ipq.settle [(r, d)] q \<and> outcome_of r d out"
    if "io_status out = ''success'' \<or> io_status out = ''dropped''" for q
    using that item by (intro exI [of _ None]) (simp add: outcome_of_def)
  have nacked: "\<exists>d. nack (rc_receipt r) x t q = ipq.settle [(r, d)] q \<and> outcome_of r d out"
    if "io_status out = ''deferred'' \<and> x = 5 \<or> io_status out = ''failed'' \<and> x = ?b" for x t q
    using that item by (intro exI [of _ "Some (x, t)"]) (simp add: outcome_of_def)
  show "\<exists>d. k_queue k' = ipq.settle [(r, d)] (k_queue k) \<and> outcome_of r d out"
    using cases acked nacked by (elim disjE conjE exE) auto
  assume ok: "limiter_ok (k_limiter k) hs"
  note t = try_acquire_ok [OF ok a]
  have rel: "limiter_ok (release (wi_account ?i) l) hs \<and> lm_max (release (wi_account ?i) l) = lm_max l" if "ok"
    using release_ok [of l "add_mset (wi_account ?i) hs" "wi_account ?i"] t(1) that by auto
  show "limiter_ok (k_limiter k') hs \<and> lm_max (k_limiter k') = lm_max (k_limiter k)"
    using cases ok t rel by (elim disjE conjE) simp_all
qed


lemma drain_items_settle:
  assumes "drain_items e show_exn rs k = (outs, k')"
  shows "\<exists>ds. map fst ds = rs \<and> k_queue k' = ipq.settle ds (k_queue k) \<and> list_all2 (\<lambda>(r, d). outcome_of r d) ds outs"
    and "limiter_ok (k_limiter k) hs \<Longrightarrow> limiter_ok (k_limiter k') hs \<and> lm_max (k_limiter k') = lm_max (k_limiter k)"
proof -
  have "(\<exists>ds. map fst ds = rs \<and> k_queue k' = ipq.settle ds (k_queue k) \<and> list_all2 (\<lambda>(r, d). outcome_of r d) ds outs) \<and>
      (limiter_ok (k_limiter k) hs \<longrightarrow> limiter_ok (k_limiter k') hs \<and> lm_max (k_limiter k') = lm_max (k_limiter k))"
    using assms
  proof (induction rs arbitrary: k outs)
    case Nil
    then show ?case by simp
  next
    case (Cons r rs)
    obtain out k1 where o: "drain_item e show_exn r k = (out, k1)" by (metis surj_pair)
    obtain outs' where os: "drain_items e show_exn rs k1 = (outs', k')" "outs = out # outs'"
      using Cons.prems o by (auto split: prod.splits)
    note h = drain_item_settles [OF o] and t = Cons.IH [OF os(1)]
    obtain d where d: "k_queue k1 = ipq.settle [(r, d)] (k_queue k)" "outcome_of r d out" using h(1) by blast
    obtain ds where ds: "map fst ds = rs" "k_queue k' = ipq.settle ds (k_queue k1)" "list_all2 (\<lambda>(r, d). outcome_of r d) ds outs'" using t by blast
    have "ipq.settle ((r, d) # ds) (k_queue k) = ipq.settle ds (ipq.settle [(r, d)] (k_queue k))" by (cases d) auto
    then show ?case using d ds os(2) h(2) t by (intro conjI impI exI [of _ "(r, d) # ds"]) auto
  qed
  then show "\<exists>ds. map fst ds = rs \<and> k_queue k' = ipq.settle ds (k_queue k) \<and> list_all2 (\<lambda>(r, d). outcome_of r d) ds outs"
    "limiter_ok (k_limiter k) hs \<Longrightarrow> limiter_ok (k_limiter k') hs \<and> lm_max (k_limiter k') = lm_max (k_limiter k)" by auto
qed

text \<open>The items whose outcome is final.\<close>

definition finished_items :: "item_outcome list \<Rightarrow> work_item multiset" where
  "finished_items outs = mset (map io_item (filter (\<lambda>x. io_status x = ''success'' \<or> io_status x = ''dropped'') outs))"

lemma acked_finished:
  "list_all2 (\<lambda>(r, d). outcome_of r d) ds outs \<Longrightarrow> ipq.acked_of ds = finished_items outs"
proof (induction rule: list_all2_induct)
  case Nil
  then show ?case by (simp add: ipq.acked_of_def finished_items_def)
next
  case (Cons x ds out outs)
  then show ?case
    by (cases x; cases "snd x") (auto simp: ipq.acked_of_def finished_items_def outcome_of_def split: option.splits)
qed

lemma list_all2_member:
  assumes "list_all2 P xs ys" and "x \<in> set xs"
  shows "\<exists>y. P x y"
  using assms by (auto simp: list_all2_conv_all_nth in_set_conv_nth)


section \<open>A step leaves the jobs alone\<close>

lemma jobs_are_now: "now w = (t, w') \<Longrightarrow> jobs_are js w' = jobs_are js w"
  by (metis jobs_are_ops(6) snd_conv)

lemma jobs_are_fresh: "fresh w = (u, w') \<Longrightarrow> jobs_are js w' = jobs_are js w"
  by (metis jobs_are_ops(7) snd_conv)

section \<open>The evaluation of a job runs once\<close>

lemma update_where_jobs_id: "map cj_id (update_where p (\<lambda>j. j\<lparr>cj_evaluation := x\<rparr>) js) = map cj_id js"
  by (induction js) (simp_all add: update_where_def)

lemma find_distinct_filter:
  assumes "distinct (map f xs)" and "find (\<lambda>x. f x = k) xs = Some y"
  shows "filter (\<lambda>x. f x = k) xs = [y]"
  using assms
proof (induction xs)
  case (Cons x xs)
  show ?case
  proof (cases "f x = k")
    case True
    then have "\<forall>z\<in>set xs. f z \<noteq> k" using Cons.prems(1) by (metis distinct.simps(2) image_eqI list.set_map list.simps(9) True)
    then show ?thesis using True Cons.prems(2) by (simp add: filter_empty_conv)
  qed (use Cons in simp)
qed simp

lemma claim_evaluation:
  assumes "get_job i (w_db w) = Some job" and "distinct (map cj_id (t_jobs (w_db w)))" and "try_claim_evaluation i w = (won, w')"
  shows "won \<longleftrightarrow> cj_evaluation job = None" and "w_saved w' = w_saved w"
    and "won \<Longrightarrow> t_jobs (w_db w') = update_where (\<lambda>j. cj_id j = i) (\<lambda>j. j\<lparr>cj_evaluation := Some ''running''\<rparr>) (t_jobs (w_db w))"
proof -
  have one: "filter (\<lambda>j. cj_id j = i) (t_jobs (w_db w)) = [job]"
    using find_distinct_filter [OF assms(2)] assms(1) by (simp add: get_job_def)
  have "filter (\<lambda>j. cj_id j = i \<and> cj_evaluation j = None) (t_jobs (w_db w)) = filter (\<lambda>j. cj_evaluation j = None) (filter (\<lambda>j. cj_id j = i) (t_jobs (w_db w)))"
    by (simp add: conj_commute)
  also have "\<dots> = (if cj_evaluation job = None then [job] else [])" unfolding one by simp
  finally have f: "filter (\<lambda>j. cj_id j = i \<and> cj_evaluation j = None) (t_jobs (w_db w)) = (if cj_evaluation job = None then [job] else [])" .
  show w: "won \<longleftrightarrow> cj_evaluation job = None" "w_saved w' = w_saved w"
    using assms(3) f by (auto simp: try_claim_evaluation_def with_jobs_def Let_def split: if_splits)
  assume won
  have "cj_evaluation j = None" if "j \<in> set (t_jobs (w_db w))" "cj_id j = i" for j
  proof -
    have "j \<in> set (filter (\<lambda>j. cj_id j = i) (t_jobs (w_db w)))" using that by simp
    then show ?thesis using one w(1) \<open>won\<close> by simp
  qed
  then show "t_jobs (w_db w') = update_where (\<lambda>j. cj_id j = i) (\<lambda>j. j\<lparr>cj_evaluation := Some ''running''\<rparr>) (t_jobs (w_db w))"
    using assms(3) by (auto simp: try_claim_evaluation_def with_jobs_def Let_def update_where_def)
qed

lemma open_close_simps [simp]:
  "w_db (open_session w) = w_saved w" "w_saved (open_session w) = w_saved w" "w_saved (close_session w) = w_saved w" "w_db (close_session w) = w_saved w"
  "w_saved (rollback w) = w_saved w" "w_saved (commit w) = w_db w" "w_db (commit w) = w_db w"
  by (simp_all add: open_session_def close_session_def rollback_def commit_def begin_tx_def now_def Let_def)

lemma maybe_run_facts:
  assumes "get_job i (w_saved w) = Some job" and "distinct (map cj_id (t_jobs (w_saved w)))"
  shows "\<not> is_job_complete i (cj_total job) (w_saved w) \<or> cj_evaluation job \<noteq> None \<Longrightarrow> w_saved (maybe_run_evaluation e i w) = w_saved w"
    and "is_job_complete i (cj_total job) (w_saved w) \<Longrightarrow> cj_evaluation job = None \<Longrightarrow>
      \<exists>s\<in>{''success'', ''failed''}. t_jobs (w_saved (maybe_run_evaluation e i w)) =
        update_where (\<lambda>j. cj_id j = i) (\<lambda>j. j\<lparr>cj_evaluation := Some s\<rparr>) (t_jobs (w_saved w))"
proof -
  obtain won w1 where c: "try_claim_evaluation i (open_session w) = (won, w1)" by (metis surj_pair)
  note f = claim_evaluation [of i "open_session w", simplified, OF assms c]
  show "w_saved (maybe_run_evaluation e i w) = w_saved w" if "\<not> is_job_complete i (cj_total job) (w_saved w) \<or> cj_evaluation job \<noteq> None"
    using that assms(1) c f(1,2) by (cases won) (auto simp: maybe_run_evaluation_def Let_def)
  assume run: "is_job_complete i (cj_total job) (w_saved w)" "cj_evaluation job = None"
  then have won: "won" using f(1) by simp
  obtain failed w2 where r: "run_rules e (sort RUNNERS) False (commit w1) = (failed, w2)" by (metis surj_pair)
  let ?s = "if failed then ''failed'' else ''success''"
  have "jobs_are (t_jobs (w_db w1)) (commit w1)" by (simp add: jobs_are_def)
  then have "t_jobs (w_db w2) = update_where (\<lambda>j. cj_id j = i) (\<lambda>j. j\<lparr>cj_evaluation := Some ''running''\<rparr>) (t_jobs (w_saved w))"
    using jobs.rules [OF r] f(3) [OF won] by (simp add: jobs_are_def)
  moreover have "w_saved (maybe_run_evaluation e i w) = w_db (snd (set_evaluation_status i ?s w2))"
    using assms(1) run won c r by (simp add: maybe_run_evaluation_def Let_def)
  ultimately have "t_jobs (w_saved (maybe_run_evaluation e i w)) = update_where (\<lambda>j. cj_id j = i) (\<lambda>j. j\<lparr>cj_evaluation := Some ?s\<rparr>) (t_jobs (w_saved w))"
    by (auto simp: set_evaluation_status_def with_jobs_def update_where_def)
  then show "\<exists>s\<in>{''success'', ''failed''}. t_jobs (w_saved (maybe_run_evaluation e i w)) =
        update_where (\<lambda>j. cj_id j = i) (\<lambda>j. j\<lparr>cj_evaluation := Some s\<rparr>) (t_jobs (w_saved w))" by (intro bexI [of _ ?s]) auto
qed

lemma get_job_updated:
  "get_job i d = Some job \<Longrightarrow> t_jobs d' = update_where (\<lambda>j. cj_id j = i) (\<lambda>j. j\<lparr>cj_evaluation := x\<rparr>) (t_jobs d) \<Longrightarrow>
    get_job i d' = Some (job\<lparr>cj_evaluation := x\<rparr>)"
proof -
  have "find (\<lambda>j. cj_id j = i) js = Some job \<Longrightarrow>
      find (\<lambda>j. cj_id j = i) (update_where (\<lambda>j. cj_id j = i) (\<lambda>j. j\<lparr>cj_evaluation := x\<rparr>) js) = Some (job\<lparr>cj_evaluation := x\<rparr>)" for js
    by (induction js) (auto simp: update_where_def)
  then show "get_job i d = Some job \<Longrightarrow> t_jobs d' = update_where (\<lambda>j. cj_id j = i) (\<lambda>j. j\<lparr>cj_evaluation := x\<rparr>) (t_jobs d) \<Longrightarrow> ?thesis"
    by (simp add: get_job_def)
qed

text \<open>C16: The rules of a job are evaluated at most once: the chain behind an ack does nothing to the store when the job is incomplete
  or its evaluation was ever claimed; otherwise it ends with the job marked success or failed, every other job
  as it was, whatever the rules do; and a second call changes nothing more.\<close>

theorem evaluation_runs_once:
  assumes "get_job i (w_saved w) = Some job" and "distinct (map cj_id (t_jobs (w_saved w)))" and "w' = maybe_run_evaluation e i w"
  shows "(if is_job_complete i (cj_total job) (w_saved w) \<and> cj_evaluation job = None
      then \<exists>s\<in>{''success'', ''failed''}. t_jobs (w_saved w') =
        update_where (\<lambda>j. cj_id j = i) (\<lambda>j. j\<lparr>cj_evaluation := Some s\<rparr>) (t_jobs (w_saved w))
      else w_saved w' = w_saved w) \<and>
    w_saved (maybe_run_evaluation e i w') = w_saved w'"
proof (cases "is_job_complete i (cj_total job) (w_saved w) \<and> cj_evaluation job = None")
  case True
  then obtain s where s: "s \<in> {''success'', ''failed''}" "t_jobs (w_saved w') = update_where (\<lambda>j. cj_id j = i) (\<lambda>j. j\<lparr>cj_evaluation := Some s\<rparr>) (t_jobs (w_saved w))"
    using maybe_run_facts(2) [OF assms(1,2), of e] assms(3) by auto
  note j = get_job_updated [OF assms(1) s(2)]
  have "distinct (map cj_id (t_jobs (w_saved w')))" using assms(2) by (simp add: s(2) update_where_jobs_id)
  then have "w_saved (maybe_run_evaluation e i w') = w_saved w'" by (intro maybe_run_facts(1) [OF j]) simp_all
  then show ?thesis using True s by auto
next
  case False
  then have "w_saved w' = w_saved w" using maybe_run_facts(1) [OF assms(1,2)] assms(3) by auto
  moreover have "w_saved (maybe_run_evaluation e i w') = w_saved w'"
    using False maybe_run_facts(1) [of i w' job e] assms(1,2) unfolding \<open>w_saved w' = w_saved w\<close> by auto
  ultimately show ?thesis using False by auto
qed


section \<open>A small pool\<close>

definition plain_item :: "uuid \<Rightarrow> string option \<Rightarrow> work_item" where
  "plain_item job role = \<lparr>wi_job = job, wi_account = ''1'', wi_region = ''eu-west-1'', wi_role_arn = role, wi_external_id = None, wi_name = None,
     wi_types = None, wi_force = False, wi_dry_run = False\<rparr>"

definition plain_job :: "uuid \<Rightarrow> int \<Rightarrow> collect_job" where
  "plain_job i n = \<lparr>cj_id = i, cj_actor = [], cj_total = n, cj_summary = [], cj_enqueue_error = None, cj_evaluation = None\<rparr>"

definition pool_db :: db where
  "pool_db = empty_db\<lparr>t_jobs := [plain_job 4 0]\<rparr>"

definition pool_world :: world where
  "pool_world = \<lparr>w_db = pool_db, w_saved = pool_db, w_clock = \<lambda>n. 20 + int n, w_tick = 0, w_uuids = \<lambda>n. 7, w_next = 0, w_begin = 20\<rparr>"

text \<open>Two ready items: the job of the first is gone, the role of the second cannot be assumed.\<close>

definition pool_worker :: worker where
  "pool_worker = \<lparr>k_queue = (new_queue 10)\<lparr>q_ready := [(''a'', plain_item 5 None, 0), (''b'', plain_item 4 (Some ''arn''), 0)]\<rparr>,
     k_limiter = \<lparr>lm_max = 1, lm_counts = []\<rparr>, k_world = pool_world, k_clock = \<lambda>n. 0, k_tick = 0\<rparr>"

definition denied_env :: env where
  "denied_env = \<lparr>en_sha = \<lambda>s. s, en_local_date = \<lambda>_. Date 2026 7 1, en_sts = \<lambda>_ _. Inl (ClientError ''AccessDenied'' ''no''), en_base = denied_aws\<rparr>"


theorem evaluation_runs_once_witness:
  "\<exists>w' s. w' = maybe_run_evaluation denied_env 4 pool_world \<and> t_jobs (w_saved w') = [(plain_job 4 0)\<lparr>cj_evaluation := Some s\<rparr>] \<and>
     w_saved (maybe_run_evaluation denied_env 4 w') = w_saved w'"
proof -
  have "get_job 4 (w_saved pool_world) = Some (plain_job 4 0)" "distinct (map cj_id (t_jobs (w_saved pool_world)))"
    "is_job_complete 4 (cj_total (plain_job 4 0)) (w_saved pool_world)" "cj_evaluation (plain_job 4 0) = None"
    "t_jobs (w_saved pool_world) = [plain_job 4 0]" "cj_id (plain_job 4 0) = 4"
    by (simp_all add: get_job_def is_job_complete_def list_runs_for_job_def pool_world_def pool_db_def empty_db_def plain_job_def)
  then show ?thesis using evaluation_runs_once [of 4 pool_world "plain_job 4 0" _ denied_env, OF _ _ refl] by (auto simp: update_where_def)
qed

text \<open>A region the scan is denied: the item fails and is retried; nothing evaluates the job.\<close>

definition last_worker :: worker where
  "last_worker = pool_worker\<lparr>k_queue := (new_queue 10)\<lparr>q_ready := [(''b'', (plain_item 4 None)\<lparr>wi_types := Some [''ec2_volume'']\<rparr>, 0)]\<rparr>,
     k_world := pool_world\<lparr>w_db := empty_db\<lparr>t_jobs := [plain_job 4 1]\<rparr>, w_saved := empty_db\<lparr>t_jobs := [plain_job 4 1]\<rparr>\<rparr>\<rparr>"

section \<open>A failed item evaluates nothing\<close>

lemma jobs_are_more_ops [simp]:
  "jobs_are js (with_runs a w) = jobs_are js w" "jobs_are js (with_resources b w) = jobs_are js w" "jobs_are js (with_facts c w) = jobs_are js w"
  "jobs_are js (with_observations d w) = jobs_are js w" "jobs_are js (with_accounts f w) = jobs_are js w" "jobs_are js (with_pii g w) = jobs_are js w"
  by (simp_all add: jobs_are_def with_runs_def with_resources_def with_facts_def with_observations_def with_accounts_def with_pii_def)

lemma jobs_are_upsert_loop: "upsert_loop run fs rows pending n w = (x, w') \<Longrightarrow> jobs_are js w \<Longrightarrow> jobs_are js w'"
  by (induction run fs rows pending n w rule: upsert_loop.induct) (auto simp: Let_def jobs_are_fresh split: list.splits prod.splits)

lemma jobs_are_upsert_facts: "upsert_facts fs run w = (x, w') \<Longrightarrow> jobs_are js w \<Longrightarrow> jobs_are js w'"
  by (auto simp: upsert_facts_def dest: jobs_are_upsert_loop split: prod.splits sum.splits if_splits)

lemma jobs_are_upsert_resource: "upsert_resource account region rtype native w = (x, w') \<Longrightarrow> jobs_are js w \<Longrightarrow> jobs_are js w'"
  by (auto simp: upsert_resource_def Let_def jobs_are_now jobs_are_fresh split: prod.splits option.splits)

lemma jobs_are_observation: "jobs_are js w \<Longrightarrow> jobs_are js (insert_observation obs run w)"
  by (auto simp: insert_observation_def jobs_are_fresh split: prod.splits)

lemma jobs_are_scan_item: "scan_item j a g run dry raw p w = (x, w') \<Longrightarrow> jobs_are js w \<Longrightarrow> jobs_are js w'"
  by (auto simp: scan_item_def store_observation_def store_facts_def Let_def jobs_are_now dest!: jobs_are_upsert_resource jobs_are_upsert_facts
      intro: jobs_are_observation split: sum.splits prod.splits option.splits if_splits)

lemma jobs_are_scan_items: "scan_items j a g run dry raws e p w = (x, w') \<Longrightarrow> jobs_are js w \<Longrightarrow> jobs_are js w'"
  by (induction raws arbitrary: p w) (auto dest: jobs_are_scan_item split: prod.splits option.splits)

lemma jobs_are_start_run: "start_run s force job w = (x, w') \<Longrightarrow> jobs_are js w \<Longrightarrow> jobs_are js w'"
  by (auto simp: start_run_def abort_active_run_def Let_def jobs_are_now jobs_are_fresh intro!: jobs_are_tx split: prod.splits if_splits)

lemma jobs_are_close_run: "close_run s run dry p ended w = (x, w') \<Longrightarrow> jobs_are js w \<Longrightarrow> jobs_are js w'"
  by (auto simp: close_run_def finish_run_def retire_stale_resources_def Let_def jobs_are_now split: prod.splits if_splits option.splits)

lemma jobs_are_region_job: "run_region_job j g a aws dry force job w = (x, w') \<Longrightarrow> jobs_are js w \<Longrightarrow> jobs_are js w'"
  by (auto simp: run_region_job_def Let_def dest!: jobs_are_start_run jobs_are_scan_items jobs_are_close_run split: prod.splits option.splits)

lemma jobs_are_region_jobs: "region_jobs g a aws dry force job jobs st w = (x, w') \<Longrightarrow> jobs_are js w \<Longrightarrow> jobs_are js w'"
proof (induction jobs arbitrary: st w)
  case (Cons j jobs)
  obtain c items bad where st: "st = (c, items, bad)" by (cases st) auto
  obtain r w1 where r: "run_region_job j g a aws dry force job w = (r, w1)" by (metis surj_pair)
  have "jobs_are js w1" by (rule jobs_are_region_job [OF r Cons.prems(2)])
  then show ?case using Cons.prems(1) Cons.IH r st by (auto simp: Let_def split: sum.splits option.splits)
qed simp

lemma jobs_are_correlate: "correlate a dry items c w = (x, w') \<Longrightarrow> jobs_are js w \<Longrightarrow> jobs_are js w'"
  by (auto simp: correlate_def Let_def jobs_are_now dest!: jobs_are_upsert_facts split: prod.splits sum.splits list.splits if_splits)

lemma jobs_are_regions: "collect_regions a aws dry force job jobs m regions c w = (x, w') \<Longrightarrow> jobs_are js w \<Longrightarrow> jobs_are js w'"
proof (induction regions arbitrary: c w)
  case (Cons g regions)
  obtain r w1 where r: "region_jobs g a aws dry force job jobs (c, [], False) w = (r, w1)" by (metis surj_pair)
  have w1: "jobs_are js w1" by (rule jobs_are_region_jobs [OF r Cons.prems(2)])
  show ?case
  proof (cases "int (cl_consecutive c) \<ge> m")
    case False
    show ?thesis
    proof (cases r)
      case (Inr t)
      obtain c1 items bad where t: "t = (c1, items, bad)" by (cases t) auto
      obtain k w2 where k: "correlate a dry items c1 w1 = (k, w2)" by (metis surj_pair)
      have "jobs_are js w2" by (rule jobs_are_correlate [OF k w1])
      then show ?thesis using Cons.prems(1) Cons.IH False r Inr t k by (cases k) auto
    qed (use Cons.prems(1) False r w1 in simp)
  qed (use Cons in simp)
qed simp

lemma jobs_are_pii: "jobs_are js w \<Longrightarrow> jobs_are js (snd (pii_record sha a b c d e w))"
  by (auto simp: pii_record_def classify_def Let_def split: option.splits)

lemma jobs_are_seal: "seal_scan sha t d w = (x, w') \<Longrightarrow> jobs_are js w \<Longrightarrow> jobs_are js w'"
  by (auto simp: seal_scan_def Let_def intro!: jobs_are_tx dest!: jobs.audited [where js = js] intro: jobs_are_pii split: prod.splits sum.splits option.splits if_splits)

lemma jobs_are_get_or_create: "get_or_create external name w = (x, w') \<Longrightarrow> jobs_are js w \<Longrightarrow> jobs_are js w'"
  by (auto simp: get_or_create_def Let_def jobs_are_fresh split: prod.splits option.splits)

lemma jobs_are_collect: "collect_target sha sts base override opts t w = (x, w') \<Longrightarrow> jobs_are js w \<Longrightarrow> jobs_are js w'"
  by (auto simp: collect_target_def Let_def dest!: jobs_are_get_or_create jobs_are_regions jobs_are_seal split: prod.splits sum.splits if_splits)

lemma jobs_are_process: "process_item e r w = (x, w') \<Longrightarrow> t_jobs (w_saved w') = t_jobs (w_saved w)"
proof -
  assume p: "process_item e r w = (x, w')"
  have "jobs_are (t_jobs (w_saved w)) (open_session w)" by (simp add: jobs_are_def)
  then show "t_jobs (w_saved w') = t_jobs (w_saved w)"
    using p by (auto simp: process_item_def Let_def jobs_are_def dest!: jobs_are_collect [where js = "t_jobs (w_saved w)"] split: prod.splits sum.splits)
qed

text \<open>C35: Only a success evaluates: an item that fails, is deferred or dropped leaves every job row as it was. So a job
  whose last region keeps failing is complete, because a failed run counts as done, and never evaluated.\<close>

theorem only_success_evaluates:
  assumes "drain_item e show_exn r k = (out, k')" and "io_status out \<noteq> ''success''"
  shows "t_jobs (w_saved (k_world k')) = t_jobs (w_saved (k_world k))"
proof -
  let ?i = "rc_item r"
  obtain ex w1 where j: "job_exists (wi_job ?i) (k_world k) = (ex, w1)" by (metis surj_pair)
  have w1: "w_saved w1 = w_saved (k_world k)" using j by (auto simp: job_exists_def Let_def)
  obtain ok l where a: "try_acquire (wi_account ?i) (k_limiter k) = (ok, l)" by (metis surj_pair)
  obtain p w2 where p: "process_item e r w1 = (p, w2)" by (metis surj_pair)
  have w2: "t_jobs (w_saved w2) = t_jobs (w_saved (k_world k))" using jobs_are_process [OF p] w1 by simp
  show ?thesis
  proof (cases "ex \<and> ok")
    case False
    then show ?thesis using assms(1) j a w1 by (cases ex) (auto simp: drain_item_def nack_item_def tick_def)
  next
    case True
    then show ?thesis
      using assms j a p w2 by (cases p) (auto simp: drain_item_def nack_item_def tick_def Let_def split: if_splits)
  qed
qed

theorem only_success_evaluates_witness:
  "\<exists>out k'. drain_item denied_env (\<lambda>_. ''no'') (deliver (hd (q_ready (k_queue last_worker)))) last_worker = (out, k') \<and> io_status out = ''failed'' \<and>
     is_job_complete 4 1 (w_saved (k_world k')) \<and> map cj_evaluation (t_jobs (w_saved (k_world k'))) = [None]"
proof -
  let ?d = "drain_item denied_env (\<lambda>_. ''no'') (deliver (hd (q_ready (k_queue last_worker)))) last_worker"
  obtain out k' where d: "?d = (out, k')" by (metis surj_pair)
  have "io_status (fst ?d) = ''failed'' \<and> is_job_complete 4 1 (w_saved (k_world (snd ?d)))" by code_simp
  then have s: "io_status out = ''failed''" "is_job_complete 4 1 (w_saved (k_world k'))" using d by simp_all
  have "map cj_evaluation (t_jobs (w_saved (k_world last_worker))) = [None]" by (simp add: last_worker_def plain_job_def)
  then show ?thesis using only_success_evaluates [OF d] s d by auto
qed

end
