(* ===== verification/CollectApi.thy ===== *)
theory CollectApi
  imports Access WorkerRuns
begin

text \<open>
  The HTTP side of collection: the persisted scan targets with their CSV import
  (\<open>repositories/collect_targets.py\<close>, \<open>routers/collect_targets.py\<close>), the cache of idempotent answers
  (\<open>idempotency.py\<close>), and the endpoint that turns targets into a job row and work items
  (\<open>routers/aws.py\<close>).

  The queue behind \<open>get_queue()\<close> is the argument \<open>qsend\<close> on a queue of type \<open>'q\<close>: \<open>in_process_send\<close> here, \<open>sqs_send\<close> of a
  client in the other mode. The text of an exception, \<open>type: message\<close>, is the argument \<open>show_exn\<close>.
\<close>

section \<open>Persisted targets\<close>

definition get_target :: "string \<Rightarrow> db \<Rightarrow> target_row option" where
  "get_target account d = find (\<lambda>r. tr_account r = account) (t_targets d)"

definition upsert_target ::
    "string \<Rightarrow> string \<Rightarrow> string \<Rightarrow> string option \<Rightarrow> string list option \<Rightarrow> string list option \<Rightarrow> world \<Rightarrow> (target_row \<times> bool) \<times> world" where
  "upsert_target account role ext name regions types w =
    (case get_target account (w_db w) of
       Some r \<Rightarrow>
         (let (t, w) = now w;
              f = (\<lambda>x. x\<lparr>tr_role := role, tr_external := ext, tr_name := name, tr_regions := regions, tr_types := types, tr_updated := t\<rparr>)
          in ((f r, False), with_targets (update_where (\<lambda>x. tr_account x = account) f) w))
     | None \<Rightarrow>
         (let row = \<lparr>tr_account = account, tr_role = role, tr_external = ext, tr_name = name, tr_regions = regions, tr_types = types,
                tr_created = w_begin w, tr_updated = w_begin w\<rparr>
          in ((row, True), with_targets (\<lambda>rs. rs @ [row]) w)))"

definition list_targets :: "db \<Rightarrow> target_row list" where
  "list_targets d = sort_key tr_account (t_targets d)"

definition delete_target :: "string \<Rightarrow> world \<Rightarrow> bool \<times> world" where
  "delete_target account w =
    (if get_target account (w_db w) = None then (False, w)
     else (True, with_targets (filter (\<lambda>r. tr_account r \<noteq> account)) w))"

section \<open>The CSV import\<close>

text \<open>\<open>^\d{12}$\<close> on text without blanks around it; digits outside ASCII, which \<open>\d\<close> also matches, are not characters of the model.\<close>

definition is_account_id :: "string \<Rightarrow> bool" where
  "is_account_id s = (length s = 12 \<and> list_all is_digit s)"

definition REQUIRED_CSV_COLUMNS :: "string list" where
  "REQUIRED_CSV_COLUMNS = [''aws_account_id'', ''role_arn'', ''external_id'']"

record clean_row =
  cw_account :: string
  cw_role :: string
  cw_external :: string
  cw_name :: "string option"
  cw_regions :: "string list option"

definition sorted_texts :: "string list \<Rightarrow> string list" where
  "sorted_texts xs = sort (remdups xs)"

definition texts_repr :: "string list \<Rightarrow> string" where
  "texts_repr xs = py_repr (PList (map PStr xs))"

text \<open>A row is rejected with a reason or cleaned.\<close>

definition validate_row :: "csv_row \<Rightarrow> string + clean_row" where
  "validate_row row =
    (let account = row_strip row ''aws_account_id'';
         role = row_strip row ''role_arn'';
         ext = row_strip row ''external_id'';
         name = row_strip row ''name'';
         cell = row_strip row ''regions'';
         regions = filter (\<lambda>r. r \<noteq> []) (map str_strip (split_on CHR '';'' cell));
         unknown = filter (\<lambda>r. r \<notin> set DEFAULT_REGIONS) (sorted_texts regions)
     in if \<not> is_account_id account then Inl ''aws_account_id must be 12 digits''
        else if role = [] then Inl ''role_arn is required''
        else if ext = [] then Inl ''external_id is required when role_arn is set (F-06)''
        else if cell \<noteq> [] \<and> unknown \<noteq> []
          then Inl (''unknown region(s) '' @ texts_repr unknown @ '' (known: '' @ texts_repr (sorted_texts DEFAULT_REGIONS) @ '')'')
        else Inr \<lparr>cw_account = account, cw_role = role, cw_external = ext, cw_name = (if name = [] then None else Some name),
          cw_regions = (if cell = [] then None else Some regions)\<rparr>)"

record import_result =
  im_imported :: nat
  im_updated :: nat
  im_rejected :: "(nat \<times> string) list"

fun import_rows :: "(nat \<times> csv_row) list \<Rightarrow> import_result \<Rightarrow> world \<Rightarrow> import_result \<times> world" where
  "import_rows [] m w = (m, w)"
| "import_rows ((line, row) # rows) m w =
    (case validate_row row of
       Inl reason \<Rightarrow> import_rows rows (m\<lparr>im_rejected := im_rejected m @ [(line, reason)]\<rparr>) w
     | Inr c \<Rightarrow>
       (let ((r, created), w) = upsert_target (cw_account c) (cw_role c) (cw_external c) (cw_name c) (cw_regions c) None w in
        import_rows rows (if created then m\<lparr>im_imported := Suc (im_imported m)\<rparr> else m\<lparr>im_updated := Suc (im_updated m)\<rparr>) w))"

text \<open>The CSV text of the body, by its content type; a JSON body that does not parse raises.\<close>

definition import_text :: "string \<Rightarrow> string \<Rightarrow> string http" where
  "import_text content_type body =
    (if is_prefix_of ''application/json'' content_type then
       hbind (lift (json_loads body)) (\<lambda>v. case v of
           PDict d \<Rightarrow> (case dict_get d ''csv'' of Some (PStr s) \<Rightarrow> Inr s | _ \<Rightarrow> Inl (HTTPException 422))
         | _ \<Rightarrow> Inl (HTTPException 422))
     else if is_prefix_of ''text/csv'' content_type \<or> is_prefix_of ''text/plain'' content_type then Inr body
     else Inl (HTTPException 415))"

text \<open>\<open>read_csv\<close> is \<open>csv.DictReader\<close>: the header, and the rows with their line numbers.\<close>

definition import_targets ::
    "(string \<Rightarrow> string list option \<times> (nat \<times> csv_row) list) \<Rightarrow> principal \<Rightarrow> string \<Rightarrow> string \<Rightarrow> world \<Rightarrow> import_result http \<times> world" where
  "import_targets read_csv p content_type body w =
    (case import_text content_type body of
       Inl x \<Rightarrow> (Inl x, w)
     | Inr text \<Rightarrow>
       (case read_csv text of
          (None, rows) \<Rightarrow> (Inl (HTTPException 422), w)
        | (Some names, rows) \<Rightarrow>
          if \<not> set REQUIRED_CSV_COLUMNS \<subseteq> set names then (Inl (HTTPException 422), w)
          else let (m, w) = import_rows rows \<lparr>im_imported = 0, im_updated = 0, im_rejected = []\<rparr> w;
              (e, w) = record_event ''collect_targets_imported'' (Some (audit_actor p)) (Some ''collect_targets'') None
                [(''imported'', PInt (int (im_imported m))), (''updated'', PInt (int (im_updated m))),
                 (''rejected'', PInt (int (length (im_rejected m))))] w
            in (case e of Inl x \<Rightarrow> (Inl (Raised x), w) | Inr _ \<Rightarrow> (Inr m, commit w))))"

definition delete_target_endpoint :: "principal \<Rightarrow> string \<Rightarrow> world \<Rightarrow> string http \<times> world" where
  "delete_target_endpoint p account w =
    (case delete_target account w of
       (False, w) \<Rightarrow> (Inl (HTTPException 404), w)
     | (True, w) \<Rightarrow>
       (case record_event ''collect_target_deleted'' (Some (audit_actor p)) (Some ''collect_targets'') (Some account) [(''deleted'', PInt 1)] w of
          (Inl x, w) \<Rightarrow> (Inl (Raised x), w)
        | (Inr _, w) \<Rightarrow> (Inr account, commit w)))"

text \<open>The read view: the external id is not part of it.\<close>

record target_out =
  to_account :: string
  to_role :: string
  to_name :: "string option"
  to_regions :: "string list option"
  to_types :: "string list option"
  to_external_set :: bool
  to_created :: instant
  to_updated :: instant

definition list_targets_endpoint :: "bool \<Rightarrow> principal \<Rightarrow> db \<Rightarrow> world \<Rightarrow> target_out list \<times> world" where
  "list_targets_endpoint broken p d aw =
    (let rows = list_targets d in
     (map (\<lambda>t. \<lparr>to_account = tr_account t, to_role = tr_role t, to_name = tr_name t, to_regions = tr_regions t,
        to_types = tr_types t, to_external_set = True, to_created = tr_created t, to_updated = tr_updated t\<rparr>) rows,
      record_read broken (audit_actor p) ''collect_targets'' ''/collect/targets'' [] (int (length rows)) aw))"

section \<open>Idempotent answers\<close>

text \<open>The cache keeps its entries in the order of their insertion. Its clock is the wall clock of the world.\<close>

record cache =
  ca_ttl :: int
  ca_max :: int
  ca_store :: "(string, instant \<times> string) dict"

definition DEFAULT_TTL :: int where
  "DEFAULT_TTL = 5 * 60 * 1000000"

definition MAX_ENTRIES :: int where
  "MAX_ENTRIES = 1024"

definition new_cache :: cache where
  "new_cache = \<lparr>ca_ttl = DEFAULT_TTL, ca_max = MAX_ENTRIES, ca_store = []\<rparr>"

definition cache_get :: "string \<Rightarrow> cache \<Rightarrow> world \<Rightarrow> string option \<times> cache \<times> world" where
  "cache_get key c w =
    (case dict_get (ca_store c) key of
       None \<Rightarrow> (None, c, w)
     | Some (ts, body) \<Rightarrow>
       (let (t, w) = now w in
        if t - ts > ca_ttl c then (None, c\<lparr>ca_store := dict_pop key (ca_store c)\<rparr>, w) else (Some body, c, w)))"

text \<open>The loop that evicts the oldest entry: with a capacity below one it ends on an empty cache with \<open>StopIteration\<close>, the exception
  that \<open>next\<close> raises.\<close>

fun evict :: "int \<Rightarrow> ('k, 'v) dict \<Rightarrow> ('k, 'v) dict res" where
  "evict n [] = (if n \<le> 0 then Inl (RuntimeError ''StopIteration'') else Inr [])"
| "evict n (e # d) = (if n \<le> int (length (e # d)) then evict n d else Inr (e # d))"

definition cache_put :: "string \<Rightarrow> string \<Rightarrow> cache \<Rightarrow> world \<Rightarrow> cache res \<times> world" where
  "cache_put key body c w =
    (let (t, w) = now w in
     (rmap (\<lambda>d. c\<lparr>ca_store := dict_set key (t, body) d\<rparr>) (evict (ca_max c) (filter (\<lambda>(k, ts, b). \<not> t - ts > ca_ttl c) (ca_store c))), w))"

definition cache_clear :: "cache \<Rightarrow> cache" where
  "cache_clear c = c\<lparr>ca_store := []\<rparr>"

definition make_cache_key :: "string \<Rightarrow> string \<Rightarrow> string" where
  "make_cache_key sc key = sc @ '':'' @ key"

definition get_cached_or_none :: "string \<Rightarrow> string \<Rightarrow> cache \<Rightarrow> world \<Rightarrow> pyval option \<times> cache \<times> world" where
  "get_cached_or_none sc key c w =
    (case cache_get (make_cache_key sc key) c w of
       (None, c, w) \<Rightarrow> (None, c, w)
     | (Some body, c, w) \<Rightarrow> (case json_loads body of Inl _ \<Rightarrow> (None, c, w) | Inr v \<Rightarrow> (Some v, c, w)))"

text \<open>\<open>default=str\<close> is not reached by the answers that are cached.\<close>

definition cache_response :: "string \<Rightarrow> string \<Rightarrow> payload \<Rightarrow> cache \<Rightarrow> world \<Rightarrow> cache res \<times> world" where
  "cache_response sc key response c w =
    (case json_dumps (PDict response) of
       Inl x \<Rightarrow> (Inl x, w)
     | Inr body \<Rightarrow> cache_put (make_cache_key sc key) body c w)"

section \<open>A collect job\<close>

definition RETRY_AFTER_SECONDS :: int where
  "RETRY_AFTER_SECONDS = 10"

definition text_given :: "string option \<Rightarrow> bool" where
  "text_given s = (s \<noteq> None \<and> s \<noteq> Some [])"

text \<open>The validator of \<open>TargetIn\<close>.\<close>

definition target_in :: "target \<Rightarrow> target res" where
  "target_in t = (if text_given (tg_role_arn t) \<and> \<not> text_given (tg_external_id t) then Inl ValueError else Inr t)"

definition given :: "'a list option \<Rightarrow> 'a list option" where
  "given xs = (case xs of Some [] \<Rightarrow> None | _ \<Rightarrow> xs)"

definition persisted_targets :: "db \<Rightarrow> target list res" where
  "persisted_targets d = mapM (\<lambda>t. target_in \<lparr>tg_account = tr_account t, tg_role_arn = Some (tr_role t), tg_external_id = Some (tr_external t),
     tg_name = tr_name t, tg_regions = given (tr_regions t), tg_types = given (tr_types t)\<rparr>) (list_targets d)"

definition types_of :: "target \<Rightarrow> string list" where
  "types_of t = (case given (tg_types t) of None \<Rightarrow> dict_keys JOB_REGISTRY | Some ts \<Rightarrow> ts)"

definition validate_resource_types :: "target list \<Rightarrow> unit res" where
  "validate_resource_types ts = (if \<forall>t\<in>set ts. set (types_of t) \<subseteq> set (dict_keys JOB_REGISTRY) then Inr () else Inl ValueError)"

definition job_summary :: "target list \<Rightarrow> payload" where
  "job_summary ts = [(''accounts'', PInt (int (length (remdups (map tg_account ts))))),
     (''regions'', PInt (int (length (concat (map regions_of ts))))),
     (''resource_types'', PList (map PStr (sorted_texts (concat (map types_of ts)))))]"

definition items_of :: "uuid \<Rightarrow> bool \<Rightarrow> bool \<Rightarrow> target list \<Rightarrow> work_item list" where
  "items_of job force dry_run ts = concat (map (\<lambda>t. map (\<lambda>region.
     \<lparr>wi_job = job, wi_account = tg_account t, wi_region = region, wi_role_arn = tg_role_arn t, wi_external_id = tg_external_id t,
      wi_name = tg_name t, wi_types = given (tg_types t), wi_force = force, wi_dry_run = dry_run\<rparr>) (regions_of t)) ts)"

datatype enqueued = Enqueued uuid nat | EnqueueError uuid exn

text \<open>The job row is committed before the send.\<close>

definition create_and_enqueue_collect_job ::
    "(work_item list \<Rightarrow> 'q \<Rightarrow> unit res \<times> 'q) \<Rightarrow> (exn \<Rightarrow> string) \<Rightarrow> string \<Rightarrow> target list \<Rightarrow> bool \<Rightarrow> bool \<Rightarrow> world \<Rightarrow> 'q \<Rightarrow> enqueued \<times> world \<times> 'q" where
  "create_and_enqueue_collect_job qsend show_exn actor targets force dry_run w q =
    (let (job, w) = create_job actor (int (length (concat (map regions_of targets)))) (job_summary targets) w;
         items = items_of (cj_id job) force dry_run targets;
         w = commit w
     in case qsend items q of
          (Inl x, q) \<Rightarrow> (EnqueueError (cj_id job) x, commit (mark_enqueue_failed (cj_id job) (show_exn x) w), q)
        | (Inr _, q) \<Rightarrow> (Enqueued (cj_id job) (length items), w, q))"

definition enqueue_all_persisted_targets ::
    "(work_item list \<Rightarrow> 'q \<Rightarrow> unit res \<times> 'q) \<Rightarrow> (exn \<Rightarrow> string) \<Rightarrow> string \<Rightarrow> world \<Rightarrow> 'q \<Rightarrow> enqueued res \<times> world \<times> 'q" where
  "enqueue_all_persisted_targets qsend show_exn actor w q =
    (case rbind (persisted_targets (w_db w)) (\<lambda>ts. if ts = [] then Inl ValueError else rmap (\<lambda>_. ts) (validate_resource_types ts)) of
       Inl x \<Rightarrow> (Inl x, w, q)
     | Inr ts \<Rightarrow> (let (r, w, q) = create_and_enqueue_collect_job qsend show_exn actor ts False False w q in (Inr r, w, q)))"

text \<open>The send of the in-process queue draws a random receipt for every item.\<close>

definition in_process_send :: "(nat \<Rightarrow> receipt) \<Rightarrow> work_item list \<Rightarrow> in_process_queue \<Rightarrow> unit res \<times> in_process_queue" where
  "in_process_send draws items q =
    (case send (map (\<lambda>(n, i). (draws n, i)) (enumerate 0 items)) q of Inl x \<Rightarrow> (Inl x, q) | Inr q' \<Rightarrow> (Inr (), q'))"

section \<open>The endpoint\<close>

record collect_request =
  rq_targets :: "target list option"
  rq_dry_run :: bool
  rq_force :: bool

record accepted =
  ap_job :: uuid
  ap_items :: nat

definition accepted_dump :: "accepted \<Rightarrow> payload" where
  "accepted_dump a = [(''job_id'', PStr (uuid_str (ap_job a))), (''items_enqueued'', PInt (int (ap_items a)))]"

definition accepted_validate :: "pyval \<Rightarrow> accepted res" where
  "accepted_validate v = (case v of
     PDict d \<Rightarrow> (case (dict_get d ''job_id'', dict_get d ''items_enqueued'') of
         (Some (PStr s), Some (PInt n)) \<Rightarrow> rmap (\<lambda>u. \<lparr>ap_job = u, ap_items = nat n\<rparr>) (uuid_of_str s)
       | _ \<Rightarrow> Inl ValueError)
   | _ \<Rightarrow> Inl ValueError)"

record 'q api =
  a_cache :: cache
  a_world :: world
  a_queue :: 'q

text \<open>The targets of the body were validated when it was read; a 503 carries the header \<open>Retry-After\<close>.\<close>

definition requested_targets :: "collect_request \<Rightarrow> db \<Rightarrow> target list http" where
  "requested_targets body d =
    hbind (case given (rq_targets body) of Some ts \<Rightarrow> Inr ts | None \<Rightarrow> lift (persisted_targets d)) (\<lambda>ts.
    if ts = [] then Inl (HTTPException 422)
    else (case validate_resource_types ts of Inl _ \<Rightarrow> Inl (HTTPException 422) | Inr _ \<Rightarrow> Inr ts))"

definition run_collect ::
    "(work_item list \<Rightarrow> 'q \<Rightarrow> unit res \<times> 'q) \<Rightarrow> (exn \<Rightarrow> string) \<Rightarrow> principal \<Rightarrow> string option \<Rightarrow> collect_request \<Rightarrow> 'q api \<Rightarrow> accepted http \<times> 'q api" where
  "run_collect qsend show_exn p key body a =
    (case requested_targets body (w_db (a_world a)) of
       Inl x \<Rightarrow> (Inl x, a)
     | Inr ts \<Rightarrow>
       (case create_and_enqueue_collect_job qsend show_exn (pr_name p) ts (rq_force body) (rq_dry_run body) (a_world a) (a_queue a) of
          (EnqueueError i x, w, q) \<Rightarrow> (Inl (HTTPException 503), a\<lparr>a_world := w, a_queue := q\<rparr>)
        | (Enqueued i n, w, q) \<Rightarrow>
          (let response = \<lparr>ap_job = i, ap_items = n\<rparr> in
           if text_given key then
             (case cache_response ''collect_aws'' (the key) (accepted_dump response) (a_cache a) w of
                (Inl x, w) \<Rightarrow> (Inl (Raised x), a\<lparr>a_world := w, a_queue := q\<rparr>)
              | (Inr c, w) \<Rightarrow> (Inr response, a\<lparr>a_cache := c, a_world := w, a_queue := q\<rparr>))
           else (Inr response, a\<lparr>a_world := w, a_queue := q\<rparr>))))"

definition trigger_aws_collect ::
    "(work_item list \<Rightarrow> 'q \<Rightarrow> unit res \<times> 'q) \<Rightarrow> (exn \<Rightarrow> string) \<Rightarrow> principal \<Rightarrow> string option \<Rightarrow> collect_request \<Rightarrow> 'q api \<Rightarrow> accepted http \<times> 'q api" where
  "trigger_aws_collect qsend show_exn p key body a =
    (if text_given key then
       (case get_cached_or_none ''collect_aws'' (the key) (a_cache a) (a_world a) of
          (Some v, c, w) \<Rightarrow> (lift (accepted_validate v), a\<lparr>a_cache := c, a_world := w\<rparr>)
        | (None, c, w) \<Rightarrow> run_collect qsend show_exn p key body (a\<lparr>a_cache := c, a_world := w\<rparr>))
     else run_collect qsend show_exn p key body a)"

section \<open>The progress of a job\<close>

record job_status =
  js_job :: collect_job
  js_total :: int
  js_started :: nat
  js_pending :: int
  js_by_status :: "(run_status, nat) dict"
  js_runs :: "source_run list"
  js_enqueue_error :: "string option"
  js_evaluation :: "string option"

definition count_statuses :: "source_run list \<Rightarrow> (run_status, nat) dict" where
  "count_statuses rs = foldl (\<lambda>d r. dict_set (sr_status r) (get_default d (sr_status r) 0 + 1) d) [] rs"

definition get_collect_job :: "uuid \<Rightarrow> db \<Rightarrow> job_status http" where
  "get_collect_job i d =
    (case get_job i d of
       None \<Rightarrow> Inl (HTTPException 404)
     | Some job \<Rightarrow>
       (let runs = list_runs_for_job i d;
            started = card (set (map (\<lambda>r. (sr_account r, sr_region r)) runs));
            ops = get_job_ops i d
        in Inr \<lparr>js_job = job, js_total = cj_total job, js_started = started, js_pending = max (cj_total job - int started) 0,
             js_by_status = count_statuses runs, js_runs = runs,
             js_enqueue_error = Option.bind ops jo_enqueue_error, js_evaluation = Option.bind ops jo_evaluation\<rparr>))"

definition trigger_cleanup_stuck_runs :: "(instant \<Rightarrow> string) \<Rightarrow> int \<Rightarrow> world \<Rightarrow> nat \<times> world" where
  "trigger_cleanup_stuck_runs show_at threshold w = cleanup_stuck_runs show_at threshold w"

section \<open>From a request to the queue\<close>

lemma items_of_length: "length (items_of job force dry_run ts) = length (concat (map regions_of ts))"
  by (simp add: items_of_def length_concat comp_def)

lemma items_of_member: "i \<in> set (items_of job force dry_run ts) \<Longrightarrow> wi_job i = job \<and> (\<exists>t\<in>set ts. wi_account i = tg_account t \<and> wi_region i \<in> set (regions_of t))"
  by (auto simp: items_of_def)

lemma regions_of_not_Nil: "regions_of t \<noteq> []"
  by (auto simp: regions_of_def DEFAULT_REGIONS_def split: option.splits list.splits)

lemma in_process_send_facts:
  assumes "in_process_send draws items q = (r, q')" and "items \<noteq> []"
  shows "if q_maxsize q < pending_count q + length items then r = Inl (RuntimeError ''QueueFullError'') \<and> q' = q
    else r = Inr () \<and> q' = q\<lparr>q_ready := q_ready q @ map (\<lambda>(n, i). (draws n, i, 0)) (enumerate 0 items)\<rparr>"
  using assms by (auto simp: in_process_send_def send_def enumerate_eq_zip comp_def case_prod_unfold split: if_splits)

lemma cache_response_ok:
  assumes "0 < ca_max c"
  shows "\<exists>c' t. cache_response sc key (accepted_dump a) c w = (Inr c', w\<lparr>w_tick := Suc (w_tick w)\<rparr>) \<and>
    ca_ttl c' = ca_ttl c \<and> ca_max c' = ca_max c \<and> json_dumps (PDict (accepted_dump a)) = Inr t \<and>
    dict_get (ca_store c') (make_cache_key sc key) = Some (w_clock w (w_tick w), t)"
proof -
  obtain t where t: "json_dumps (PDict (accepted_dump a)) = Inr t"
    by (simp add: accepted_dump_def)
  have "\<exists>d'. evict (ca_max c) d = Inr d'" for d :: "(string, instant \<times> string) dict"
    using assms by (induction "ca_max c" d rule: evict.induct) auto
  then obtain d where d: "evict (ca_max c) (filter (\<lambda>(k, ts, b). \<not> ca_ttl c < w_clock w (w_tick w) - ts) (ca_store c)) = Inr d" by blast
  show ?thesis
    by (intro exI [of _ "c\<lparr>ca_store := dict_set (make_cache_key sc key) (w_clock w (w_tick w), t) d\<rparr>"] exI [of _ t])
      (simp add: cache_response_def cache_put_def now_def Let_def t d del: json_dumps.simps)
qed

lemma accepted_roundtrip:
  assumes "json_dumps (PDict (accepted_dump a)) = Inr t" and "ap_items a < 10 ^ 9"
  shows "rbind (json_loads t) accepted_validate = Inr a"
proof -
  have "list_all (list_all (\<lambda>c. (of_char c :: nat) < 128)) [''job_id'', ''items_enqueued'']" by simp
  then have "dumpable (PDict (accepted_dump a))"
    using length_str_of_nat [of "ap_items a" 8] assms(2) by (simp add: accepted_dump_def utf8_uuid ascii_text)
  from json_loads_dumps [OF this assms(1)] show ?thesis by (simp add: accepted_validate_def accepted_dump_def uuid_of_uuid_str)
qed

text \<open>The end of a request that is not a replay.\<close>

lemma run_collect_facts:
  assumes run: "run_collect (in_process_send draws) show_exn p key body a = (r, a')"
    and ts: "requested_targets body (w_db (a_world a)) = Inr ts" and "0 < ca_max (a_cache a)"
    and fresh: "w_uuids (a_world a) (w_next (a_world a)) \<notin> cj_id ` set (t_jobs (w_db (a_world a)))"
  defines "i \<equiv> w_uuids (a_world a) (w_next (a_world a))"
  defines "items \<equiv> items_of i (rq_force body) (rq_dry_run body) ts"
  defines "full \<equiv> q_maxsize (a_queue a) < pending_count (a_queue a) + length items"
  shows "r = (if full then Inl (HTTPException 503) else Inr \<lparr>ap_job = i, ap_items = length items\<rparr>) \<and>
    t_jobs (w_saved (a_world a')) = t_jobs (w_db (a_world a)) @ [\<lparr>cj_id = i, cj_actor = pr_name p, cj_total = int (length items), cj_summary = job_summary ts,
      cj_enqueue_error = (if full then Some (show_exn (RuntimeError ''QueueFullError'')) else None), cj_evaluation = None\<rparr>] \<and>
    a_queue a' = (if full then a_queue a else (a_queue a)\<lparr>q_ready := q_ready (a_queue a) @ map (\<lambda>(n, i). (draws n, i, 0)) (enumerate 0 items)\<rparr>)"
proof -
  have ne: "items \<noteq> []"
    using ts regions_of_not_Nil unfolding items_def items_of_def requested_targets_def
    by (auto elim!: hbind_Inr split: if_splits sum.splits)
  have len: "length (concat (map regions_of ts)) = length items" by (simp add: items_def items_of_length)
  obtain x q where q: "in_process_send draws items (a_queue a) = (x, q)" by (metis surj_pair)
  note qf = in_process_send_facts [OF q ne, folded full_def]
  have other: "map (\<lambda>x. if cj_id x = i then f x else x) (t_jobs (w_db (a_world a))) = t_jobs (w_db (a_world a))" for f
    using fresh by (intro map_idI) (force simp: i_def)
  obtain r0 w' where c: "create_and_enqueue_collect_job (in_process_send draws) show_exn (pr_name p) ts (rq_force body) (rq_dry_run body) (a_world a) (a_queue a) = (r0, w', q)"
    and r0: "r0 = (if full then EnqueueError i (RuntimeError ''QueueFullError'') else Enqueued i (length items))"
    and w': "t_jobs (w_saved w') = t_jobs (w_db (a_world a)) @ [\<lparr>cj_id = i, cj_actor = pr_name p, cj_total = int (length items), cj_summary = job_summary ts,
      cj_enqueue_error = (if full then Some (show_exn (RuntimeError ''QueueFullError'')) else None), cj_evaluation = None\<rparr>]"
    using fresh q qf unfolding create_and_enqueue_collect_job_def len
    by (auto simp: create_job_def fresh_def Let_def with_jobs_def commit_def begin_tx_def now_def mark_enqueue_failed_def update_where_def
      i_def [symmetric] items_def [symmetric] other split: if_splits)
  show ?thesis
  proof (cases "full \<or> \<not> text_given key")
    case True
    then show ?thesis using run c r0 w' qf by (auto simp: run_collect_def ts split: if_splits)
  next
    case False
    obtain ca t where "cache_response ''collect_aws'' (the key) (accepted_dump \<lparr>ap_job = i, ap_items = length items\<rparr>) (a_cache a) w' = (Inr ca, w'\<lparr>w_tick := Suc (w_tick w')\<rparr>)"
      using cache_response_ok [OF assms(3)] by blast
    then show ?thesis using False run c r0 w' qf by (auto simp: run_collect_def ts)
  qed
qed


text \<open>C21: A retry with the same key is answered with the job of the first request, as long as the entry has not expired: nothing is enqueued
  and no row is written. The body, and also the caller, of the retry are ignored: the cache does not know tenants.\<close>

theorem replay_returns_the_same_job:
  assumes run: "run_collect qsend show_exn p key body a = (Inr resp, a1)" and key: "text_given key" and cap: "0 < ca_max (a_cache a)"
    and small: "ap_items resp < 10 ^ 9"
    and soon: "w_clock (a_world a1) (w_tick (a_world a1)) - w_clock (a_world a1) (w_tick (a_world a1) - 1) \<le> ca_ttl (a_cache a)"
  shows "trigger_aws_collect qsend' show_exn' p' key body' a1 =
    (Inr resp, a1\<lparr>a_world := (a_world a1)\<lparr>w_tick := Suc (w_tick (a_world a1))\<rparr>\<rparr>)"
proof -
  obtain ts where ts: "requested_targets body (w_db (a_world a)) = Inr ts" using run by (auto simp: run_collect_def split: sum.splits)
  obtain e w q where c: "create_and_enqueue_collect_job qsend show_exn (pr_name p) ts (rq_force body) (rq_dry_run body) (a_world a) (a_queue a) = (e, w, q)"
    by (metis surj_pair)
  obtain i n where e: "e = Enqueued i n" using run c ts by (cases e) (auto simp: run_collect_def)
  obtain ca t where ca: "cache_response ''collect_aws'' (the key) (accepted_dump \<lparr>ap_job = i, ap_items = n\<rparr>) (a_cache a) w = (Inr ca, w\<lparr>w_tick := Suc (w_tick w)\<rparr>)"
      "ca_ttl ca = ca_ttl (a_cache a)" "json_dumps (PDict (accepted_dump \<lparr>ap_job = i, ap_items = n\<rparr>)) = Inr t"
      "dict_get (ca_store ca) (make_cache_key ''collect_aws'' (the key)) = Some (w_clock w (w_tick w), t)"
    using cache_response_ok [OF cap] by blast
  have a1: "resp = \<lparr>ap_job = i, ap_items = n\<rparr>" "a1 = a\<lparr>a_cache := ca, a_world := w\<lparr>w_tick := Suc (w_tick w)\<rparr>, a_queue := q\<rparr>"
    using run c ts e key ca(1) by (auto simp: run_collect_def)
  have v: "rbind (json_loads t) accepted_validate = Inr resp" using accepted_roundtrip ca(3) small by (simp add: a1(1))
  then obtain v where v: "json_loads t = Inr v" "accepted_validate v = Inr resp" by (auto simp: rbind_Inr_iff)
  have "get_cached_or_none ''collect_aws'' (the key) ca (a_world a1) = (Some v, ca, (a_world a1)\<lparr>w_tick := Suc (w_tick (a_world a1))\<rparr>)"
    using soon ca(2,4) v(1) by (simp add: get_cached_or_none_def cache_get_def now_def a1(2))
  then show ?thesis using key v(2) by (simp add: trigger_aws_collect_def a1(2) lift_def)
qed

text \<open>C38: The progress of a job counts scopes while its total counts items. When a request names the same account and region twice, its
  job is never complete, so that its rules are never evaluated: whatever its runs, each is about the scope of one of its items.\<close>

theorem duplicate_scopes_never_evaluated:
  assumes job: "get_job j (w_saved w) = Some job" "distinct (map cj_id (t_jobs (w_saved w)))"
    and total: "cj_total job = int (length (items_of j force dry_run ts))"
    and runs: "\<forall>r\<in>set (t_runs (w_saved w)). sr_job r = Some j \<longrightarrow>
      (\<exists>i\<in>set (items_of j force dry_run ts). sr_account r = account_id (wi_account i) \<and> sr_region r = wi_region i)"
    and twice: "\<not> distinct (concat (map (\<lambda>t. map (Pair (tg_account t)) (regions_of t)) ts))"
  shows "\<not> is_job_complete j (cj_total job) (w_saved w) \<and> w_saved (maybe_run_evaluation e j w) = w_saved w"
proof -
  let ?items = "items_of j force dry_run ts" and ?runs = "list_runs_for_job j (w_saved w)"
  let ?scopes = "map (\<lambda>i. (wi_account i, wi_region i)) ?items"
  have s: "?scopes = concat (map (\<lambda>t. map (Pair (tg_account t)) (regions_of t)) ts)"
    by (simp add: items_of_def map_concat comp_def)
  have "card (set ?scopes) \<noteq> length ?scopes" using twice card_distinct unfolding s by blast
  then have less: "card (set ?scopes) < length ?items" using card_length [of ?scopes] by simp
  have "(\<lambda>r. (sr_account r, sr_region r)) ` set ?runs \<subseteq> (\<lambda>(x, g). (account_id x, g)) ` set ?scopes"
    using runs by (fastforce simp: list_runs_for_job_def)
  then have "card ((\<lambda>r. (sr_account r, sr_region r)) ` set ?runs) \<le> card (set ?scopes)"
    by (meson List.finite_set card_image_le card_mono finite_imageI le_trans)
  then have n: "\<not> is_job_complete j (cj_total job) (w_saved w)" using less by (simp add: is_job_complete_def Let_def total)
  then show ?thesis using maybe_run_facts(1) [OF job] by blast
qed

section \<open>From a CSV to a request\<close>

text \<open>The rows of the table as the import leaves them.\<close>

definition target_row_ok :: "target_row \<Rightarrow> bool" where
  "target_row_ok r = (is_account_id (tr_account r) \<and> tr_role r \<noteq> [] \<and> tr_external r \<noteq> [] \<and> tr_types r = None \<and>
     pred_option (list_all (\<lambda>g. g \<in> set DEFAULT_REGIONS)) (tr_regions r))"

definition targets_ok :: "db \<Rightarrow> bool" where
  "targets_ok d = (distinct (map tr_account (t_targets d)) \<and> list_all target_row_ok (t_targets d))"

lemma validate_row_ok:
  assumes "validate_row row = Inr c"
  shows "is_account_id (cw_account c) \<and> cw_role c \<noteq> [] \<and> cw_external c \<noteq> [] \<and> pred_option (list_all (\<lambda>g. g \<in> set DEFAULT_REGIONS)) (cw_regions c)"
  using assms by (auto simp: validate_row_def Let_def sorted_texts_def list_all_iff filter_empty_conv split: if_splits)

lemma upsert_target_ok:
  assumes ok: "targets_ok (w_db w)" and c: "validate_row row = Inr c"
    and u: "upsert_target (cw_account c) (cw_role c) (cw_external c) (cw_name c) (cw_regions c) None w = ((r, created), w')"
  shows "targets_ok (w_db w') \<and> length (t_targets (w_db w')) = length (t_targets (w_db w)) + (if created then 1 else 0)"
proof (cases "get_target (cw_account c) (w_db w)")
  case None
  then have "cw_account c \<notin> tr_account ` set (t_targets (w_db w))" by (force simp: get_target_def find_None_iff)
  moreover have "t_targets (w_db w') = t_targets (w_db w) @ [r]" "created" "tr_account r = cw_account c" "target_row_ok r"
    using u None validate_row_ok [OF c] by (auto simp: upsert_target_def with_targets_def target_row_ok_def Let_def)
  ultimately show ?thesis using ok by (auto simp: targets_ok_def)
next
  case (Some x)
  let ?f = "\<lambda>y. y\<lparr>tr_role := cw_role c, tr_external := cw_external c, tr_name := cw_name c, tr_regions := cw_regions c, tr_types := None,
    tr_updated := fst (now w)\<rparr>"
  have d: "t_targets (w_db w') = update_where (\<lambda>y. tr_account y = cw_account c) ?f (t_targets (w_db w))" "\<not> created"
    using u Some by (auto simp: upsert_target_def with_targets_def now_def Let_def)
  have acc: "map tr_account (t_targets (w_db w')) = map tr_account (t_targets (w_db w))"
    unfolding d by (rule map_update_where) simp
  have "list_all target_row_ok (t_targets (w_db w'))"
    using ok validate_row_ok [OF c] by (auto simp: d targets_ok_def list_all_iff set_update_where target_row_ok_def)
  then show ?thesis using ok d(2) acc map_eq_imp_length_eq [OF acc] by (simp add: targets_ok_def)
qed

lemma import_rows_ok:
  assumes "targets_ok (w_db w)" and "import_rows rows m w = (m', w')"
  shows "targets_ok (w_db w') \<and> im_imported m' + im_updated m' + length (im_rejected m') =
      im_imported m + im_updated m + length (im_rejected m) + length rows \<and>
    length (t_targets (w_db w')) + im_imported m = length (t_targets (w_db w)) + im_imported m'"
  using assms
proof (induction rows m w rule: import_rows.induct)
  case (2 line row rows m w)
  show ?case
  proof (cases "validate_row row")
    case (Inl reason)
    then show ?thesis using "2.IH"(1) [OF Inl] "2.prems" by simp
  next
    case (Inr c)
    obtain r created w1 where u: "upsert_target (cw_account c) (cw_role c) (cw_external c) (cw_name c) (cw_regions c) None w = ((r, created), w1)"
      by (metis surj_pair)
    note ok = upsert_target_ok [OF "2.prems"(1) Inr u]
    show ?thesis using "2.IH"(2) [OF Inr u [symmetric] refl] "2.prems"(2) ok Inr u by (cases created) fastforce+
  qed
qed simp

text \<open>C20: The import keeps the table well formed: one row per account, with an account of 12 digits, a role, an external id and known regions only.
  Every line of the file is imported, updated or rejected; the table grows by the imported ones. So a request without targets
  afterwards finds every stored target acceptable, in the order of the accounts.\<close>

theorem import_keeps_targets_collectable:
  assumes "targets_ok (w_db w)" and "import_targets read_csv p content_type body w = (Inr m, w')"
  shows "targets_ok (w_saved w') \<and> (\<exists>csv names rows. import_text content_type body = Inr csv \<and> read_csv csv = (Some names, rows) \<and>
      im_imported m + im_updated m + length (im_rejected m) = length rows) \<and>
    length (t_targets (w_saved w')) = length (t_targets (w_db w)) + im_imported m \<and>
    (t_targets (w_saved w') \<noteq> [] \<longrightarrow> (\<exists>ts. requested_targets \<lparr>rq_targets = None, rq_dry_run = False, rq_force = False\<rparr> (w_saved w') = Inr ts \<and>
      map tg_account ts = map tr_account (list_targets (w_saved w'))))"
proof -
  obtain csv names rows m0 w1 e w2 where b: "import_text content_type body = Inr csv" "read_csv csv = (Some names, rows)"
      "import_rows rows \<lparr>im_imported = 0, im_updated = 0, im_rejected = []\<rparr> w = (m0, w1)"
      "record_event ''collect_targets_imported'' (Some (audit_actor p)) (Some ''collect_targets'') None
        [(''imported'', PInt (int (im_imported m0))), (''updated'', PInt (int (im_updated m0))),
         (''rejected'', PInt (int (length (im_rejected m0))))] w1 = (Inr e, w2)" "m = m0" "w' = commit w2"
    using assms(2) by (auto simp: import_targets_def Let_def split: sum.splits option.splits prod.splits if_splits)
  note f = import_rows_ok [OF assms(1) b(3)]
  have t: "t_targets (w_saved w') = t_targets (w_db w1)"
    using b(4,6) by (auto simp: record_event_def Let_def with_audit_def commit_def begin_tx_def now_def split: sum.splits)
  then have ok: "targets_ok (w_saved w')" using f by (simp add: targets_ok_def)
  let ?g = "\<lambda>t. \<lparr>tg_account = tr_account t, tg_role_arn = Some (tr_role t), tg_external_id = Some (tr_external t),
     tg_name = tr_name t, tg_regions = given (tr_regions t), tg_types = given (tr_types t)\<rparr>"
  let ?ts = "map ?g (list_targets (w_saved w'))"
  have all: "target_row_ok r" if "r \<in> set (list_targets (w_saved w'))" for r
    using ok that by (auto simp: targets_ok_def list_targets_def list_all_iff)
  have "persisted_targets (w_saved w') = Inr ?ts"
    unfolding persisted_targets_def by (rule mapM_all_Inr) (use all in \<open>auto simp: target_in_def target_row_ok_def text_given_def\<close>)
  have "validate_resource_types ?ts = Inr ()"
    using all by (auto simp: validate_resource_types_def types_of_def target_row_ok_def given_def)
  have "requested_targets \<lparr>rq_targets = None, rq_dry_run = False, rq_force = False\<rparr> (w_saved w') = Inr ?ts" if "t_targets (w_saved w') \<noteq> []"
  proof -
    have "list_targets (w_saved w') \<noteq> []" using that by (metis list_targets_def length_sort length_0_conv)
    then show ?thesis using \<open>persisted_targets (w_saved w') = Inr ?ts\<close> \<open>validate_resource_types ?ts = Inr ()\<close>
      by (simp add: requested_targets_def given_def lift_def)
  qed
  moreover have "map tg_account ?ts = map tr_account (list_targets (w_saved w'))" by simp
  ultimately show ?thesis using ok f t b by auto
qed

text \<open>A rejection is documented to be a static text that never quotes the row. The one for regions quotes the unknown ones.\<close>

lemma rejection_quotes_the_cell:
  "validate_row [(''aws_account_id'', Some ''123456789012''), (''role_arn'', Some ''arn:aws:iam::123456789012:role/r''),
     (''external_id'', Some ''x''), (''regions'', Some ''my-external-id'')] = Inl reason \<Longrightarrow> str_contains ''my-external-id'' reason"
proof -
  let ?row = "[(''aws_account_id'', Some ''123456789012''), (''role_arn'', Some ''arn:aws:iam::123456789012:role/r''),
     (''external_id'', Some ''x''), (''regions'', Some ''my-external-id'')]"
  have "case validate_row ?row of Inl t \<Rightarrow> str_contains ''my-external-id'' t | Inr c \<Rightarrow> False" by code_simp
  then show "validate_row ?row = Inl reason \<Longrightarrow> str_contains ''my-external-id'' reason" by simp
qed

section \<open>A small service\<close>

definition shop_targets :: "target list" where
  "shop_targets = [\<lparr>tg_account = ''1'', tg_role_arn = None, tg_external_id = None, tg_name = None, tg_regions = Some [''eu-west-1'', ''eu-west-1''], tg_types = None\<rparr>]"

definition shop_request :: collect_request where
  "shop_request = \<lparr>rq_targets = Some shop_targets, rq_dry_run = False, rq_force = False\<rparr>"

definition shop :: "in_process_queue api" where
  "shop = \<lparr>a_cache = new_cache, a_world = pool_world, a_queue = new_queue 10\<rparr>"

definition shop_send :: "work_item list \<Rightarrow> in_process_queue \<Rightarrow> unit res \<times> in_process_queue" where
  "shop_send = in_process_send (\<lambda>n. str_of_nat n)"

definition shop_post :: "accepted http \<times> in_process_queue api" where
  "shop_post = run_collect shop_send (\<lambda>x. ''error'') ANONYMOUS_PRINCIPAL (Some ''k'') shop_request shop"

lemma shop_requested: "requested_targets shop_request (w_db (a_world shop)) = Inr shop_targets"
  by (simp add: requested_targets_def shop_request_def shop_targets_def given_def validate_resource_types_def types_of_def lift_def
      JOB_REGISTRY_def dict_keys_def)

lemma shop_ready: "0 < ca_max (a_cache shop)" "w_uuids (a_world shop) (w_next (a_world shop)) \<notin> cj_id ` set (t_jobs (w_db (a_world shop)))"
  by (simp_all add: shop_def new_cache_def MAX_ENTRIES_def pool_world_def pool_db_def plain_job_def empty_db_def)

lemma shop_items: "length (items_of i force dry_run shop_targets) = 2" "q_maxsize (a_queue shop) = 10" "pending_count (a_queue shop) = 0"
  by (simp_all add: items_of_length shop_targets_def regions_of_def shop_def new_queue_def pending_count_def)


lemma run_collect_clock: "run_collect qsend show_exn p key body a = (r, a') \<Longrightarrow> w_clock (a_world a') = w_clock (a_world a)"
  by (auto simp: run_collect_def create_and_enqueue_collect_job_def create_job_def cache_response_def cache_put_def commit_def begin_tx_def
      mark_enqueue_failed_def with_jobs_def now_def fresh_def Let_def split: sum.splits prod.splits enqueued.splits if_splits)

theorem replay_returns_the_same_job_witness:
  "\<exists>job a2. trigger_aws_collect shop_send (\<lambda>x. []) (ANONYMOUS_PRINCIPAL\<lparr>pr_tenant := 2\<rparr>) (Some ''k'')
     \<lparr>rq_targets = None, rq_dry_run = False, rq_force = True\<rparr> (snd shop_post) = (Inr \<lparr>ap_job = job, ap_items = 2\<rparr>, a2)"
proof -
  have run: "run_collect shop_send (\<lambda>x. ''error'') ANONYMOUS_PRINCIPAL (Some ''k'') shop_request shop = (fst shop_post, snd shop_post)"
    by (simp add: shop_post_def)
  obtain i where i: "fst shop_post = Inr \<lparr>ap_job = i, ap_items = 2\<rparr>"
    using run_collect_facts [OF run [unfolded shop_send_def] shop_requested shop_ready] by (auto simp: shop_items)
  have c: "w_clock (a_world (snd shop_post)) = (\<lambda>n. 20 + int n)"
    using run_collect_clock [OF run] by (simp add: shop_def pool_world_def)
  have k: "text_given (Some ''k'')" by (simp add: text_given_def)
  show ?thesis
    using replay_returns_the_same_job [OF run [unfolded i] k shop_ready(1)] by (auto simp: c shop_def new_cache_def DEFAULT_TTL_def)
qed

definition twice_db :: db where
  "twice_db = empty_db\<lparr>t_jobs := [plain_job 7 2]\<rparr>"

theorem duplicate_scopes_never_evaluated_witness:
  "w_saved (maybe_run_evaluation denied_env 7 (pool_world\<lparr>w_saved := twice_db\<rparr>)) = twice_db"
proof -
  let ?w = "pool_world\<lparr>w_saved := twice_db\<rparr>"
  have j: "get_job 7 (w_saved ?w) = Some (plain_job 7 2)" "distinct (map cj_id (t_jobs (w_saved ?w)))" "t_runs twice_db = []"
    by (simp_all add: twice_db_def get_job_def plain_job_def empty_db_def)
  have "\<not> distinct (concat (map (\<lambda>t. map (Pair (tg_account t)) (regions_of t)) shop_targets))"
    by (simp add: shop_targets_def regions_of_def)
  from duplicate_scopes_never_evaluated [OF j(1,2) _ _ this] show ?thesis
    by (simp add: j(3) shop_items plain_job_def)
qed

definition shop_csv :: "string \<Rightarrow> string list option \<times> (nat \<times> csv_row) list" where
  "shop_csv t = (Some REQUIRED_CSV_COLUMNS,
     [(2, [(''aws_account_id'', Some ''123456789012''), (''role_arn'', Some ''arn''), (''external_id'', Some ''x'')]),
      (3, [(''aws_account_id'', Some ''12''), (''role_arn'', Some ''arn''), (''external_id'', Some ''x'')])])"

theorem import_keeps_targets_collectable_witness:
  "case import_targets shop_csv ANONYMOUS_PRINCIPAL ''text/csv'' [] pool_world of
     (Inl x, w') \<Rightarrow> False
   | (Inr m, w') \<Rightarrow> im_imported m = 1 \<and> length (im_rejected m) = 1 \<and> targets_ok (w_saved w') \<and> length (t_targets (w_saved w')) = 1"
proof -
  let ?i = "import_targets shop_csv ANONYMOUS_PRINCIPAL ''text/csv'' [] pool_world"
  have e: "case fst ?i of Inl x \<Rightarrow> False | Inr m \<Rightarrow> im_imported m = 1 \<and> length (im_rejected m) = 1" by code_simp
  have "targets_ok (w_db pool_world)" "t_targets (w_db pool_world) = []"
    by (simp_all add: targets_ok_def pool_world_def pool_db_def empty_db_def)
  then show ?thesis
    using e import_keeps_targets_collectable [of pool_world shop_csv ANONYMOUS_PRINCIPAL "''text/csv''" "[]"]
    by (cases ?i; cases "fst ?i") auto
qed

end
