(* ===== verification/Fx.thy ===== *)
theory Fx
  imports PyDecimal
begin

text \<open>
  The USD to EUR conversion (\<open>packages/core/src/constat_core/catalog/fx.py\<close>): one dated
  reference quote, stored as published (1 EUR = 1.1435 USD) and inverted with decimal
  arithmetic, the result rounded half up to cents.
\<close>

definition FX_CATALOG_VERSION :: string where
  "FX_CATALOG_VERSION = ''2026-07-19''"

record fx_rate =
  usd_per_eur :: rat
  rate_date :: date
  source_url :: string
  review_date :: string

text \<open>\<open>d.quantize(Decimal("1e-k"), rounding=ROUND_HALF_UP)\<close>: ties go away from zero; a
  result of more than 28 digits and an infinity raise \<open>InvalidOperation\<close>.\<close>

definition round_half_up :: "rat \<Rightarrow> int" where
  "round_half_up x = (if x < 0 then - \<lfloor>1 / 2 - x\<rfloor> else \<lfloor>x + 1 / 2\<rfloor>)"

definition quantize_half_up :: "nat \<Rightarrow> decimal \<Rightarrow> decimal res" where
  "quantize_half_up k d = (case d of
      Dec r \<Rightarrow> let n = round_half_up (r * 10 ^ k) in
        if 10 ^ 28 \<le> \<bar>n\<bar> then Inl InvalidOperation else Inr (Dec (of_int n / 10 ^ k))
    | DNaN \<Rightarrow> Inr DNaN
    | _ \<Rightarrow> Inl InvalidOperation)"

definition usd_to_eur_rate :: "fx_rate \<Rightarrow> decimal res" where
  "usd_to_eur_rate fx = rbind (ddiv 1 (usd_per_eur fx)) (quantize_half_up 6)"

definition FX_USD_EUR :: fx_rate where
  "FX_USD_EUR = \<lparr>usd_per_eur = 11435 / 10000, rate_date = Date 2026 7 17,
    source_url = ''https://www.ecb.europa.eu/stats/policy_and_exchange_rates/euro_reference_exchange_rates/html/eurofxref-graph-usd.en.html'',
    review_date = ''2026-07-19''\<rparr>"

text \<open>The amount is a float or a decimal; \<open>Decimal(str(amount))\<close> reads the shortest text
  of a float back and leaves a decimal as it is.\<close>

datatype amount = AFloat pyfloat | ADecimal decimal

fun amount_decimal :: "amount \<Rightarrow> decimal res" where
  "amount_decimal (AFloat x) = decimal_of_string (float_repr x)"
| "amount_decimal (ADecimal d) = Inr d"

definition div_rate :: "decimal \<Rightarrow> rat \<Rightarrow> decimal res" where
  "div_rate d q = with_nans d (Dec q) (case d of Dec a \<Rightarrow> dround (a / q) | _ \<Rightarrow> Inr d)"

definition usd_to_eur :: "amount \<Rightarrow> (decimal \<times> decimal \<times> date) res" where
  "usd_to_eur amount =
    rbind (amount_decimal amount) (\<lambda>usd.
    rbind (div_rate usd (usd_per_eur FX_USD_EUR)) (\<lambda>q.
    rbind (quantize_half_up 2 q) (\<lambda>eur.
    rbind (usd_to_eur_rate FX_USD_EUR) (\<lambda>rate.
    Inr (eur, rate, rate_date FX_USD_EUR)))))"

section \<open>Accuracy\<close>

lemma round_half_up_error: "\<bar>of_int (round_half_up x) - x\<bar> \<le> 1 / 2"
proof (cases "x < 0")
  case True
  have "of_int \<lfloor>1 / 2 - x\<rfloor> \<le> 1 / 2 - x" "1 / 2 - x < of_int \<lfloor>1 / 2 - x\<rfloor> + 1"
    using floor_correct [of "1 / 2 - x"] by simp_all
  then show ?thesis unfolding round_half_up_def if_P [OF True] of_int_minus abs_le_iff by linarith
next
  case False
  have "of_int \<lfloor>x + 1 / 2\<rfloor> \<le> x + 1 / 2" "x + 1 / 2 < of_int \<lfloor>x + 1 / 2\<rfloor> + 1"
    using floor_correct [of "x + 1 / 2"] by simp_all
  then show ?thesis unfolding round_half_up_def if_not_P [OF False] abs_le_iff by linarith
qed

lemma quantize_half_up_error:
  assumes "quantize_half_up k (Dec r) = Inr (Dec v)"
  shows "\<bar>v - r\<bar> * 10 ^ k \<le> 1 / 2" and "on_grid k (Dec v)"
proof -
  have v: "v = of_int (round_half_up (r * 10 ^ k)) / 10 ^ k"
    using assms by (auto simp: quantize_half_up_def Let_def split: if_splits)
  then have "(v - r) * 10 ^ k = of_int (round_half_up (r * 10 ^ k)) - r * 10 ^ k"
    by (simp add: left_diff_distrib)
  then have "\<bar>(v - r) * 10 ^ k\<bar> \<le> 1 / 2" using round_half_up_error by simp
  then show "\<bar>v - r\<bar> * 10 ^ k \<le> 1 / 2" by (simp add: abs_mult)
  show "on_grid k (Dec v)" by (simp add: v on_grid_Dec)
qed

lemma dround_error:
  assumes "dround r = Inr (Dec v)" and "r \<noteq> 0"
  shows "\<bar>v - r\<bar> \<le> pow10 (dquantum r) / 2"
proof -
  let ?p = "pow10 (dquantum r)"
  have v: "v = of_int (round_half_even (r / ?p)) * ?p"
    using assms by (auto simp: dround_def Let_def split: if_splits)
  have "v - r = (of_int (round_half_even (r / ?p)) - r / ?p) * ?p" by (simp add: v left_diff_distrib)
  then have "\<bar>v - r\<bar> = \<bar>of_int (round_half_even (r / ?p)) - r / ?p\<bar> * ?p" by (simp add: abs_mult less_imp_le)
  also have "\<dots> \<le> 1 / 2 * ?p" by (intro mult_right_mono round_half_even_error) (simp add: less_imp_le)
  finally show ?thesis by simp
qed


text \<open>Only \<open>InvalidOperation\<close> and \<open>Overflow\<close> come out of a conversion.\<close>

lemma dec_exp_le:
  assumes "0 < x" and "x < pow10 n"
  shows "dec_exp x < n"
  using le_less_trans [OF dec_exp_bounds(1) [OF assms(1)] assms(2)] by (rule pow10_less_cancel)

lemma usd_to_eur_rate_value: "usd_to_eur_rate FX_USD_EUR = Inr (Dec (874508 / 10 ^ 6))"
  by code_simp

lemma usd_to_eur_ten_million:
  "usd_to_eur (ADecimal (Dec 10000000)) = Inr (Dec (874508089 / 100), Dec (874508 / 10 ^ 6), Date 2026 7 17)"
proof -
  have e: "dec_exp (20000000000 / 2287) = 6"
    by (rule dec_exp_eqI) (simp_all add: pow10_def)
  have e': "dec_exp (174901617839965019676432007 / 20000000000000000000) = 6"
    by (rule dec_exp_eqI) (simp_all add: pow10_def)
  show ?thesis
    by (simp add: usd_to_eur_def div_rate_def with_nans_def FX_USD_EUR_def [THEN arg_cong [where f = usd_per_eur]]
        FX_USD_EUR_def [THEN arg_cong [where f = rate_date]]
        dround_def dquantum_def e e' pow10_def round_half_even_def quantize_half_up_def round_half_up_def Let_def
        usd_to_eur_rate_value)
qed



text \<open>The rate stamped next to the amount is not the one it was computed with: at ten
  million dollars amount times rate is 89 cents away.\<close>

theorem usd_to_eur_not_rate_times_amount:
  "usd_to_eur (ADecimal (Dec 10000000)) = Inr (Dec (874508089 / 100), Dec rate, d) \<longrightarrow>
    874508089 / 100 - 10000000 * rate = 89 / 100"
  by (simp add: usd_to_eur_ten_million)

end
