(* ===== verification/InsightApi.thy ===== *)
theory InsightApi
  imports CollectApi FocusStore Fx
begin

text \<open>
  The HTTP side of what the rules found: the insights with their CSV export, their acknowledgement and their history
  (\<open>routers/insights.py\<close>, \<open>insight_history.py\<close>), the queue of inconclusive records (\<open>routers/inconclusive.py\<close>, \<open>admin.py\<close>), the
  trigger of a rule (\<open>routers/runner.py\<close>, \<open>cli/run_insights.py\<close>), and the health and coverage reports (\<open>routers/health.py\<close>, \<open>focus.py\<close>).

  A handler works on the world of its session; a read is recorded on the world of the separate audit session. When the
  request is over its session is closed, and what was not committed is gone: \<open>end_request\<close>.
\<close>

definition end_request :: "world \<Rightarrow> world" where
  "end_request w = close_session w"

section \<open>Insights\<close>

definition severity_text :: "severity \<Rightarrow> string" where
  "severity_text s = (case s of INFO \<Rightarrow> ''info'' | WARNING \<Rightarrow> ''warning'' | CRITICAL \<Rightarrow> ''critical'')"

definition list_insights_endpoint ::
    "bool \<Rightarrow> principal \<Rightarrow> string option \<Rightarrow> severity option \<Rightarrow> uuid option \<Rightarrow> string option \<Rightarrow> nat \<Rightarrow> nat \<Rightarrow> db \<Rightarrow> world \<Rightarrow> insight_row list http \<times> world" where
  "list_insights_endpoint broken p rule severity account ack_status limit offset d aw =
    (if ack_status \<noteq> None \<and> ack_status \<noteq> Some ''open'' \<and> the ack_status \<notin> set ACK_STATUSES then (Inl (HTTPException 400), aw)
     else case list_insights rule severity account ack_status limit offset d of
       Inl x \<Rightarrow> (Inl (Raised x), aw)
     | Inr rows \<Rightarrow> (Inr rows, record_read broken (audit_actor p) ''insights'' ''/insights''
         [(''rule_name'', rule \<noteq> None), (''severity'', severity \<noteq> None), (''account_id'', account \<noteq> None), (''ack_status'', ack_status \<noteq> None)]
         (int (length rows)) aw))"

text \<open>\<open>f"{x:.2f}"\<close>: the exact value rounded to cents, ties to even; a negative zero does not occur. \<open>digits_after\<close> writes a decimal with a
  fixed number of digits after the point, as \<open>str\<close> does for a quantized one.\<close>

definition scaled_text :: "nat \<Rightarrow> int \<Rightarrow> string" where
  "scaled_text k n = (if n < 0 then ''-'' else []) @ str_of_nat (nat (\<bar>n\<bar> div 10 ^ k)) @ ''.'' @ pad0 k (str_of_nat (nat (\<bar>n\<bar> mod 10 ^ k)))"

definition fixed2 :: "rat \<Rightarrow> string" where
  "fixed2 x = scaled_text 2 (round_half_even (x * 100))"

definition digits_after :: "nat \<Rightarrow> decimal \<Rightarrow> string" where
  "digits_after k d = (case d of Dec r \<Rightarrow> scaled_text k \<lfloor>r * 10 ^ k\<rfloor> | DNaN \<Rightarrow> ''NaN'' | _ \<Rightarrow> ''Infinity'')"

definition decimal_fixed2 :: "decimal \<Rightarrow> string" where
  "decimal_fixed2 d = (case d of Dec r \<Rightarrow> fixed2 r | DNaN \<Rightarrow> ''NaN'' | _ \<Rightarrow> ''Infinity'')"

definition EXPORT_HEADER :: "string list" where
  "EXPORT_HEADER = [''rule_name'', ''severity'', ''title'', ''resource_id'', ''account_id'', ''monthly_cost_usd'', ''monthly_cost_eur'',
     ''fx_rate'', ''fx_date'', ''value_basis'', ''computed_at'']"

text \<open>One line of the export; \<open>show_at\<close> is \<open>isoformat\<close> of an instant.\<close>

definition export_row :: "(instant \<Rightarrow> string) \<Rightarrow> insight_row \<Rightarrow> string list res" where
  "export_row show_at r =
    (let i = ir_insight r in
     rbind (monthly_cost_and_basis (ins_rule i) (ins_payload i)) (\<lambda>(cost, basis).
     rmap (\<lambda>(eur, rate, day).
       [ins_rule i, severity_text (ins_severity i), ins_title i, (case ins_resource i of None \<Rightarrow> [] | Some u \<Rightarrow> uuid_str u),
        (case ins_account i of None \<Rightarrow> [] | Some a \<Rightarrow> a), (case cost of None \<Rightarrow> [] | Some x \<Rightarrow> fixed2 x), eur, rate, day,
        (case basis of None \<Rightarrow> [] | Some b \<Rightarrow> b), show_at (ir_computed r)])
      (case cost of
         None \<Rightarrow> Inr ([], [], [])
       | Some x \<Rightarrow> rmap (\<lambda>(eur, rate, day). (decimal_fixed2 eur, digits_after 6 rate, isoformat day)) (usd_to_eur (AFloat x)))))"

definition export_insights_csv ::
    "(instant \<Rightarrow> string) \<Rightarrow> bool \<Rightarrow> principal \<Rightarrow> string option \<Rightarrow> severity option \<Rightarrow> uuid option \<Rightarrow> nat \<Rightarrow> nat \<Rightarrow> db \<Rightarrow> world \<Rightarrow> string list list http \<times> world" where
  "export_insights_csv show_at broken p rule severity account limit offset d aw =
    (case rbind (list_insights rule severity account None limit offset d) (mapM (export_row show_at)) of
       Inl x \<Rightarrow> (Inl (Raised x), aw)
     | Inr rows \<Rightarrow> (Inr (EXPORT_HEADER # rows), record_read broken (audit_actor p) ''insights'' ''/insights/export.csv''
         [(''rule_name'', rule \<noteq> None), (''severity'', severity \<noteq> None), (''account_id'', account \<noteq> None)] (int (length rows)) aw))"

definition get_insight_endpoint :: "bool \<Rightarrow> principal \<Rightarrow> uuid \<Rightarrow> db \<Rightarrow> world \<Rightarrow> insight_row http \<times> world" where
  "get_insight_endpoint broken p i d aw =
    (case get_insight i d of
       None \<Rightarrow> (Inl (HTTPException 404), aw)
     | Some r \<Rightarrow> (Inr r, record_read broken (audit_actor p) ''insight'' ''/insights/{insight_id}'' [] 1 aw))"

definition create_insight_endpoint :: "settings \<Rightarrow> insight \<Rightarrow> world \<Rightarrow> insight_row http \<times> world" where
  "create_insight_endpoint cfg i w =
    (if \<not> st_manual_insights cfg then (Inl (HTTPException 403), w)
     else case insert_insight (i\<lparr>ins_payload := dict_set ''source'' (PStr ''manual'') (ins_payload i)\<rparr>) w of
       (Inl x, w) \<Rightarrow> (Inl (Raised x), w)
     | (Inr r, w) \<Rightarrow> (Inr r, commit w))"

text \<open>There is no commit after the update.\<close>

definition patch_insight_endpoint :: "uuid \<Rightarrow> string \<Rightarrow> string option \<Rightarrow> world \<Rightarrow> insight_row http \<times> world" where
  "patch_insight_endpoint i ack_status ack_by w =
    (if ack_status \<notin> set ACK_STATUSES then (Inl (HTTPException 400), w)
     else case update_ack i ack_status ack_by None w of
       (Inl x, w) \<Rightarrow> (Inl (Raised x), w)
     | (Inr None, w) \<Rightarrow> (Inl (HTTPException 404), w)
     | (Inr (Some r), w) \<Rightarrow> (Inr r, w))"

section \<open>History\<close>

definition event_text :: "life_event \<Rightarrow> string" where
  "event_text e = (case e of Appeared \<Rightarrow> ''appeared'' | Resolved \<Rightarrow> ''resolved'')"

definition event_filter :: "string option \<Rightarrow> life_event option http" where
  "event_filter e = (case e of
     None \<Rightarrow> Inr None
   | Some s \<Rightarrow> if s = event_text Appeared then Inr (Some Appeared) else if s = event_text Resolved then Inr (Some Resolved) else Inl (HTTPException 400))"

definition insight_history ::
    "(pyfloat list \<Rightarrow> pyfloat) \<Rightarrow> bool \<Rightarrow> principal \<Rightarrow> string option \<Rightarrow> instant option \<Rightarrow> string option \<Rightarrow> nat \<Rightarrow> nat \<Rightarrow> db \<Rightarrow> world \<Rightarrow>
     (event_row list \<times> nat \<times> nat \<times> pyfloat) http \<times> world" where
  "insight_history db_sum broken p rule since event limit offset d aw =
    (case event_filter event of
       Inl x \<Rightarrow> (Inl x, aw)
     | Inr e \<Rightarrow> (let es = list_events rule since e limit offset d in
         (Inr (es, summarize_events db_sum rule since e d),
          record_read broken (audit_actor p) ''insight_events'' ''/insights/history''
            [(''rule_name'', rule \<noteq> None), (''since'', since \<noteq> None), (''event'', event \<noteq> None)] (int (length es)) aw)))"

section \<open>Inconclusive records\<close>

definition list_inconclusive_endpoint ::
    "bool \<Rightarrow> principal \<Rightarrow> string option \<Rightarrow> uuid option \<Rightarrow> string option \<Rightarrow> string \<Rightarrow> nat \<Rightarrow> nat \<Rightarrow> db \<Rightarrow> world \<Rightarrow> inconclusive_row list http \<times> world" where
  "list_inconclusive_endpoint broken p rule account status order limit offset d aw =
    (if \<not> pred_option (\<lambda>s. s \<in> set WORKFLOW_STATUSES) status then (Inl (HTTPException 400), aw)
     else if order \<notin> set SORTS then (Inl (HTTPException 400), aw)
     else case list_inconclusive rule account status order limit offset d of
       Inl x \<Rightarrow> (Inl (Raised x), aw)
     | Inr rows \<Rightarrow> (Inr rows, record_read broken (audit_actor p) ''inconclusives'' ''/inconclusives''
         [(''rule_name'', rule \<noteq> None), (''account_id'', account \<noteq> None), (''status'', status \<noteq> None)] (int (length rows)) aw))"

definition get_inconclusive_endpoint :: "bool \<Rightarrow> principal \<Rightarrow> uuid \<Rightarrow> db \<Rightarrow> world \<Rightarrow> inconclusive_row http \<times> world" where
  "get_inconclusive_endpoint broken p i d aw =
    (case get_inconclusive i d of
       None \<Rightarrow> (Inl (HTTPException 404), aw)
     | Some r \<Rightarrow> (Inr r, record_read broken (audit_actor p) ''inconclusive'' ''/inconclusives/{inconclusive_id}'' [] 1 aw))"

definition create_inconclusive_endpoint :: "inconclusive \<Rightarrow> world \<Rightarrow> inconclusive_row http \<times> world" where
  "create_inconclusive_endpoint x w = (case insert_inconclusive x w of (Inl e, w) \<Rightarrow> (Inl (Raised e), w) | (Inr r, w) \<Rightarrow> (Inr r, w))"

text \<open>The body holds the keys that the client sent.\<close>

definition patch_inconclusive_endpoint :: "principal \<Rightarrow> uuid \<Rightarrow> (string, field_value) dict \<Rightarrow> world \<Rightarrow> inconclusive_row http \<times> world" where
  "patch_inconclusive_endpoint p i body w =
    (if (case dict_get body ''status'' of Some (Text s) \<Rightarrow> s \<notin> set WORKFLOW_STATUSES | _ \<Rightarrow> False) then (Inl (HTTPException 400), w)
     else case update_workflow i body w of
       (Inl x, w) \<Rightarrow> (Inl (Raised x), w)
     | (Inr None, w) \<Rightarrow> (Inl (HTTPException 404), w)
     | (Inr (Some r), w) \<Rightarrow>
       (case record_event ''inconclusive_workflow'' (Some (audit_actor p)) (Some ''inconclusive'') (Some (uuid_str i))
           [(''fields_updated'', PList (map PStr (sort (dict_keys body))))] w of
          (Inl x, w) \<Rightarrow> (Inl (Raised x), w)
        | (Inr _, w) \<Rightarrow> (Inr r, commit w)))"

definition cleanup_inconclusives :: "int \<Rightarrow> world \<Rightarrow> nat http \<times> world" where
  "cleanup_inconclusives older_than_days w =
    (case delete_older_than older_than_days w of (Inl x, w) \<Rightarrow> (Inl (Raised x), w) | (Inr n, w) \<Rightarrow> (Inr n, commit w))"

section \<open>Runs of rules\<close>

record run_out =
  ro_rule :: string
  ro_scanned :: nat
  ro_insights :: nat
  ro_inconclusive :: nat
  ro_errors :: "string list"
  ro_period :: string

definition run_out_dump :: "run_out \<Rightarrow> payload" where
  "run_out_dump r = [(''rule_name'', PStr (ro_rule r)), (''resources_scanned'', PInt (int (ro_scanned r))), (''insights_emitted'', PInt (int (ro_insights r))),
     (''inconclusive_emitted'', PInt (int (ro_inconclusive r))), (''errors'', PList (map PStr (ro_errors r))), (''period_label'', PStr (ro_period r))]"

definition run_out_validate :: "pyval \<Rightarrow> run_out res" where
  "run_out_validate v = (case v of
     PDict d \<Rightarrow> (case (pget d ''rule_name'', pget d ''resources_scanned'', pget d ''insights_emitted'', pget d ''inconclusive_emitted'', pget d ''errors'',
         get_default d ''period_label'' (PStr [])) of
       (PStr r, PInt a, PInt b, PInt c, PList es, PStr l) \<Rightarrow>
         rmap (\<lambda>es. \<lparr>ro_rule = r, ro_scanned = nat a, ro_insights = nat b, ro_inconclusive = nat c, ro_errors = es, ro_period = l\<rparr>) (mapM str_field es)
     | _ \<Rightarrow> Inl ValueError)
   | _ \<Rightarrow> Inl ValueError)"

text \<open>\<open>show_error\<close> is the text of one entry of the error list.\<close>

definition run_insights_endpoint ::
    "(string \<Rightarrow> string) \<Rightarrow> (instant \<Rightarrow> date) \<Rightarrow> (uuid \<times> exn \<Rightarrow> string) \<Rightarrow> string option \<Rightarrow> string \<Rightarrow> date option \<Rightarrow> string \<Rightarrow> string option \<Rightarrow> cache \<Rightarrow> world \<Rightarrow>
     run_out http \<times> cache \<times> world" where
  "run_insights_endpoint sha local_date show_error key rule today plabel tag_key c w =
    (case (if text_given key then get_cached_or_none ''insights_run'' (the key) c w else (None, c, w)) of
       (Some v, c, w) \<Rightarrow> (lift (run_out_validate v), c, w)
     | (None, c, w) \<Rightarrow>
       if rule \<notin> set RUNNERS then (Inl (HTTPException 400), c, w)
       else (case run_rule sha local_date rule today plabel tag_key w of
           (Inl ValueError, w) \<Rightarrow> (Inl (HTTPException 400), c, w)
         | (Inl x, w) \<Rightarrow> (Inl (Raised x), c, w)
         | (Inr r, w) \<Rightarrow>
           (let out = \<lparr>ro_rule = rs_rule r, ro_scanned = rs_scanned r, ro_insights = rs_insights r, ro_inconclusive = rs_inconclusive r,
                  ro_errors = map show_error (rs_errors r), ro_period = rs_period r\<rparr>
            in if text_given key then
                 (case cache_response ''insights_run'' (the key) (run_out_dump out) c w of
                    (Inl x, w) \<Rightarrow> (Inl (Raised x), c, w)
                  | (Inr c, w) \<Rightarrow> (Inr out, c, w))
               else (Inr out, c, w))))"

text \<open>The command: every rule in a session of its own, and the exit code.\<close>

fun run_one_by_one :: "(string \<Rightarrow> string) \<Rightarrow> (instant \<Rightarrow> date) \<Rightarrow> date option \<Rightarrow> string \<Rightarrow> string option \<Rightarrow> string list \<Rightarrow> world \<Rightarrow> string list \<times> world" where
  "run_one_by_one sha local_date today plabel tag_key [] w = ([], w)"
| "run_one_by_one sha local_date today plabel tag_key (rule # rules) w =
    (let (r, w) = run_rule sha local_date rule today plabel tag_key (open_session w);
         (failed, w) = run_one_by_one sha local_date today plabel tag_key rules (close_session w)
     in (case r of Inl _ \<Rightarrow> (rule # failed, w) | Inr _ \<Rightarrow> (failed, w)))"

definition run_insights_main :: "(string \<Rightarrow> string) \<Rightarrow> (instant \<Rightarrow> date) \<Rightarrow> string option \<Rightarrow> date option \<Rightarrow> string \<Rightarrow> string option \<Rightarrow> world \<Rightarrow> int \<times> world" where
  "run_insights_main sha local_date rule today plabel tag_key w =
    (let (failed, w) = run_one_by_one sha local_date today plabel tag_key (case rule of None \<Rightarrow> sort RUNNERS | Some r \<Rightarrow> [r]) w
     in (if failed = [] then 0 else 2, w))"

section \<open>Reports\<close>

definition get_focus_coverage :: "bool \<Rightarrow> principal \<Rightarrow> date \<Rightarrow> db \<Rightarrow> world \<Rightarrow> (account_coverage list \<times> bool \<times> bool) \<times> world" where
  "get_focus_coverage broken p today d aw =
    (let cs = compute_focus_coverage today d in
     ((cs, \<exists>c\<in>set cs. cv_missing c \<noteq> [], \<exists>c\<in>set cs. cv_stale c),
      record_read broken (audit_actor p) ''focus_coverage'' ''/focus/coverage'' [] (int (length cs)) aw))"

text \<open>Most recent first; the order of equal times is that of the rows.\<close>

definition list_insight_runs :: "string option \<Rightarrow> run_status option \<Rightarrow> nat \<Rightarrow> db \<Rightarrow> insight_run list" where
  "list_insight_runs rule status limit d = take limit (filter (\<lambda>r. pred_option ((=) (nu_rule r)) rule \<and> pred_option ((=) (nu_status r)) status)
     (sort_key (\<lambda>r. - nu_started r) (t_insight_runs d)))"

definition DEFAULT_STALE_AFTER_HOURS :: int where
  "DEFAULT_STALE_AFTER_HOURS = 24"

definition DEFAULT_STUCK_RUN_HOURS :: int where
  "DEFAULT_STUCK_RUN_HOURS = 2"

text \<open>The checks on a database that answers: the age of the newest billing data, the count of stuck runs, and the status code. The thresholds are
  whole hours here.\<close>

record health_report =
  he_code :: nat
  he_age :: "int option"
  he_stale :: bool
  he_stuck :: nat

definition health :: "int \<Rightarrow> int \<Rightarrow> instant \<Rightarrow> db \<Rightarrow> health_report" where
  "health stale_after_hours stuck_run_hours t d =
    (let stamps = map fo_ingested (t_focus d);
         age = (if stamps = [] then None else Some (t - Max (set stamps)));
         stale = pred_option (\<lambda>a. hours stale_after_hours < a) age;
         stuck = length (filter (\<lambda>r. sr_status r = Running \<and> sr_started r < t - hours stuck_run_hours) (t_runs d))
     in \<lparr>he_code = (if (age \<noteq> None \<and> stale) \<or> 0 < stuck then 503 else 200), he_age = age, he_stale = age \<noteq> None \<and> stale, he_stuck = stuck\<rparr>)"

record status_report =
  su_accounts :: nat
  su_resources :: nat
  su_active :: nat
  su_insights :: nat
  su_critical :: nat
  su_warning :: nat
  su_info :: nat
  su_inconclusive :: nat
  su_last_insight_run :: "insight_run option"
  su_last_source_run :: "source_run option"
  su_freshness :: "int option"

definition latest :: "('a \<Rightarrow> instant) \<Rightarrow> 'a list \<Rightarrow> 'a option" where
  "latest f xs = (case sort_key (\<lambda>x. - f x) xs of [] \<Rightarrow> None | x # _ \<Rightarrow> Some x)"

text \<open>The last source run is one with an account row; its age is in whole seconds.\<close>

definition status_of :: "instant \<Rightarrow> db \<Rightarrow> status_report" where
  "status_of t d =
    (let with_severity = (\<lambda>s. length (filter (\<lambda>r. ins_severity (ir_insight r) = s) (t_insights d)));
         last_run = latest sr_started (filter (\<lambda>r. \<exists>a\<in>set (t_accounts d). ac_id a = sr_account r) (t_runs d))
     in \<lparr>su_accounts = length (t_accounts d), su_resources = length (t_resources d),
       su_active = length (filter (\<lambda>r. rr_retired r = None) (t_resources d)),
       su_insights = length (t_insights d), su_critical = with_severity CRITICAL, su_warning = with_severity WARNING, su_info = with_severity INFO,
       su_inconclusive = length (t_inconclusive d),
       su_last_insight_run = latest nu_started (t_insight_runs d), su_last_source_run = last_run,
       su_freshness = Option.bind last_run (\<lambda>r. map_option (\<lambda>f. (if f \<le> t then (t - f) div 1000000 else - ((f - t) div 1000000))) (sr_finished r))\<rparr>)"

definition get_status :: "bool \<Rightarrow> principal \<Rightarrow> instant \<Rightarrow> db \<Rightarrow> world \<Rightarrow> status_report \<times> world" where
  "get_status broken p t d aw = (status_of t d, record_read broken (audit_actor p) ''status'' ''/status'' [] 1 aw)"

section \<open>What a request leaves behind\<close>

lemma find_update_where:
  assumes "find P xs = Some x" and "\<And>y. P (f y) = P y"
  shows "find P (update_where P f xs) = Some (f x)"
  using assms(1) by (induction xs) (auto simp: update_where_def assms(2) split: if_splits)

lemma record_event_keeps:
  "record_event a b c d e w = (x, w') \<Longrightarrow> t_inconclusive (w_db w') = t_inconclusive (w_db w)"
  by (auto simp: record_event_def Let_def with_audit_def now_def fresh_def split: sum.splits prod.splits)

lemma update_workflow_found:
  assumes "update_workflow i changes w = (Inr (Some r), w')"
  shows "get_inconclusive i (w_db w') = Some r"
  using assms
  by (auto simp: update_workflow_def get_inconclusive_def with_inconclusive_def Let_def find_update_where split: if_splits sum.splits option.splits)

text \<open>C39: Triage is kept for an inconclusive record and lost for an insight. The reply to an accepted acknowledgement shows the insight as
  acknowledged, but nothing is committed: after the request the store is what it was before it, and the same holds for an inconclusive record
  that is posted. The reply to an accepted change of the
  workflow of an inconclusive record shows the record that is stored after the request.\<close>

theorem acknowledgement_is_not_stored:
  assumes "patch_insight_endpoint i status by w = (reply, w1)" and "patch_inconclusive_endpoint p j body w = (Inr row, w2)"
  shows "w_db (end_request w1) = w_saved w \<and> w_saved (end_request w1) = w_saved w \<and>
    (status \<in> set ACK_STATUSES \<longrightarrow> (case get_insight i (w_db w) of
        None \<Rightarrow> reply = Inl (HTTPException 404)
      | Some r \<Rightarrow> \<exists>t. reply = Inr (r\<lparr>ir_ack := Some (status, t, by)\<rparr>))) \<and>
    get_inconclusive j (w_saved (end_request w2)) = Some row \<and>
    w_saved (end_request (snd (create_inconclusive_endpoint x w))) = w_saved w"
proof -
  have "w_saved (snd (create_inconclusive_endpoint x w)) = w_saved w"
    by (auto simp: create_inconclusive_endpoint_def insert_inconclusive_def with_inconclusive_def now_def fresh_def Let_def split: sum.splits)
  moreover have "w_saved w1 = w_saved w"
    using assms(1) by (auto simp: patch_insight_endpoint_def update_ack_def with_insights_def now_def Let_def split: if_splits option.splits)
  moreover have "status \<in> set ACK_STATUSES \<longrightarrow> (case get_insight i (w_db w) of None \<Rightarrow> reply = Inl (HTTPException 404)
      | Some r \<Rightarrow> \<exists>t. reply = Inr (r\<lparr>ir_ack := Some (status, t, by)\<rparr>))"
    using assms(1) by (auto simp: patch_insight_endpoint_def update_ack_def now_def Let_def split: option.splits)
  moreover obtain w3 e w4 where u: "update_workflow j body w = (Inr (Some row), w3)" and ev: "record_event ''inconclusive_workflow'' (Some (audit_actor p))
      (Some ''inconclusive'') (Some (uuid_str j)) [(''fields_updated'', PList (map PStr (sort (dict_keys body))))] w3 = (Inr e, w4)" and w2: "w2 = commit w4"
    using assms(2) by (auto simp: patch_inconclusive_endpoint_def split: if_splits prod.splits sum.splits option.splits)
  moreover have "get_inconclusive j (w_db w4) = Some row"
    using update_workflow_found [OF u] record_event_keeps [OF ev] by (simp add: get_inconclusive_def)
  ultimately show ?thesis by (simp add: end_request_def)
qed

section \<open>The health check\<close>

lemma Max_older: "xs \<noteq> [] \<Longrightarrow> a < t - Max (set xs) \<longleftrightarrow> (\<forall>x\<in>set xs. a < t - (x::int))"
proof
  assume ne: "xs \<noteq> []" and a: "a < t - Max (set xs)"
  show "\<forall>x\<in>set xs. a < t - x"
  proof
    fix x assume "x \<in> set xs"
    then have "x \<le> Max (set xs)" by simp
    then show "a < t - x" using a by linarith
  qed
qed simp

text \<open>C40: The health check answers 503 exactly when every billing row is older than the threshold (and there is one) or a source run has been
  running for longer than its threshold; the repair that it names frees exactly the runs it counted: after the clean-up
  with the same threshold none is left, and only old billing data keep the answer at 503.\<close>

theorem cleanup_repairs_health:
  assumes "trigger_cleanup_stuck_runs show_at (hours run_for) w = (n, w')" and "t = w_clock w (w_tick w)"
  shows "(he_code (health fresh_for run_for t (w_db w)) = 503 \<longleftrightarrow>
      (t_focus (w_db w) \<noteq> [] \<and> (\<forall>f\<in>set (t_focus (w_db w)). fo_ingested f < t - hours fresh_for)) \<or>
      (\<exists>r\<in>set (t_runs (w_db w)). sr_status r = Running \<and> sr_started r < t - hours run_for)) \<and>
    he_stuck (health fresh_for run_for t (w_db w)) = n \<and> he_stuck (health fresh_for run_for t (w_db w')) = 0 \<and>
    (he_code (health fresh_for run_for t (w_db w')) = 503 \<longleftrightarrow> he_stale (health fresh_for run_for t (w_db w))) \<and>
    (0 < n \<longrightarrow> w_saved w' = w_db w')"
proof -
  let ?old = "\<lambda>r. sr_status r = Running \<and> sr_started r < t - hours run_for"
  let ?g = "\<lambda>r. r\<lparr>sr_finished := Some (w_clock w (Suc (w_tick w))), sr_status := Failed,
    sr_error := Some (''stuck_run_cleanup: started_at='' @ show_at (sr_started r))\<rparr>"
  have n: "n = length (filter ?old (t_runs (w_db w)))"
    using assms by (simp add: trigger_cleanup_stuck_runs_def cleanup_stuck_runs_def now_def Let_def)
  have runs: "t_runs (w_db w') = update_where ?old ?g (t_runs (w_db w))" and focus: "t_focus (w_db w') = t_focus (w_db w)"
    and saved: "0 < n \<longrightarrow> w_saved w' = w_db w'"
    using assms by (auto simp: trigger_cleanup_stuck_runs_def cleanup_stuck_runs_def with_runs_def now_def Let_def)
  have "filter ?old (update_where ?old ?g rs) = []" for rs by (induction rs) (auto simp: update_where_def)
  then have none: "filter ?old (t_runs (w_db w')) = []" unfolding runs by blast
  have old: "he_stale (health fresh_for run_for t d) \<longleftrightarrow> t_focus d \<noteq> [] \<and> (\<forall>f\<in>set (t_focus d). fo_ingested f < t - hours fresh_for)" for d
  proof (cases "t_focus d = []")
    case False
    then have "he_stale (health fresh_for run_for t d) \<longleftrightarrow> hours fresh_for < t - Max (set (map fo_ingested (t_focus d)))"
      by (simp add: health_def Let_def)
    also have "\<dots> \<longleftrightarrow> (\<forall>f\<in>set (t_focus d). hours fresh_for < t - fo_ingested f)"
      using Max_older [of "map fo_ingested (t_focus d)" "hours fresh_for" t] False by simp
    also have "\<dots> \<longleftrightarrow> (\<forall>f\<in>set (t_focus d). fo_ingested f < t - hours fresh_for)" by (intro ball_cong refl) linarith
    finally show ?thesis using False by simp
  qed (simp add: health_def Let_def)
  have code: "he_code (health fresh_for run_for t d) = 503 \<longleftrightarrow> he_stale (health fresh_for run_for t d) \<or> 0 < he_stuck (health fresh_for run_for t d)" for d
    by (auto simp: health_def Let_def)
  have stuck: "he_stuck (health fresh_for run_for t d) = length (filter ?old (t_runs d))" for d by (simp add: health_def Let_def)
  have "0 < length (filter ?old rs) \<longleftrightarrow> (\<exists>r\<in>set rs. ?old r)" for rs by (induction rs) auto
  then show ?thesis using n none focus saved unfolding code stuck old by auto
qed

section \<open>A store to look at\<close>

definition triage_db :: db where
  "triage_db = empty_db\<lparr>
     t_insights := [\<lparr>ir_id = 90, ir_insight = \<lparr>ins_rule = ''rds_eol'', ins_resource = Some 7, ins_account = None, ins_severity = WARNING, ins_title = [],
       ins_payload = []\<rparr>, ir_computed = 0, ir_ack = None\<rparr>],
     t_inconclusive := [\<lparr>nr_id = 91, nr_inconclusive = \<lparr>inc_rule = ''rds_eol'', inc_resource = Some 8, inc_account = None, inc_missing = [], inc_reason = None\<rparr>,
       nr_computed = 0, nr_owner = None, nr_due = None, nr_status = ''open''\<rparr>],
     t_runs := [\<lparr>sr_id = 5, sr_account = 1, sr_region = ''eu-west-1'', sr_type = ''rds_instance'', sr_source = ''aws_rds'',
       sr_started = 0, sr_finished = None, sr_status = Running, sr_found = None, sr_error = None, sr_job = None\<rparr>]\<rparr>"

definition triage_world :: world where
  "triage_world = \<lparr>w_db = triage_db, w_saved = triage_db, w_clock = (\<lambda>n. hours 3 + int n), w_tick = 0, w_uuids = (\<lambda>n. 200 + of_nat n), w_next = 100, w_begin = hours 3\<rparr>"

theorem acknowledgement_is_not_stored_witness:
  "\<exists>r t w1 row w2. patch_insight_endpoint 90 ''acknowledged'' (Some ''ana'') triage_world = (Inr (r\<lparr>ir_ack := Some (''acknowledged'', t, Some ''ana'')\<rparr>), w1) \<and>
    w_saved (end_request w1) = triage_db \<and>
    patch_inconclusive_endpoint ANONYMOUS_PRINCIPAL 91 [(''owner'', Text ''ana'')] triage_world = (Inr row, w2) \<and> nr_owner row = Some ''ana'' \<and>
    get_inconclusive 91 (w_saved (end_request w2)) = Some row"
proof -
  obtain reply w1 where p: "patch_insight_endpoint 90 ''acknowledged'' (Some ''ana'') triage_world = (reply, w1)" by (metis surj_pair)
  have "\<exists>row w2. patch_inconclusive_endpoint ANONYMOUS_PRINCIPAL 91 [(''owner'', Text ''ana'')] triage_world = (Inr row, w2) \<and> nr_owner row = Some ''ana''"
    by (simp add: patch_inconclusive_endpoint_def update_workflow_def workflow_status_def get_inconclusive_def triage_world_def triage_db_def empty_db_def
        record_event_def validate_metadata_def dict_keys_def PII_FORBIDDEN_METADATA_KEYS_def Let_def)
  then obtain row w2 where q: "patch_inconclusive_endpoint ANONYMOUS_PRINCIPAL 91 [(''owner'', Text ''ana'')] triage_world = (Inr row, w2)" "nr_owner row = Some ''ana''"
    by blast
  have "get_insight 90 (w_db triage_world) \<noteq> None" by (simp add: get_insight_def triage_world_def triage_db_def empty_db_def)
  moreover have "w_saved triage_world = triage_db" by (simp add: triage_world_def)
  moreover have "''acknowledged'' \<in> set ACK_STATUSES" by (simp add: ACK_STATUSES_def)
  ultimately show ?thesis using acknowledgement_is_not_stored [OF p q(1), of "nr_inconclusive row"] p q by auto
qed

theorem cleanup_repairs_health_witness:
  "\<exists>n w'. trigger_cleanup_stuck_runs (\<lambda>_. []) (hours DEFAULT_STUCK_RUN_HOURS) triage_world = (n, w') \<and> n = 1 \<and>
    he_code (health DEFAULT_STALE_AFTER_HOURS DEFAULT_STUCK_RUN_HOURS (hours 3) (w_db triage_world)) = 503 \<and>
    he_code (health DEFAULT_STALE_AFTER_HOURS DEFAULT_STUCK_RUN_HOURS (hours 3) (w_db w')) \<noteq> 503"
proof -
  obtain n w' where c: "trigger_cleanup_stuck_runs (\<lambda>_. []) (hours DEFAULT_STUCK_RUN_HOURS) triage_world = (n, w')" by (metis surj_pair)
  have t: "hours 3 = w_clock triage_world (w_tick triage_world)" by (simp add: triage_world_def)
  have h: "he_stuck (health DEFAULT_STALE_AFTER_HOURS DEFAULT_STUCK_RUN_HOURS (hours 3) (w_db triage_world)) = 1"
    "he_code (health DEFAULT_STALE_AFTER_HOURS DEFAULT_STUCK_RUN_HOURS (hours 3) (w_db triage_world)) = 503"
    "\<not> he_stale (health DEFAULT_STALE_AFTER_HOURS DEFAULT_STUCK_RUN_HOURS (hours 3) (w_db triage_world))"
    by (simp_all add: health_def triage_world_def triage_db_def empty_db_def hours_def DEFAULT_STUCK_RUN_HOURS_def)
  show ?thesis using cleanup_repairs_health [OF c t, of DEFAULT_STALE_AFTER_HOURS] c h by auto
qed

end
