(* ===== verification/NightlyRun.thy ===== *)
theory NightlyRun
  imports InsightApi
begin

text \<open>
  The command that runs every rule (\<open>cli/run_insights.py\<close>), over all of its sessions: what one rule leaves of the reports of
  the others, what a rule that raises leaves of its own, and what the log of runs shows.
\<close>

section \<open>One rule and the reports of the others\<close>

definition rows_of_rule :: "string \<Rightarrow> db \<Rightarrow> insight_row list" where
  "rows_of_rule rule d = filter (\<lambda>r. rule_of r = rule) (t_insights d)"

text \<open>A step that touches the insights of one rule only.\<close>

definition only_rule :: "string \<Rightarrow> world \<Rightarrow> world \<Rightarrow> bool" where
  "only_rule rule w w' = (filter (\<lambda>r. rule_of r \<noteq> rule) (t_insights (w_db w')) = filter (\<lambda>r. rule_of r \<noteq> rule) (t_insights (w_db w)))"

lemma only_rule_trans: "only_rule rule w w1 \<Longrightarrow> only_rule rule w1 w2 \<Longrightarrow> only_rule rule w w2"
  by (simp add: only_rule_def)

lemma only_rule_refl: "t_insights (w_db w') = t_insights (w_db w) \<Longrightarrow> only_rule rule w w'"
  by (simp add: only_rule_def)

lemma only_rule_others:
  assumes "only_rule rule w w'" and "other \<noteq> rule"
  shows "rows_of_rule other (w_db w') = rows_of_rule other (w_db w)"
proof -
  have "rows_of_rule other d = filter (\<lambda>r. rule_of r = other) (filter (\<lambda>r. rule_of r \<noteq> rule) (t_insights d))" for d
    using assms(2) by (auto simp: rows_of_rule_def intro: filter_cong)
  then show ?thesis using assms(1) by (simp add: only_rule_def del: filter_filter)
qed

lemma inserts_only_rule:
  "\<forall>i\<in>set gs. ins_rule i = rule \<Longrightarrow> insert_all insert_insight gs n w = (res, w') \<Longrightarrow> only_rule rule w w'"
proof (induction gs arbitrary: n w)
  case (Cons g gs)
  obtain x w1 where i: "insert_insight g w = (x, w1)" by (metis surj_pair)
  have "only_rule rule w w1" using i Cons.prems(1)
    by (auto simp: insert_insight_def now_def fresh_def with_insights_def only_rule_def Let_def split: sum.splits if_splits)
  then show ?case using Cons.IH [of "Suc n" w1] Cons.prems i by (cases x) (auto intro: only_rule_trans)
qed (simp add: only_rule_refl)

lemma charged_rules: "account_insights plabel tag_key a d = Inr gs \<Longrightarrow> i \<in> set gs \<Longrightarrow> ins_rule i = ''chargeback''"
proof -
  assume "account_insights plabel tag_key a d = Inr gs" and i: "i \<in> set gs"
  then obtain rs where "build_insights plabel rs = Inr gs" by (auto simp: account_insights_def Let_def rbind_Inr_iff)
  then have "list_all2 (\<lambda>a i. insight_of a i) rs gs"
    unfolding build_insights_def mapM_list_all2 by (rule list_all2_mono) (rule build_insight_of)
  then show ?thesis using i by (auto simp: list_all2_conv_all_nth in_set_conv_nth insight_of_def RULE_NAME_def)
qed

lemma charges_only_rule: "charge_accounts plabel tag_key as k w = (res, w') \<Longrightarrow> only_rule ''chargeback'' w w'"
proof (induction as arbitrary: k w)
  case (Cons a as)
  show ?case
  proof (cases "account_insights plabel tag_key a (w_db w)")
    case (Inl e)
    then show ?thesis using Cons by simp
  next
    case (Inr gs)
    obtain n e w1 where i: "insert_all insert_insight gs 0 w = ((n, e), w1)" by (metis surj_pair)
    have "only_rule ''chargeback'' w w1" using charged_rules [OF Inr] by (intro inserts_only_rule [OF _ i]) blast
    then show ?thesis using Cons i Inr by (auto split: if_splits intro: only_rule_trans)
  qed
qed (simp add: only_rule_refl)

lemma start_keeps_insights: "start_insight_run rule w = (i, w') \<Longrightarrow> t_insights (w_db w') = t_insights (w_db w)"
  by (auto simp: start_insight_run_def with_insight_runs_def fresh_def commit_def begin_tx_def now_def Let_def)

lemma close_chargeback_Inr:
  assumes "close_chargeback sha plabel tag_key previous acks i n k w = (Inr res, w')"
  shows "only_rule ''chargeback'' w w'" and "w_saved w' = w_db w'"
proof -
  let ?w1 = "finish_insight_run i (if n_errors k = [] then Success else Partial) n (n_insights k) w"
  let ?w2 = "snd (apply_acks_to_rule ''chargeback'' acks ?w1)"
  obtain d w3 where d: "diff_and_record_events sha ''chargeback'' previous (Some i) ?w2 = (d, w3)" by (metis surj_pair)
  obtain m x w4 where m: "d = Inr m" and e: "record_event ''chargeback_run'' (Some ''system:insights_runner'') (Some ''rule'') (Some ''chargeback'')
      (chargeback_metadata n k tag_key) w3 = (Inr x, w4)" and w': "w' = commit w4"
    using assms d by (auto simp: close_chargeback_def Let_def split: sum.splits prod.splits)
  obtain rs where "w_db ?w1 = (w_db w)\<lparr>t_insight_runs := rs\<rparr>" using finish_insight_run_facts(2) by blast
  then have "t_insights (w_db ?w1) = t_insights (w_db w)" by simp
  moreover have "t_insights (w_db ?w2) = map (acked_by ''chargeback'' acks) (t_insights (w_db ?w1))" by (simp add: apply_acks_facts(2))
  moreover have "t_insights (w_db w3) = t_insights (w_db ?w2)" by (rule diff_facts [OF d [unfolded m]]) simp
  moreover have "t_insights (w_db w4) = t_insights (w_db w3)"
    using e by (auto simp: record_event_def with_audit_def Let_def split: sum.splits)
  moreover have "filter (\<lambda>r. rule_of r \<noteq> rule) (map (acked_by rule acks) rs) = filter (\<lambda>r. rule_of r \<noteq> rule) rs" for rule rs
    by (induction rs) (auto simp: acked_by_def)
  ultimately show "only_rule ''chargeback'' w w'" by (simp add: only_rule_def w')
  show "w_saved w' = w_db w'" by (simp add: w')
qed

lemma run_only_rule:
  assumes "clock_ok w" and "run_rule sha local_date rule today plabel tag_key w = (Inr res, w')"
  shows "only_rule rule w w' \<and> w_saved w' = w_db w'"
proof (cases "rule = ''chargeback''")
  case True
  obtain i w1 where s: "start_insight_run ''chargeback'' w = (i, w1)" by (metis surj_pair)
  let ?w2 = "snd (delete_insights_for_rule ''chargeback'' w1)"
  let ?accounts = "remdups (map fo_account (t_focus (w_db ?w2)))"
  obtain r w3 where c: "charge_accounts plabel tag_key ?accounts \<lparr>n_insights = 0, n_inconclusive = 0, n_errors = []\<rparr> ?w2 = (r, w3)" by (metis surj_pair)
  obtain k where "r = Inr k" "close_chargeback sha plabel tag_key (snapshot_rule sha ''chargeback'' (w_db w1)) (snapshot_acks ''chargeback'' (w_db w1)) i
      (length ?accounts) k w3 = (Inr res, w')"
    using assms(2) True s c by (auto simp: run_rule_def run_chargeback_def Let_def RUNNERS_def split: sum.splits)
  moreover have "only_rule ''chargeback'' w w1" by (rule only_rule_refl) (rule start_keeps_insights [OF s])
  moreover have "only_rule ''chargeback'' w1 ?w2"
    by (simp add: delete_insights_for_rule_def with_insights_def only_rule_def Let_def)
  ultimately show ?thesis using True charges_only_rule [OF c] close_chargeback_Inr by (metis only_rule_trans)
next
  case False
  then have r: "run_resource_rule sha local_date rule today (Some DEFAULT_SCOPE_MAX_AGE) w = (Inr res, w')"
    using assms(2) by (auto simp: run_rule_def split: if_splits)
  obtain rows' where rows: "\<forall>r\<in>set rows'. rule_of r = rule \<and> ir_ack r = None"
    and ins: "t_insights (w_db w') = filter (\<lambda>r. rule_of r \<noteq> rule) (t_insights (w_db w)) @
      map (\<lambda>r. r\<lparr>ir_ack := dict_get (snapshot_acks rule (w_db w)) (ack_snapshot_key r)\<rparr>) rows'" and saved: "w_saved w' = w_db w'"
    by (rule run_after [OF assms(1) r])
  have "\<forall>r\<in>set rows'. rule_of r = rule" using rows by simp
  from filter_replaced(2) [OF this ins] saved show ?thesis by (simp add: only_rule_def)
qed

section \<open>One session\<close>

lemma proven_earlier: "proven source max_age t d r \<Longrightarrow> t0 \<le> t \<Longrightarrow> proven source max_age t0 d r"
  unfolding proven_def by (cases max_age) (auto, force)

lemma proven_inventory: "inventory d' = inventory d \<Longrightarrow> proven source max_age t d' r = proven source max_age t d r"
  by (rule proven_cong) (simp add: inventory_def)

text \<open>Every insight of the rule is about a resource whose scope a fresh scan proves.\<close>

definition all_proven :: "string \<Rightarrow> instant \<Rightarrow> db \<Rightarrow> insight_row list \<Rightarrow> bool" where
  "all_proven rule t d rows = (\<forall>i\<in>set rows. \<exists>r\<in>set (t_resources d). ins_resource (ir_insight i) = Some (rr_id r) \<and>
     proven (get_default RULE_SOURCES rule DEFAULT_SOURCE) (Some DEFAULT_SCOPE_MAX_AGE) t d r)"

lemma all_proven_earlier: "all_proven rule t d' rows \<Longrightarrow> t0 \<le> t \<Longrightarrow> inventory d' = inventory d \<Longrightarrow> all_proven rule t0 d rows"
  unfolding all_proven_def using proven_earlier proven_inventory [of d' d] by (metis inventory_def prod.inject)

text \<open>What a session leaves: the inventory, the clock, one more row of the log, and the insights of the rule or of nobody.\<close>

definition session_result :: "string \<Rightarrow> bool \<Rightarrow> world \<Rightarrow> world \<Rightarrow> bool" where
  "session_result rule raised w w' = (inventory (w_saved w') = inventory (w_saved w) \<and> w_clock w' = w_clock w \<and> w_tick w \<le> w_tick w' \<and>
     map nu_rule (t_insight_runs (w_saved w')) = map nu_rule (t_insight_runs (w_saved w)) @ [rule] \<and>
     (\<forall>other. other \<noteq> rule \<longrightarrow> rows_of_rule other (w_saved w') = rows_of_rule other (w_saved w)) \<and>
     (raised \<longrightarrow> t_insights (w_saved w') = t_insights (w_saved w)) \<and>
     (\<not> raised \<longrightarrow> rule \<noteq> ''chargeback'' \<longrightarrow> all_proven rule (w_clock w (w_tick w)) (w_saved w) (rows_of_rule rule (w_saved w'))))"

lemma session_of_rule:
  assumes "mono (w_clock w)" and "rule \<in> set RUNNERS" and "run_rule sha local_date rule today plabel tag_key (open_session w) = (r, w1)"
  shows "session_result rule (\<exists>e. r = Inl e) w (close_session w1)"
proof -
  let ?w = "open_session w"
  have c: "clock_ok ?w" "w_clock ?w = w_clock w" "w_tick w \<le> w_tick ?w"
    using assms(1) by (auto simp: clock_ok_def open_session_def rollback_def begin_tx_def now_def Let_def mono_def)
  have "same_inventory (w_saved w) (w_clock w) (w_tick w) ?w" using c by (simp add: same_inventory_def)
  then have inv: "same_inventory (w_saved w) (w_clock w) (w_tick w) w1" by (rule stock.rule [OF assms(3)])
  have log: "log_is (map nu_rule (t_insight_runs (w_saved w)) @ [rule]) w1"
    by (rule log.opened [OF assms(3,2)]) (metis start_opens(2) open_close_simps(1))
  have keep: "t_insights (w_saved w1) = t_insights (w_saved w)" if "r = Inl e" for e
  proof -
    have "saved_insights (t_insights (w_saved w)) w1"
      by (rule saved.raised [OF assms(3) [unfolded that]]) (simp add: saved_insights_def, metis start_opens(1) open_close_simps(1))
    then show ?thesis by (simp add: saved_insights_def)
  qed
  have fin: "only_rule rule ?w w1 \<and> w_saved w1 = w_db w1" if "r = Inr res" for res
    using run_only_rule [OF c(1) assms(3) [unfolded that]] .
  have fresh_proof: "all_proven rule (w_clock w (w_tick w)) (w_saved w) (rows_of_rule rule (w_saved w1))" if "r = Inr res" "rule \<noteq> ''chargeback''" for res
  proof -
    have "run_resource_rule sha local_date rule today (Some DEFAULT_SCOPE_MAX_AGE) ?w = (Inr res, w1)"
      using assms(2,3) that by (simp add: run_rule_def)
    note p = reported_proven [OF c(1) this]
    have "all_proven rule (w_clock w (w_tick ?w)) (w_saved w) (rows_of_rule rule (w_db w1))"
      unfolding all_proven_def
    proof
      fix i assume "i \<in> set (rows_of_rule rule (w_db w1))"
      then have "ir_insight i \<in> set (reported rule (w_db w1))" by (auto simp: rows_of_rule_def reported_def)
      from p [OF this] show "\<exists>r\<in>set (t_resources (w_saved w)). ins_resource (ir_insight i) = Some (rr_id r) \<and>
          proven (get_default RULE_SOURCES rule DEFAULT_SOURCE) (Some DEFAULT_SCOPE_MAX_AGE) (w_clock w (w_tick ?w)) (w_saved w) r"
        by (metis c(2) open_close_simps(1))
    qed
    then show ?thesis using c(3) assms(1) fin [OF that(1)] by (auto simp: mono_def intro: all_proven_earlier)
  qed
  have others: "rows_of_rule other (w_saved w1) = rows_of_rule other (w_saved w)" if "other \<noteq> rule" for other
  proof (cases r)
    case (Inl e)
    then show ?thesis using keep by (simp add: rows_of_rule_def)
  next
    case (Inr res)
    then show ?thesis using fin [OF Inr] only_rule_others [OF _ that] by (metis open_close_simps(1))
  qed
  show ?thesis using inv log keep others fresh_proof
    by (cases r) (auto simp: session_result_def same_inventory_def log_is_def close_session_def)
qed

section \<open>The whole command\<close>

lemma one_by_one:
  assumes "mono (w_clock w)" and "distinct rules" and "set rules \<subseteq> set RUNNERS"
    and "run_one_by_one sha local_date today plabel tag_key rules w = (failed, w')"
  shows "inventory (w_saved w') = inventory (w_saved w) \<and> w_clock w' = w_clock w \<and> w_tick w \<le> w_tick w' \<and> set failed \<subseteq> set rules \<and>
    map nu_rule (t_insight_runs (w_saved w')) = map nu_rule (t_insight_runs (w_saved w)) @ rules \<and>
    (\<forall>rule. rule \<notin> set rules \<or> rule \<in> set failed \<longrightarrow> rows_of_rule rule (w_saved w') = rows_of_rule rule (w_saved w)) \<and>
    (\<forall>rule\<in>set rules - set failed. rule \<noteq> ''chargeback'' \<longrightarrow> all_proven rule (w_clock w (w_tick w)) (w_saved w) (rows_of_rule rule (w_saved w')))"
  using assms
proof (induction rules arbitrary: w failed)
  case (Cons rule rules)
  obtain r w1 where r: "run_rule sha local_date rule today plabel tag_key (open_session w) = (r, w1)" by (metis surj_pair)
  obtain failed1 where rest: "run_one_by_one sha local_date today plabel tag_key rules (close_session w1) = (failed1, w')"
    and failed: "failed = (if \<exists>e. r = Inl e then rule # failed1 else failed1)"
    using Cons.prems(4) r by (auto simp: Let_def split: sum.splits prod.splits)
  have s: "session_result rule (\<exists>e. r = Inl e) w (close_session w1)"
    by (rule session_of_rule [OF Cons.prems(1) _ r]) (use Cons.prems(3) in simp)
  have m: "mono (w_clock (close_session w1))" using s Cons.prems(1) by (simp add: session_result_def)
  note ih = Cons.IH [OF m _ _ rest]
  have ih: "inventory (w_saved w') = inventory (w_saved (close_session w1)) \<and> w_clock w' = w_clock (close_session w1) \<and> w_tick (close_session w1) \<le> w_tick w' \<and>
      set failed1 \<subseteq> set rules \<and>
      map nu_rule (t_insight_runs (w_saved w')) = map nu_rule (t_insight_runs (w_saved (close_session w1))) @ rules \<and>
      (\<forall>rule. rule \<notin> set rules \<or> rule \<in> set failed1 \<longrightarrow> rows_of_rule rule (w_saved w') = rows_of_rule rule (w_saved (close_session w1))) \<and>
      (\<forall>rule\<in>set rules - set failed1. rule \<noteq> ''chargeback'' \<longrightarrow> all_proven rule (w_clock (close_session w1) (w_tick (close_session w1)))
        (w_saved (close_session w1)) (rows_of_rule rule (w_saved w')))"
    by (rule ih) (use Cons.prems in simp_all)
  have new: "rule \<notin> set rules" using Cons.prems(2) by simp
  have "rows_of_rule x (w_saved w') = rows_of_rule x (w_saved w)" if "x \<notin> set (rule # rules) \<or> x \<in> set failed" for x
  proof (cases "x = rule")
    case True
    then have "\<exists>e. r = Inl e" using that failed new ih by (auto split: if_splits)
    then have "t_insights (w_saved (close_session w1)) = t_insights (w_saved w)" using s by (simp add: session_result_def)
    then show ?thesis using ih new True by (simp add: rows_of_rule_def)
  next
    case False
    then have "x \<notin> set rules \<or> x \<in> set failed1" using that failed by (auto split: if_splits)
    then show ?thesis using ih s False by (simp add: session_result_def)
  qed
  moreover have "all_proven x (w_clock w (w_tick w)) (w_saved w) (rows_of_rule x (w_saved w'))"
    if "x \<in> set (rule # rules) - set failed" "x \<noteq> ''chargeback''" for x
  proof (cases "x = rule")
    case True
    then have "\<not> (\<exists>e. r = Inl e)" using that failed by (auto split: if_splits)
    then have "all_proven rule (w_clock w (w_tick w)) (w_saved w) (rows_of_rule rule (w_saved (close_session w1)))"
      using s that True by (simp add: session_result_def)
    then show ?thesis using ih new True by simp
  next
    case False
    then have "x \<in> set rules - set failed1" using that failed by (auto split: if_splits)
    then have "all_proven x (w_clock (close_session w1) (w_tick (close_session w1))) (w_saved (close_session w1)) (rows_of_rule x (w_saved w'))"
      using ih that by blast
    moreover have "w_clock w (w_tick w) \<le> w_clock (close_session w1) (w_tick (close_session w1))" "inventory (w_saved (close_session w1)) = inventory (w_saved w)"
      using s Cons.prems(1) unfolding session_result_def by (auto simp: mono_def)
    ultimately show ?thesis by (rule all_proven_earlier)
  qed
  moreover have "set failed \<subseteq> set (rule # rules)" using ih failed by auto
  ultimately show ?case using s ih by (simp add: session_result_def)
qed simp

text \<open>C6: The command that runs every rule isolates the rules from each other. Each rule of the registry is run once, whatever the others
  did, and the log shows one row for each; the inventory is not touched. A rule that raises is the reason for the exit code 2 and
  keeps the report it had; after every other resource rule the store holds only insights about resources whose scope a
  scan proves that was fresh when the command began.\<close>

theorem nightly_run_isolates_rules:
  assumes "mono (w_clock w)" and "run_insights_main sha local_date None today plabel tag_key w = (code, w')"
  shows "\<exists>failed \<subseteq> set RUNNERS. code = (if failed = {} then 0 else 2) \<and> inventory (w_saved w') = inventory (w_saved w) \<and>
    map nu_rule (t_insight_runs (w_saved w')) = map nu_rule (t_insight_runs (w_saved w)) @ sort RUNNERS \<and>
    (\<forall>rule\<in>failed. rows_of_rule rule (w_saved w') = rows_of_rule rule (w_saved w)) \<and>
    (\<forall>rule\<in>set RUNNERS - failed. rule \<noteq> ''chargeback'' \<longrightarrow>
       all_proven rule (w_clock w (w_tick w)) (w_saved w) (rows_of_rule rule (w_saved w')))"
proof -
  obtain failed where f: "run_one_by_one sha local_date today plabel tag_key (sort RUNNERS) w = (failed, w')" "code = (if failed = [] then 0 else 2)"
    using assms(2) by (auto simp: run_insights_main_def split: prod.splits)
  have "distinct RUNNERS" by (simp add: RUNNERS_def RESOURCE_RULES_def)
  then have "distinct (sort RUNNERS)" "set (sort RUNNERS) \<subseteq> set RUNNERS" by simp_all
  from one_by_one [OF assms(1) this f(1)] show ?thesis using f(2) by (intro exI [of _ "set failed"]) auto
qed

theorem nightly_run_isolates_rules_witness:
  "\<exists>code failed w'. run_insights_main (\<lambda>s. s) (\<lambda>_. Date 2026 7 1) None None ''all-time'' None demo_world = (code, w') \<and> (code = 0 \<longleftrightarrow> failed = {}) \<and>
    length (t_insight_runs (w_saved w')) = 8 \<and> t_resources (w_saved w') = t_resources demo_db \<and>
    (if gp2_rule_name \<in> failed then rows_of_rule gp2_rule_name (w_saved w') = rows_of_rule gp2_rule_name demo_db
     else all_proven gp2_rule_name 20 demo_db (rows_of_rule gp2_rule_name (w_saved w')))"
proof -
  obtain code w' where run: "run_insights_main (\<lambda>s. s) (\<lambda>_. Date 2026 7 1) None None ''all-time'' None demo_world = (code, w')" by (metis surj_pair)
  have m: "mono (w_clock demo_world)" using demo_clock by (simp add: clock_ok_def)
  have n: "length (sort RUNNERS) = 8" "w_saved demo_world = demo_db" "t_insight_runs demo_db = []" "w_clock demo_world (w_tick demo_world) = 20"
    "gp2_rule_name \<in> set RUNNERS" "gp2_rule_name \<noteq> ''chargeback''"
    by (simp_all add: RUNNERS_def RESOURCE_RULES_def demo_world_def demo_db_def empty_db_def)
  from nightly_run_isolates_rules [OF m run] obtain failed where f: "code = (if failed = {} then 0 else 2)" "inventory (w_saved w') = inventory demo_db"
    "map nu_rule (t_insight_runs (w_saved w')) = sort RUNNERS" "\<forall>rule\<in>failed. rows_of_rule rule (w_saved w') = rows_of_rule rule demo_db"
    "\<forall>rule\<in>set RUNNERS - failed. rule \<noteq> ''chargeback'' \<longrightarrow> all_proven rule 20 demo_db (rows_of_rule rule (w_saved w'))"
    unfolding n by auto
  have "length (t_insight_runs (w_saved w')) = 8" using f(3) n(1) by (metis length_map)
  then show ?thesis using run f n(5,6) by (intro exI [of _ code] exI [of _ failed] exI [of _ w']) (auto simp: inventory_def split: if_splits)
qed

end
