(* ===== verification/Replay.thy ===== *)
theory Replay
  imports CollectorAws
begin

text \<open>
  The operator's tool that rebuilds facts from the stored observations
  (\<open>cli/replay_facts.py\<close>). Observations are replayed in the order of their time; only the RDS source has a
  translator. The command line around it is left out. The main result is what the tool promises: after a replay a resource has
  the facts its latest scan wrote.
\<close>

definition SUPPORTED_SOURCES :: "string list" where
  "SUPPORTED_SOURCES = [RDS_SOURCE]"

text \<open>\<open>_payload_to_db\<close>: a creation time that does not parse is dropped.\<close>

definition payload_time :: "payload \<Rightarrow> pyval" where
  "payload_time p = (case pget p ''InstanceCreateTime'' of
     PStr s \<Rightarrow> if s = [] then PNone else (case fromisoformat s of Inl _ \<Rightarrow> PNone | Inr t \<Rightarrow> PDateTime t)
   | _ \<Rightarrow> PNone)"

definition wrapped :: "payload \<Rightarrow> string \<Rightarrow> string \<Rightarrow> pyval" where
  "wrapped p outer inner = (if truthy (pget p outer) then PDict [(inner, pget p outer)] else PNone)"

definition payload_to_db :: "payload \<Rightarrow> string \<Rightarrow> payload" where
  "payload_to_db p region =
    copy_keys p [''DBInstanceArn'', ''DBInstanceIdentifier'', ''Engine'', ''EngineVersion'', ''DBInstanceClass'', ''DBInstanceStatus'', ''AllocatedStorage''] @
    [(''InstanceCreateTime'', payload_time p)] @ copy_keys p [''MultiAZ'', ''StorageEncrypted''] @
    [(''DBSubnetGroup'', wrapped p ''DBSubnetGroup'' ''DBSubnetGroupName''), (''Endpoint'', wrapped p ''Endpoint'' ''Address''),
     (''_region'', PStr region)]"

text \<open>The observations of the query. With an account the join drops those whose resource or account is missing.\<close>

definition replayed_rows :: "string option \<Rightarrow> instant option \<Rightarrow> db \<Rightarrow> observation_row list" where
  "replayed_rows account since d =
    filter (\<lambda>x. pred_option (\<lambda>t. t \<le> obs_observed_at (or_observation x)) since \<and>
        pred_option (\<lambda>ext. \<exists>r\<in>set (t_resources d). rr_id r = obs_resource (or_observation x) \<and>
          (\<exists>a\<in>set (t_accounts d). ac_id a = rr_account r \<and> ac_external a = ext)) account)
      (sort_key (\<lambda>x. obs_observed_at (or_observation x)) (t_observations d))"

record replay_stats =
  rp_upserted :: nat
  rp_skipped :: nat

text \<open>One observation that was not seen before.\<close>

definition replay_one :: "string list \<Rightarrow> bool \<Rightarrow> observation_row \<Rightarrow> replay_stats \<Rightarrow> world \<Rightarrow> replay_stats res \<times> world" where
  "replay_one sources dry row s w =
    (let obs = or_observation row; skip = (Inr (s\<lparr>rp_skipped := Suc (rp_skipped s)\<rparr>), w) in
     if obs_source obs \<notin> set sources then skip
     else case find (\<lambda>r. rr_id r = obs_resource obs) (t_resources (w_db w)) of
       None \<Rightarrow> skip
     | Some r \<Rightarrow>
       if obs_source obs \<noteq> RDS_SOURCE then skip
       else (case db_to_facts (rr_id r) (uuid_str (rr_account r)) (payload_to_db (obs_payload obs) (rr_region r)) (obs_observed_at obs) of
           Inl e \<Rightarrow> (Inl e, w)
         | Inr fs \<Rightarrow>
           (let s = s\<lparr>rp_upserted := rp_upserted s + length fs\<rparr> in
            if dry then (Inr s, w)
            else (case upsert_facts fs (or_run row) w of (Inl e, w) \<Rightarrow> (Inl e, w) | (Inr _, w) \<Rightarrow> (Inr s, w)))))"

fun replay_rows :: "string list \<Rightarrow> bool \<Rightarrow> observation_row list \<Rightarrow> uuid list \<Rightarrow> replay_stats \<Rightarrow> world \<Rightarrow> replay_stats res \<times> world" where
  "replay_rows sources dry [] seen s w = (Inr s, w)"
| "replay_rows sources dry (row # rows) seen s w =
    (if or_id row \<in> set seen then replay_rows sources dry rows seen s w
     else case replay_one sources dry row s w of
       (Inl e, w) \<Rightarrow> (Inl e, w)
     | (Inr s, w) \<Rightarrow> replay_rows sources dry rows (or_id row # seen) s w)"

text \<open>The number of observations scanned comes with the statistics.\<close>

definition replay_observations :: "string option \<Rightarrow> instant option \<Rightarrow> string list option \<Rightarrow> bool \<Rightarrow> world \<Rightarrow> (nat \<times> replay_stats) res \<times> world" where
  "replay_observations account since sources dry w =
    (let chosen = (case sources of None \<Rightarrow> SUPPORTED_SOURCES | Some [] \<Rightarrow> SUPPORTED_SOURCES | Some ss \<Rightarrow> ss) in
     if \<not> set chosen \<subseteq> set SUPPORTED_SOURCES then (Inl ValueError, w)
     else let rows = replayed_rows account since (w_db w) in
       (case replay_rows chosen dry rows [] \<lparr>rp_upserted = 0, rp_skipped = 0\<rparr> w of
          (Inl e, w) \<Rightarrow> (Inl e, w)
        | (Inr s, w) \<Rightarrow> (Inr (length rows, s), if dry then w else commit w)))"

section \<open>What an upsert leaves\<close>

lemma same_fact_iff: "same_fact f g \<longleftrightarrow> fact_resource g = fact_resource f \<and> fact_namespace g = fact_namespace f \<and> fact_key g = fact_key f \<and> fact_source g = fact_source f"
  by (simp add: same_fact_def)

text \<open>The row that holds the current value of a fact.\<close>

definition holds_fact :: "fact \<Rightarrow> uuid option \<Rightarrow> fact_row \<Rightarrow> bool" where
  "holds_fact f run r = (same_fact f (fr_fact r) \<and> fact_value (fr_fact r) = fact_value f \<and> fact_state (fr_fact r) = fact_state f \<and>
     fact_observed_at (fr_fact r) = fact_observed_at f \<and> fr_run r = run)"

lemma holds_refresh: "same_fact f (fr_fact r) \<Longrightarrow> holds_fact f run (refresh_fact run f r)"
  by (simp add: holds_fact_def refresh_fact_def same_fact_def)

lemma upsert_loop_keeps:
  assumes "upsert_loop run fs rows pending n w = (Inr (rows', pending', n'), w')" and "r \<in> set (rows @ pending)"
    and "\<And>f. f \<in> set fs \<Longrightarrow> \<not> same_fact f (fr_fact r)"
  shows "r \<in> set (rows' @ pending')"
  using assms
proof (induction fs arbitrary: rows pending n w)
  case (Cons f fs)
  have no: "\<not> same_fact f (fr_fact r)" "\<And>f. f \<in> set fs \<Longrightarrow> \<not> same_fact f (fr_fact r)" using Cons.prems(3) by simp_all
  consider "filter (\<lambda>r. same_fact f (fr_fact r)) rows = []" | x where "filter (\<lambda>r. same_fact f (fr_fact r)) rows = [x]"
    using Cons.prems(1) by (auto split: list.splits)
  then show ?case
  proof cases
    case 1
    then show ?thesis using Cons.prems(1,2) Cons.IH [OF _ _ no(2)] by (auto simp: fresh_def Let_def)
  next
    case 2
    have "r \<in> set (update_where (\<lambda>r. same_fact f (fr_fact r)) (refresh_fact run f) rows @ pending)"
      using Cons.prems(2) no(1) by (force simp: set_update_where)
    then show ?thesis using Cons.prems(1) 2 Cons.IH [OF _ _ no(2)] by auto
  qed
qed simp

lemma upsert_loop_holds:
  assumes "upsert_loop run fs rows pending n w = (Inr (rows', pending', n'), w')"
    and "distinct (map (\<lambda>f. (fact_resource f, fact_namespace f, fact_key f, fact_source f)) fs)" and "f \<in> set fs"
  shows "\<exists>r\<in>set (rows' @ pending'). holds_fact f run r"
  using assms
proof (induction fs arbitrary: rows pending n w)
  case (Cons g fs)
  have later: "\<not> same_fact h (fr_fact r)" if "h \<in> set fs" "same_fact g (fr_fact r)" for h r
    using that Cons.prems(2) by (force simp: same_fact_def)
  consider "filter (\<lambda>r. same_fact g (fr_fact r)) rows = []" | x where "filter (\<lambda>r. same_fact g (fr_fact r)) rows = [x]"
    using Cons.prems(1) by (auto split: list.splits)
  then show ?case
  proof cases
    case 1
    let ?r = "\<lparr>fr_id = w_uuids w (w_next w), fr_fact = g, fr_run = run\<rparr>"
    have l: "upsert_loop run fs rows (pending @ [?r]) n (w\<lparr>w_next := Suc (w_next w)\<rparr>) = (Inr (rows', pending', n'), w')"
      using Cons.prems(1) 1 by (simp add: fresh_def)
    have "holds_fact g run ?r" by (simp add: holds_fact_def same_fact_def)
    moreover have "?r \<in> set (rows' @ pending')"
      by (rule upsert_loop_keeps [OF l]) (use later [of _ ?r] in \<open>auto simp: same_fact_def\<close>)
    ultimately show ?thesis using Cons.IH [OF l] Cons.prems(2,3) by auto
  next
    case 2
    let ?rows = "update_where (\<lambda>r. same_fact g (fr_fact r)) (refresh_fact run g) rows"
    have l: "upsert_loop run fs ?rows pending (Suc n) w = (Inr (rows', pending', n'), w')" using Cons.prems(1) 2 by simp
    have x: "x \<in> set rows" "same_fact g (fr_fact x)" using 2 by (auto simp: filter_eq_Cons_iff)
    then have "refresh_fact run g x \<in> set ?rows" by (force simp: set_update_where)
    moreover note h = holds_refresh [OF x(2), of run]
    ultimately have "refresh_fact run g x \<in> set (rows' @ pending')"
      using later h by (intro upsert_loop_keeps [OF l]) (auto simp: holds_fact_def)
    then show ?thesis using Cons.IH [OF l] Cons.prems(2,3) h by auto
  qed
qed simp

lemma upsert_facts_effect:
  assumes "upsert_facts fs run w = (Inr n, w')"
  shows "r \<in> set (t_facts (w_db w)) \<Longrightarrow> (\<And>f. f \<in> set fs \<Longrightarrow> \<not> same_fact f (fr_fact r)) \<Longrightarrow> r \<in> set (t_facts (w_db w'))"
    and "distinct (map (\<lambda>f. (fact_resource f, fact_namespace f, fact_key f, fact_source f)) fs) \<Longrightarrow> f \<in> set fs \<Longrightarrow>
      \<exists>r\<in>set (t_facts (w_db w')). holds_fact f run r"
    and "t_resources (w_db w') = t_resources (w_db w)"
proof -
  obtain rows pending k w1 where l: "upsert_loop run fs (t_facts (w_db w)) [] 0 w = (Inr (rows, pending, k), w1)"
    and t: "t_facts (w_db w') = rows @ pending"
    using assms by (auto simp: upsert_facts_def with_facts_def split: prod.splits sum.splits if_splits)
  show "r \<in> set (t_facts (w_db w)) \<Longrightarrow> (\<And>f. f \<in> set fs \<Longrightarrow> \<not> same_fact f (fr_fact r)) \<Longrightarrow> r \<in> set (t_facts (w_db w'))"
    using upsert_loop_keeps [OF l] by (simp add: t)
  show "distinct (map (\<lambda>f. (fact_resource f, fact_namespace f, fact_key f, fact_source f)) fs) \<Longrightarrow> f \<in> set fs \<Longrightarrow>
      \<exists>r\<in>set (t_facts (w_db w')). holds_fact f run r"
    using upsert_loop_holds [OF l] by (simp add: t)
  show "t_resources (w_db w') = t_resources (w_db w)" using upsert_facts_step [OF assms] by simp
qed

section \<open>The replay reproduces the scan\<close>

lemma payload_roundtrip:
  assumes "db_to_observation rid raw seen = Inr obs" and "pget raw ''_region'' = PStr region"
  shows "db_to_facts r acc (payload_to_db (obs_payload obs) region) t = db_to_facts r acc raw t"
proof -
  let ?p = "obs_payload obs"
  have p: "pget ?p ''DBInstanceClass'' = pget raw ''DBInstanceClass''" "pget ?p ''Engine'' = pget raw ''Engine''"
      "pget ?p ''EngineVersion'' = pget raw ''EngineVersion''"
    using assms(1) by (auto simp: db_to_observation_def rbind_Inr_iff rmap_Inr_iff make_observation_def copy_keys_def pget_Cons)
  have "pget (payload_to_db ?p region) ''DBInstanceClass'' = pget raw ''DBInstanceClass''"
    "pget (payload_to_db ?p region) ''Engine'' = pget raw ''Engine''"
    "pget (payload_to_db ?p region) ''EngineVersion'' = pget raw ''EngineVersion''"
    "pget (payload_to_db ?p region) ''_region'' = pget raw ''_region''"
    by (simp_all add: payload_to_db_def copy_keys_def pget_Cons p assms(2))
  then show ?thesis by (simp add: db_to_facts_def Let_def)
qed

lemma db_facts_keys:
  assumes "db_to_facts r acc db t = Inr fs"
  shows "f \<in> set fs \<Longrightarrow> fact_resource f = Some r \<and> fact_source f = RDS_SOURCE"
    and "distinct (map (\<lambda>f. (fact_resource f, fact_namespace f, fact_key f, fact_source f)) fs)"
  using assms by (auto simp: db_to_facts_def Let_def rmap_Inr_iff plain_fact_def)


lemma replay_one_facts:
  assumes "replay_one sources False row s w = (Inr s', w')"
  shows "t_resources (w_db w') = t_resources (w_db w)"
    and "x \<in> set (t_facts (w_db w)) \<Longrightarrow> fact_resource (fr_fact x) \<noteq> Some (obs_resource (or_observation row)) \<or> obs_source (or_observation row) \<noteq> RDS_SOURCE \<Longrightarrow>
      x \<in> set (t_facts (w_db w'))"
    and "obs_source (or_observation row) \<in> set sources \<Longrightarrow> obs_source (or_observation row) = RDS_SOURCE \<Longrightarrow>
      find (\<lambda>r. rr_id r = obs_resource (or_observation row)) (t_resources (w_db w)) = Some r \<Longrightarrow>
      db_to_facts (rr_id r) (uuid_str (rr_account r)) (payload_to_db (obs_payload (or_observation row)) (rr_region r)) (obs_observed_at (or_observation row)) = Inr fs \<Longrightarrow>
      f \<in> set fs \<Longrightarrow> \<exists>x\<in>set (t_facts (w_db w')). holds_fact f (or_run row) x"
proof -
  let ?obs = "or_observation row"
  consider "w' = w" "\<not> (obs_source ?obs \<in> set sources \<and> obs_source ?obs = RDS_SOURCE \<and> find (\<lambda>r. rr_id r = obs_resource ?obs) (t_resources (w_db w)) \<noteq> None)"
    | r fs n where "find (\<lambda>r. rr_id r = obs_resource ?obs) (t_resources (w_db w)) = Some r" "obs_source ?obs = RDS_SOURCE"
      "db_to_facts (rr_id r) (uuid_str (rr_account r)) (payload_to_db (obs_payload ?obs) (rr_region r)) (obs_observed_at ?obs) = Inr fs"
      "upsert_facts fs (or_run row) w = (Inr n, w')"
    using assms
    by (cases "obs_source ?obs \<in> set sources"; cases "find (\<lambda>r. rr_id r = obs_resource ?obs) (t_resources (w_db w))"; cases "obs_source ?obs = RDS_SOURCE")
      (auto simp: replay_one_def Let_def split: sum.splits prod.splits)
  then have "t_resources (w_db w') = t_resources (w_db w) \<and>
    (x \<in> set (t_facts (w_db w)) \<longrightarrow> fact_resource (fr_fact x) \<noteq> Some (obs_resource ?obs) \<or> obs_source ?obs \<noteq> RDS_SOURCE \<longrightarrow> x \<in> set (t_facts (w_db w'))) \<and>
    (obs_source ?obs \<in> set sources \<longrightarrow> obs_source ?obs = RDS_SOURCE \<longrightarrow>
      find (\<lambda>r. rr_id r = obs_resource ?obs) (t_resources (w_db w)) = Some r \<longrightarrow>
      db_to_facts (rr_id r) (uuid_str (rr_account r)) (payload_to_db (obs_payload ?obs) (rr_region r)) (obs_observed_at ?obs) = Inr fs \<longrightarrow>
      f \<in> set fs \<longrightarrow> (\<exists>x\<in>set (t_facts (w_db w')). holds_fact f (or_run row) x))"
  proof cases
    case 1
    then show ?thesis by auto
  next
    case (2 r0 fs0 n)
    have "rr_id r0 = obs_resource ?obs" using find_Some_iff' [OF 2(1)] by simp
    then have "\<not> same_fact g (fr_fact x)" if "g \<in> set fs0" "fact_resource (fr_fact x) \<noteq> Some (obs_resource ?obs)" for g
      using db_facts_keys(1) [OF 2(3) that(1)] that(2) by (auto simp: same_fact_def)
    then show ?thesis using upsert_facts_effect [OF 2(4)] db_facts_keys(2) [OF 2(3)] 2(1,2,3) by auto
  qed
  then show "t_resources (w_db w') = t_resources (w_db w)"
    and "x \<in> set (t_facts (w_db w)) \<Longrightarrow> fact_resource (fr_fact x) \<noteq> Some (obs_resource ?obs) \<or> obs_source ?obs \<noteq> RDS_SOURCE \<Longrightarrow>
      x \<in> set (t_facts (w_db w'))"
    and "obs_source ?obs \<in> set sources \<Longrightarrow> obs_source ?obs = RDS_SOURCE \<Longrightarrow>
      find (\<lambda>r. rr_id r = obs_resource ?obs) (t_resources (w_db w)) = Some r \<Longrightarrow>
      db_to_facts (rr_id r) (uuid_str (rr_account r)) (payload_to_db (obs_payload ?obs) (rr_region r)) (obs_observed_at ?obs) = Inr fs \<Longrightarrow>
      f \<in> set fs \<Longrightarrow> \<exists>x\<in>set (t_facts (w_db w')). holds_fact f (or_run row) x"
    by blast+
qed

lemma replay_rows_append:
  "replay_rows sources dry (xs @ ys) seen s w = (Inr s', w') \<Longrightarrow>
    \<exists>seen1 s1 w1. replay_rows sources dry xs seen s w = (Inr s1, w1) \<and> set seen1 = set seen \<union> or_id ` set xs \<and>
      replay_rows sources dry ys seen1 s1 w1 = (Inr s', w')"
proof (induction xs arbitrary: seen s w)
  case Nil
  then show ?case by auto
next
  case (Cons x xs)
  show ?case
  proof (cases "or_id x \<in> set seen")
    case True
    then show ?thesis using Cons.IH [of seen s w] Cons.prems by (auto simp: insert_absorb)
  next
    case False
    then obtain s1 w1 where one: "replay_one sources dry x s w = (Inr s1, w1)"
      using Cons.prems by (auto split: prod.splits sum.splits)
    then show ?thesis using Cons.IH [of "or_id x # seen" s1 w1] Cons.prems False by auto
  qed
qed

lemma replay_rows_keep:
  assumes "replay_rows sources False rows seen s w = (Inr s', w')"
  shows "t_resources (w_db w') = t_resources (w_db w)"
    and "x \<in> set (t_facts (w_db w)) \<Longrightarrow> fact_resource (fr_fact x) = Some rid \<Longrightarrow>
      (\<And>y. y \<in> set rows \<Longrightarrow> obs_resource (or_observation y) = rid \<Longrightarrow> obs_source (or_observation y) \<noteq> RDS_SOURCE) \<Longrightarrow> x \<in> set (t_facts (w_db w'))"
  using assms
proof (induction rows arbitrary: seen s w)
  case (Cons y rows)
  {
    case 1
    show ?case
    proof (cases "or_id y \<in> set seen")
      case False
      then obtain s1 w1 where one: "replay_one sources False y s w = (Inr s1, w1)" "replay_rows sources False rows (or_id y # seen) s1 w1 = (Inr s', w')"
        using 1 by (auto split: prod.splits sum.splits)
      then show ?thesis using Cons.IH(1) [OF one(2)] replay_one_facts(1) [OF one(1)] by simp
    qed (use 1 Cons.IH(1) in auto)
  next
    case 2
    show ?case
    proof (cases "or_id y \<in> set seen")
      case True
      then show ?thesis using 2 Cons.IH(2) by auto
    next
      case False
      then obtain s1 w1 where one: "replay_one sources False y s w = (Inr s1, w1)" "replay_rows sources False rows (or_id y # seen) s1 w1 = (Inr s', w')"
        using 2(4) by (auto split: prod.splits sum.splits)
      have "x \<in> set (t_facts (w_db w1))" using replay_one_facts(2) [OF one(1) 2(1)] 2(2,3) by auto
      then show ?thesis using Cons.IH(2) [OF _ 2(2) _ one(2)] 2(3) by auto
    qed
  }
qed simp_all

text \<open>C10: The replay promises that a resource gets the facts its latest scan would write. Take the last RDS observation of a resource among those replayed, as the
  collector made it from the raw item of its scan: after a replay that succeeds, the store holds every fact that item yields, with its value, state and
  time, and attributed to the run of that scan, whatever the facts were before.\<close>

theorem replay_restores_latest_scan:
  assumes run: "replay_observations account since sources False w = (Inr (n, s), w')"
    and rows: "replayed_rows account since (w_db w) = before @ row # after" "distinct (map or_id (before @ row # after))"
    and scan: "db_to_observation rid raw seen = Inr (or_observation row)"
    and res: "find (\<lambda>r. rr_id r = rid) (t_resources (w_db w)) = Some r" "pget raw ''_region'' = PStr (rr_region r)"
    and latest: "\<forall>y\<in>set after. obs_resource (or_observation y) = rid \<longrightarrow> obs_source (or_observation y) \<noteq> RDS_SOURCE"
    and facts: "db_to_facts rid (uuid_str (rr_account r)) raw seen = Inr fs"
  shows "\<forall>f\<in>set fs. \<exists>x\<in>set (t_facts (w_saved w')). holds_fact f (or_run row) x"
proof
  fix f
  assume f: "f \<in> set fs"
  define chosen where "chosen = (case sources of None \<Rightarrow> SUPPORTED_SOURCES | Some [] \<Rightarrow> SUPPORTED_SOURCES | Some ss \<Rightarrow> ss)"
  have c: "RDS_SOURCE \<in> set chosen"
  proof -
    have "chosen \<noteq> []" "set chosen \<subseteq> {RDS_SOURCE}"
      using run by (auto simp: replay_observations_def chosen_def [symmetric] Let_def SUPPORTED_SOURCES_def split: if_splits)
        (auto simp: chosen_def SUPPORTED_SOURCES_def split: option.splits list.splits)
    then show ?thesis by (cases chosen) auto
  qed
  obtain w1 where r: "replay_rows chosen False (before @ row # after) [] \<lparr>rp_upserted = 0, rp_skipped = 0\<rparr> w = (Inr s, w1)" and w': "w' = commit w1"
    using run by (auto simp: replay_observations_def chosen_def [symmetric] rows Let_def split: if_splits prod.splits sum.splits)
  obtain seen1 s1 w2 where b: "replay_rows chosen False before [] \<lparr>rp_upserted = 0, rp_skipped = 0\<rparr> w = (Inr s1, w2)"
      "set seen1 = or_id ` set before" "replay_rows chosen False (row # after) seen1 s1 w2 = (Inr s, w1)"
    using replay_rows_append [OF r] by auto
  have "or_id row \<notin> set seen1" using rows(2) b(2) by auto
  then obtain s2 w3 where one: "replay_one chosen False row s1 w2 = (Inr s2, w3)" "replay_rows chosen False after (or_id row # seen1) s2 w3 = (Inr s, w1)"
    using b(3) by (auto split: prod.splits sum.splits)
  have obs: "obs_resource (or_observation row) = rid" "obs_source (or_observation row) = RDS_SOURCE" "obs_observed_at (or_observation row) = seen"
    using scan by (auto simp: db_to_observation_def rbind_Inr_iff rmap_Inr_iff make_observation_def)
  have found: "find (\<lambda>r. rr_id r = rid) (t_resources (w_db w2)) = Some r" using replay_rows_keep(1) [OF b(1)] res(1) by simp
  have "rr_id r = rid" using find_Some_iff' [OF res(1)] by simp
  then obtain x where x: "x \<in> set (t_facts (w_db w3))" "holds_fact f (or_run row) x"
    using replay_one_facts(3) [OF one(1) _ _ _ _ f, unfolded obs, OF c refl found] payload_roundtrip [OF scan res(2)] facts by auto
  moreover have "fact_resource (fr_fact x) = Some rid"
    using x(2) db_facts_keys(1) [OF facts f] by (simp add: holds_fact_def same_fact_def)
  ultimately have "x \<in> set (t_facts (w_db w1))" using replay_rows_keep(2) [OF one(2)] latest by blast
  then show "\<exists>x\<in>set (t_facts (w_saved w')). holds_fact f (or_run row) x"
    using x(2) by (auto simp: w' commit_def begin_tx_def now_def)
qed

lemma upsert_loop_empty: "\<exists>ps w'. upsert_loop run fs [] pending n w = (Inr ([], pending @ ps, n), w') \<and> map fr_fact ps = fs"
proof (induction fs arbitrary: pending w)
  case (Cons f fs)
  obtain ps w' where "upsert_loop run fs [] (pending @ [\<lparr>fr_id = w_uuids w (w_next w), fr_fact = f, fr_run = run\<rparr>]) n (w\<lparr>w_next := Suc (w_next w)\<rparr>) =
      (Inr ([], (pending @ [\<lparr>fr_id = w_uuids w (w_next w), fr_fact = f, fr_run = run\<rparr>]) @ ps, n), w')" "map fr_fact ps = fs"
    using Cons.IH by blast
  then show ?case
    by (intro exI [of _ "\<lparr>fr_id = w_uuids w (w_next w), fr_fact = f, fr_run = run\<rparr> # ps"] exI [of _ w']) (simp add: fresh_def)
qed simp

lemma upsert_facts_empty:
  assumes "t_facts (w_db w) = []" and "distinct (map (\<lambda>f. (fact_resource f, fact_namespace f, fact_key f, fact_source f)) fs)"
  shows "\<exists>n w'. upsert_facts fs run w = (Inr n, w')"
proof -
  obtain ps w' where l: "upsert_loop run fs [] [] 0 w = (Inr ([], ps, 0), w')" "map fr_fact ps = fs"
    using upsert_loop_empty [of run fs "[]" 0 w] by auto
  have "distinct (map (\<lambda>r. (fact_resource (fr_fact r), fact_namespace (fr_fact r), fact_key (fr_fact r), fact_source (fr_fact r))) ps)"
    using assms(2) by (simp add: comp_def flip: l(2))
  then have "facts_unique ps" by (simp add: facts_unique_def distinct_map_filter)
  then show ?thesis using l(1) assms(1) by (simp add: upsert_facts_def)
qed

text \<open>The facts of a table that was lost, from one stored observation.\<close>

definition lost_observation :: observation_row where
  "lost_observation = \<lparr>or_id = 3, or_observation = (case db_to_observation 1 pg13_item 5 of Inr x \<Rightarrow> x), or_run = Some 9, or_ingested = 6\<rparr>"

definition lost_db :: db where
  "lost_db = empty_db\<lparr>t_resources := [\<lparr>rr_id = 1, rr_account = 2, rr_region = ''eu-west-1'', rr_type = RDS_RESOURCE_TYPE, rr_native = ''arn:db-1'',
     rr_first_seen = 0, rr_last_seen = 5, rr_retired = None\<rparr>], t_observations := [lost_observation]\<rparr>"

definition lost_world :: world where
  "lost_world = \<lparr>w_db = lost_db, w_saved = lost_db, w_clock = \<lambda>n. 20 + int n, w_tick = 0, w_uuids = \<lambda>n. of_nat n, w_next = 0, w_begin = 20\<rparr>"

theorem replay_restores_latest_scan_witness:
  "\<exists>n s w' fs. replay_observations None None None False lost_world = (Inr (n, s), w') \<and> db_to_facts 1 (uuid_str 2) pg13_item 5 = Inr fs \<and>
     length fs = 5 \<and> (\<forall>f\<in>set fs. \<exists>x\<in>set (t_facts (w_saved w')). holds_fact f (Some 9) x)"
proof -
  obtain fs where fs: "db_to_facts 1 (uuid_str 2) pg13_item 5 = Inr fs" "length fs = 5"
    by (simp add: db_to_facts_def Let_def pg13_item_def py_or_def)
  have scan: "db_to_observation 1 pg13_item 5 = Inr (or_observation lost_observation)"
    by (simp add: lost_observation_def db_to_observation_def pg13_item_def iso_or_none_def nested_def py_or_def)
  have rows: "replayed_rows None None (w_db lost_world) = [] @ lost_observation # []"
    by (simp add: replayed_rows_def lost_world_def lost_db_def empty_db_def)
  obtain r where r: "find (\<lambda>r. rr_id r = 1) (t_resources (w_db lost_world)) = Some r" "rr_id r = 1" "rr_account r = 2" "rr_region r = ''eu-west-1''"
    by (simp add: lost_world_def lost_db_def)
  have o1: "obs_resource (or_observation lost_observation) = 1" "obs_source (or_observation lost_observation) = RDS_SOURCE"
      "obs_observed_at (or_observation lost_observation) = 5" "or_run lost_observation = Some 9"
    using scan by (auto simp: db_to_observation_def rbind_Inr_iff rmap_Inr_iff make_observation_def lost_observation_def)
  have reg: "pget pg13_item ''_region'' = PStr (rr_region r)" by (simp add: pg13_item_def r)
  have "db_to_facts 1 (uuid_str 2) (payload_to_db (obs_payload (or_observation lost_observation)) (rr_region r)) 5 = Inr fs"
    using payload_roundtrip [OF scan reg] fs by simp
  moreover obtain n w1 where "upsert_facts fs (Some 9) lost_world = (Inr n, w1)"
    using upsert_facts_empty [of lost_world fs "Some 9"] db_facts_keys(2) [OF fs(1)] by (auto simp: lost_world_def lost_db_def empty_db_def)
  ultimately have "\<exists>n s w'. replay_observations None None None False lost_world = (Inr (n, s), w')"
    by (simp add: replay_observations_def rows SUPPORTED_SOURCES_def replay_one_def Let_def o1 r)
  then obtain n s w' where run: "replay_observations None None None False lost_world = (Inr (n, s), w')" by blast
  have "distinct (map or_id ([] @ lost_observation # []))" by simp
  from replay_restores_latest_scan [OF run rows this scan r(1) reg] fs show ?thesis using run by (auto simp: r o1)
qed

end
