(* ===== verification/Retention.thy ===== *)
theory Retention
  imports Access
begin

text \<open>
  Automatic deletion by age: the policies of a tenant, their defaults, the deletion of one table and the
  run over all enabled policies (\<open>retention.py\<close>), with the endpoint and the single-table mode of the command line that
  call them (\<open>routers/compliance.py\<close>, \<open>cli/retention.py\<close>).

  The world holds the rows of the tenant that the session is bound to.
\<close>

section \<open>Policies\<close>

definition DEFAULT_RETENTION_DAYS :: "(string, int) dict" where
  "DEFAULT_RETENTION_DAYS = [(''observations'', 90), (''focus_charges'', 365), (''insights'', 730), (''inconclusive'', 730), (''source_runs'', 180)]"

definition ALLOWED_TABLES :: "string list" where
  "ALLOWED_TABLES = dict_keys DEFAULT_RETENTION_DAYS"

definition default_policy :: "string \<Rightarrow> int \<Rightarrow> policy_row" where
  "default_policy table days = \<lparr>po_table = table, po_days = days, po_enabled = True, po_applied = None, po_deleted = None\<rparr>"

fun seed_policies :: "(string, int) dict \<Rightarrow> world \<Rightarrow> nat \<times> world" where
  "seed_policies [] w = (0, w)"
| "seed_policies ((table, days) # ds) w =
    (if \<exists>p\<in>set (t_policies (w_db w)). po_table p = table then seed_policies ds w
     else (let (n, w) = seed_policies ds (with_policies (\<lambda>ps. ps @ [default_policy table days]) w) in (Suc n, w)))"

definition seed_default_policies :: "world \<Rightarrow> nat \<times> world" where
  "seed_default_policies w = (let (n, w) = seed_policies DEFAULT_RETENTION_DAYS w in (n, if 0 < n then commit w else w))"

section \<open>One table\<close>

text \<open>The first microsecond of year 1, counted from 1970; a cutoff before it, or an age that no \<open>timedelta\<close> holds, raises.\<close>

definition MIN_INSTANT :: instant where
  "MIN_INSTANT = - 62135596800 * 1000000"

definition cutoff_of :: "int \<Rightarrow> instant \<Rightarrow> instant res" where
  "cutoff_of days t = (if 999999999 < days \<or> t - in_days days < MIN_INSTANT then Inl OverflowError else Inr (t - in_days days))"

text \<open>\<open>DELETE\<close> with the foreign keys: a deleted run is unset where a row names it, the tag rows of a deleted charge go with it.\<close>

definition delete_source_runs :: "(source_run \<Rightarrow> bool) \<Rightarrow> world \<Rightarrow> world" where
  "delete_source_runs old w =
    (let gone = (\<lambda>i. \<exists>r\<in>set (t_runs (w_db w)). old r \<and> i = Some (sr_id r)) in
     with_runs (filter (\<lambda>r. \<not> old r))
       (with_observations (map (\<lambda>x. if gone (or_run x) then x\<lparr>or_run := None\<rparr> else x))
         (with_facts (map (\<lambda>x. if gone (fr_run x) then x\<lparr>fr_run := None\<rparr> else x)) w)))"

definition delete_focus_charges :: "(focus_row \<Rightarrow> bool) \<Rightarrow> world \<Rightarrow> world" where
  "delete_focus_charges old w =
    (let gone = (\<lambda>i. \<exists>r\<in>set (t_focus (w_db w)). old r \<and> i = fo_id r) in
     with_focus (filter (\<lambda>r. \<not> old r)) (with_focus_tags (filter (\<lambda>t. \<not> gone (ft_charge t))) w))"

definition apply_retention :: "string \<Rightarrow> int \<Rightarrow> world \<Rightarrow> nat res \<times> world" where
  "apply_retention table days w =
    (if table \<notin> set ALLOWED_TABLES then (Inl ValueError, w)
     else if days < 0 then (Inl ValueError, w)
     else let (t, w) = now w in
       (case cutoff_of days t of
          Inl e \<Rightarrow> (Inl e, w)
        | Inr cutoff \<Rightarrow>
          if table = ''focus_charges'' then
            (let old = (\<lambda>r. fo_ingested r < cutoff) in (Inr (length (filter old (t_focus (w_db w)))), delete_focus_charges old w))
          else if table = ''observations'' then
            (let old = (\<lambda>x. or_ingested x < cutoff) in (Inr (length (filter old (t_observations (w_db w)))), with_observations (filter (\<lambda>x. \<not> old x)) w))
          else if table = ''insights'' then
            (let old = (\<lambda>x. ir_computed x < cutoff) in (Inr (length (filter old (t_insights (w_db w)))), with_insights (filter (\<lambda>x. \<not> old x)) w))
          else if table = ''inconclusive'' then
            (let old = (\<lambda>x. nr_computed x < cutoff) in (Inr (length (filter old (t_inconclusive (w_db w)))), with_inconclusive (filter (\<lambda>x. \<not> old x)) w))
          else
            (let old = (\<lambda>r. sr_started r < cutoff) in (Inr (length (filter old (t_runs (w_db w)))), delete_source_runs old w))))"

section \<open>All policies\<close>

text \<open>The rows as they are after the loop, the results, and the world. A \<open>ValueError\<close> disables the policy; another exception leaves the loop.\<close>

fun apply_policies :: "policy_row list \<Rightarrow> (string, int) dict \<Rightarrow> world \<Rightarrow> (policy_row list \<times> (string, int) dict) res \<times> world" where
  "apply_policies [] results w = (Inr ([], results), w)"
| "apply_policies (p # ps) results w =
    (if \<not> po_enabled p then
       (case apply_policies ps results w of (Inl e, w) \<Rightarrow> (Inl e, w) | (Inr (qs, results), w) \<Rightarrow> (Inr (p # qs, results), w))
     else case apply_retention (po_table p) (po_days p) w of
       (Inl ValueError, w) \<Rightarrow>
         (case apply_policies ps (dict_set (po_table p) (- 1) results) w of
            (Inl e, w) \<Rightarrow> (Inl e, w)
          | (Inr (qs, results), w) \<Rightarrow> (Inr (p\<lparr>po_enabled := False\<rparr> # qs, results), w))
     | (Inl e, w) \<Rightarrow> (Inl e, w)
     | (Inr n, w) \<Rightarrow>
         (let (t, w) = now w in
          case apply_policies ps (dict_set (po_table p) (int n) results) w of
            (Inl e, w) \<Rightarrow> (Inl e, w)
          | (Inr (qs, results), w) \<Rightarrow> (Inr (p\<lparr>po_applied := Some t, po_deleted := Some n\<rparr> # qs, results), w)))"

text \<open>Only the policies of the default tenant are selected.\<close>

definition apply_all_enabled :: "session_info \<Rightarrow> world \<Rightarrow> (string, int) dict res \<times> world" where
  "apply_all_enabled s w =
    (if tenant_or_default s \<noteq> DEFAULT_TENANT_ID then (Inr [], commit w)
     else case apply_policies (t_policies (w_db w)) [] w of
       (Inl e, w) \<Rightarrow> (Inl e, w)
     | (Inr (ps, results), w) \<Rightarrow> (Inr results, commit (with_policies (\<lambda>_. ps) w)))"

definition list_retention_policies :: "db \<Rightarrow> policy_row list" where
  "list_retention_policies d = sort_key po_table (t_policies d)"

record retention_result =
  rt_tables :: nat
  rt_total :: int
  rt_per_table :: "(string, int) dict"

definition trigger_retention_run :: "session_info \<Rightarrow> world \<Rightarrow> retention_result res \<times> world" where
  "trigger_retention_run s w =
    (let (seeded, w) = seed_default_policies w in
     case apply_all_enabled s w of
       (Inl e, w) \<Rightarrow> (Inl e, w)
     | (Inr results, w) \<Rightarrow> (Inr \<lparr>rt_tables = length results, rt_total = sum_list (map (\<lambda>(k, v). max 0 v) results), rt_per_table = results\<rparr>, w))"

text \<open>The modes of the command that delete; the exit code is 2 on an exception.\<close>

definition retain_table :: "string \<Rightarrow> world \<Rightarrow> int \<times> world" where
  "retain_table table w =
    (case find (\<lambda>p. po_table p = table) (t_policies (w_db w)) of
       None \<Rightarrow> (1, w)
     | Some p \<Rightarrow>
       if \<not> po_enabled p then (0, w)
       else (case apply_retention (po_table p) (po_days p) w of
           (Inl e, w) \<Rightarrow> (2, rollback w)
         | (Inr n, w) \<Rightarrow>
           (case record_event ''retention_applied'' (Some ''system:retention'') (Some ''table'') (Some (po_table p))
               [(''deleted_count'', PInt (int n)), (''retention_days'', PInt (po_days p))] w of
              (Inl e, w) \<Rightarrow> (2, rollback w)
            | (Inr _, w) \<Rightarrow> (0, commit w))))"

definition retain_all :: "session_info \<Rightarrow> world \<Rightarrow> int \<times> world" where
  "retain_all s w =
    (case apply_all_enabled s w of
       (Inl e, w) \<Rightarrow> (2, rollback w)
     | (Inr results, w) \<Rightarrow>
       (case record_event ''retention_applied_all'' (Some ''system:retention'') (Some ''system'') (Some ''retention'')
           [(''tables_processed'', PInt (int (length results))), (''total_deleted'', PInt (sum_list (map (\<lambda>(k, v). max 0 v) results)))] w of
          (Inl e, w) \<Rightarrow> (2, rollback w)
        | (Inr _, w) \<Rightarrow> (0, commit w)))"

section \<open>What a run deletes\<close>

text \<open>The rows of the tables under retention in one type, without the reference to a run, and everything else.\<close>

datatype any_row = ObservationRow uuid observation instant | ChargeRow focus_row | InsightRow insight_row | InconclusiveRow inconclusive_row | RunRow source_run

fun stamp_of :: "any_row \<Rightarrow> instant" where
  "stamp_of (ObservationRow i obs t) = t"
| "stamp_of (ChargeRow r) = fo_ingested r"
| "stamp_of (InsightRow r) = ir_computed r"
| "stamp_of (InconclusiveRow r) = nr_computed r"
| "stamp_of (RunRow r) = sr_started r"

definition rows_of :: "string \<Rightarrow> db \<Rightarrow> any_row list" where
  "rows_of table d =
    (if table = ''observations'' then map (\<lambda>x. ObservationRow (or_id x) (or_observation x) (or_ingested x)) (t_observations d)
     else if table = ''focus_charges'' then map ChargeRow (t_focus d)
     else if table = ''insights'' then map InsightRow (t_insights d)
     else if table = ''inconclusive'' then map InconclusiveRow (t_inconclusive d)
     else if table = ''source_runs'' then map RunRow (t_runs d)
     else [])"

definition rest_of :: "db \<Rightarrow> account_row list \<times> resource_row list \<times> fact list \<times> event_row list \<times> insight_run list \<times> collect_job list \<times> audit_row list \<times>
    pii_row list \<times> target_row list" where
  "rest_of d = (t_accounts d, t_resources d, map fr_fact (t_facts d), t_events d, t_insight_runs d, t_jobs d, t_audit d, t_pii d, t_targets d)"

definition observation_row_of :: "observation_row \<Rightarrow> any_row" where
  "observation_row_of x = ObservationRow (or_id x) (or_observation x) (or_ingested x)"

lemma rows_frame:
  "rows_of t (w_db (with_observations f w)) = (if t = ''observations'' then map observation_row_of (f (t_observations (w_db w))) else rows_of t (w_db w))"
  "rows_of t (w_db (with_focus g w)) = (if t = ''focus_charges'' then map ChargeRow (g (t_focus (w_db w))) else rows_of t (w_db w))"
  "rows_of t (w_db (with_focus_tags h w)) = rows_of t (w_db w)"
  "rows_of t (w_db (with_insights i w)) = (if t = ''insights'' then map InsightRow (i (t_insights (w_db w))) else rows_of t (w_db w))"
  "rows_of t (w_db (with_inconclusive j w)) = (if t = ''inconclusive'' then map InconclusiveRow (j (t_inconclusive (w_db w))) else rows_of t (w_db w))"
  "rows_of t (w_db (with_runs k w)) = (if t = ''source_runs'' then map RunRow (k (t_runs (w_db w))) else rows_of t (w_db w))"
  "rows_of t (w_db (with_facts l w)) = rows_of t (w_db w)"
  by (simp_all add: rows_of_def observation_row_of_def [abs_def] with_observations_def with_focus_def with_focus_tags_def with_insights_def with_inconclusive_def
      with_runs_def with_facts_def)

lemma rows_at:
  "rows_of ''observations'' d = map observation_row_of (t_observations d)" "rows_of ''focus_charges'' d = map ChargeRow (t_focus d)"
  "rows_of ''insights'' d = map InsightRow (t_insights d)" "rows_of ''inconclusive'' d = map InconclusiveRow (t_inconclusive d)"
  "rows_of ''source_runs'' d = map RunRow (t_runs d)"
  by (simp_all add: rows_of_def observation_row_of_def [abs_def])

definition same_rest :: "world \<Rightarrow> world \<Rightarrow> bool" where
  "same_rest w w' = (w_clock w' = w_clock w \<and> w_tick w' = w_tick w \<and> rest_of (w_db w') = rest_of (w_db w) \<and> t_policies (w_db w') = t_policies (w_db w))"

lemma rest_frame:
  "same_rest w (with_observations f w)" "same_rest w (with_focus g w)" "same_rest w (with_focus_tags h w)" "same_rest w (with_insights i w)"
  "same_rest w (with_inconclusive j w)" "same_rest w (with_runs k w)"
  "(\<And>x. fr_fact (m x) = fr_fact x) \<Longrightarrow> same_rest w (with_facts (map m) w)"
  by (simp_all add: same_rest_def rest_of_def comp_def with_observations_def with_focus_def with_focus_tags_def with_insights_def with_inconclusive_def
      with_runs_def with_facts_def)

lemma same_rest_trans: "same_rest w w1 \<Longrightarrow> same_rest w1 w2 \<Longrightarrow> same_rest w w2"
  by (simp add: same_rest_def)

lemma other_tables:
  "t_focus (w_db (with_focus_tags h w)) = t_focus (w_db w)" "t_runs (w_db (with_facts f w)) = t_runs (w_db w)"
  "t_runs (w_db (with_observations g w)) = t_runs (w_db w)" "t_observations (w_db (with_facts f w)) = t_observations (w_db w)"
  by (simp_all add: with_focus_tags_def with_facts_def with_observations_def)

text \<open>One table loses the rows whose stamp lies before \<open>c\<close>.\<close>

definition sweeps :: "string \<Rightarrow> instant \<Rightarrow> world \<Rightarrow> world \<Rightarrow> bool" where
  "sweeps table c w w' = (same_rest w w' \<and>
     (\<forall>t. rows_of t (w_db w') = (if t = table then filter (\<lambda>r. c \<le> stamp_of r) (rows_of t (w_db w)) else rows_of t (w_db w))))"

lemma map_kept: "(\<And>x. stamp_of (g x) = s x) \<Longrightarrow> map g (filter (\<lambda>x. \<not> s x < c) xs) = filter (\<lambda>r. c \<le> stamp_of r) (map g xs)"
  by (simp add: filter_map comp_def not_less)

lemma sweeps_tables:
  "sweeps ''observations'' c w (with_observations (filter (\<lambda>x. \<not> or_ingested x < c)) w)"
  "sweeps ''insights'' c w (with_insights (filter (\<lambda>x. \<not> ir_computed x < c)) w)"
  "sweeps ''inconclusive'' c w (with_inconclusive (filter (\<lambda>x. \<not> nr_computed x < c)) w)"
  "sweeps ''focus_charges'' c w (delete_focus_charges (\<lambda>r. fo_ingested r < c) w)"
  "sweeps ''source_runs'' c w (delete_source_runs (\<lambda>r. sr_started r < c) w)"
proof -
  have o1: "observation_row_of (x\<lparr>or_run := None\<rparr>) = observation_row_of x" for x :: observation_row by (simp add: observation_row_of_def)
  have o2: "map observation_row_of (map (\<lambda>x. if P x then x\<lparr>or_run := None\<rparr> else x) xs) = map observation_row_of xs" for P xs
    by (simp add: o1)
  show "sweeps ''observations'' c w (with_observations (filter (\<lambda>x. \<not> or_ingested x < c)) w)"
    by (simp add: sweeps_def rest_frame rows_frame rows_at map_kept [of observation_row_of or_ingested] observation_row_of_def)
  show "sweeps ''insights'' c w (with_insights (filter (\<lambda>x. \<not> ir_computed x < c)) w)"
    by (simp add: sweeps_def rest_frame rows_frame rows_at map_kept [of InsightRow ir_computed])
  show "sweeps ''inconclusive'' c w (with_inconclusive (filter (\<lambda>x. \<not> nr_computed x < c)) w)"
    by (simp add: sweeps_def rest_frame rows_frame rows_at map_kept [of InconclusiveRow nr_computed])
  show "sweeps ''focus_charges'' c w (delete_focus_charges (\<lambda>r. fo_ingested r < c) w)"
    unfolding sweeps_def delete_focus_charges_def Let_def
    by (intro conjI same_rest_trans [OF rest_frame(3) rest_frame(2)]) (simp add: rows_frame rows_at map_kept [of ChargeRow fo_ingested] other_tables)
  show "sweeps ''source_runs'' c w (delete_source_runs (\<lambda>r. sr_started r < c) w)"
    unfolding sweeps_def delete_source_runs_def Let_def
    by (intro conjI same_rest_trans [OF same_rest_trans [OF rest_frame(7) rest_frame(1)] rest_frame(6)])
      (simp_all add: rows_frame rows_at map_kept [of RunRow sr_started] o1 o2 other_tables del: facts_frame)
qed

lemma allowed_cases: "table \<in> set ALLOWED_TABLES \<longleftrightarrow> table \<in> {''observations'', ''focus_charges'', ''insights'', ''inconclusive'', ''source_runs''}"
  by (simp add: ALLOWED_TABLES_def DEFAULT_RETENTION_DAYS_def dict_keys_def)

lemma apply_retention_at:
  "0 \<le> days \<Longrightarrow> cutoff_of days (w_clock w (w_tick w)) = Inr c \<Longrightarrow> apply_retention ''observations'' days w =
     (Inr (length (filter (\<lambda>x. or_ingested x < c) (t_observations (w_db w)))), with_observations (filter (\<lambda>x. \<not> or_ingested x < c)) (snd (now w)))"
  "0 \<le> days \<Longrightarrow> cutoff_of days (w_clock w (w_tick w)) = Inr c \<Longrightarrow> apply_retention ''focus_charges'' days w =
     (Inr (length (filter (\<lambda>x. fo_ingested x < c) (t_focus (w_db w)))), delete_focus_charges (\<lambda>r. fo_ingested r < c) (snd (now w)))"
  "0 \<le> days \<Longrightarrow> cutoff_of days (w_clock w (w_tick w)) = Inr c \<Longrightarrow> apply_retention ''insights'' days w =
     (Inr (length (filter (\<lambda>x. ir_computed x < c) (t_insights (w_db w)))), with_insights (filter (\<lambda>x. \<not> ir_computed x < c)) (snd (now w)))"
  "0 \<le> days \<Longrightarrow> cutoff_of days (w_clock w (w_tick w)) = Inr c \<Longrightarrow> apply_retention ''inconclusive'' days w =
     (Inr (length (filter (\<lambda>x. nr_computed x < c) (t_inconclusive (w_db w)))), with_inconclusive (filter (\<lambda>x. \<not> nr_computed x < c)) (snd (now w)))"
  "0 \<le> days \<Longrightarrow> cutoff_of days (w_clock w (w_tick w)) = Inr c \<Longrightarrow> apply_retention ''source_runs'' days w =
     (Inr (length (filter (\<lambda>x. sr_started x < c) (t_runs (w_db w)))), delete_source_runs (\<lambda>r. sr_started r < c) (snd (now w)))"
  by (simp_all add: apply_retention_def allowed_cases now_def Let_def)

lemma one_of_five: "x \<in> {a, b, c, d, e} \<Longrightarrow> (x = a \<Longrightarrow> P) \<Longrightarrow> (x = b \<Longrightarrow> P) \<Longrightarrow> (x = c \<Longrightarrow> P) \<Longrightarrow> (x = d \<Longrightarrow> P) \<Longrightarrow> (x = e \<Longrightarrow> P) \<Longrightarrow> P"
  by blast

lemma apply_retention_ok:
  assumes "apply_retention table days w = (Inr n, w')"
  shows "table \<in> set ALLOWED_TABLES \<and> 0 \<le> days \<and> sweeps table (w_clock w (w_tick w) - in_days days) (snd (now w)) w' \<and>
    n + length (rows_of table (w_db w')) = length (rows_of table (w_db w))"
proof -
  have ok: "table \<in> set ALLOWED_TABLES" "0 \<le> days" using assms by (auto simp: apply_retention_def split: if_splits)
  define c where "c = w_clock w (w_tick w) - in_days days"
  have cu: "cutoff_of days (w_clock w (w_tick w)) = Inr c"
    using assms ok by (auto simp: apply_retention_def now_def Let_def cutoff_of_def c_def split: sum.splits if_splits)
  let ?w = "snd (now w)"
  have s: "sweeps table c ?w w' \<and> n = length (filter (\<lambda>r. stamp_of r < c) (rows_of table (w_db w)))"
  proof (rule one_of_five [OF ok(1) [unfolded allowed_cases]])
    assume t: "table = ''observations''"
    then have "n = length (filter (\<lambda>x. or_ingested x < c) (t_observations (w_db w)))" "w' = with_observations (filter (\<lambda>x. \<not> or_ingested x < c)) ?w"
      using assms apply_retention_at(1) [OF ok(2) cu] by simp_all
    then show ?thesis using sweeps_tables(1) [of c ?w] by (simp only: t rows_at) (simp add: filter_map comp_def observation_row_of_def)
  next
    assume t: "table = ''focus_charges''"
    then have "n = length (filter (\<lambda>x. fo_ingested x < c) (t_focus (w_db w)))" "w' = delete_focus_charges (\<lambda>r. fo_ingested r < c) ?w"
      using assms apply_retention_at(2) [OF ok(2) cu] by simp_all
    then show ?thesis using sweeps_tables(4) [of c ?w] by (simp only: t rows_at) (simp add: filter_map comp_def observation_row_of_def)
  next
    assume t: "table = ''insights''"
    then have "n = length (filter (\<lambda>x. ir_computed x < c) (t_insights (w_db w)))" "w' = with_insights (filter (\<lambda>x. \<not> ir_computed x < c)) ?w"
      using assms apply_retention_at(3) [OF ok(2) cu] by simp_all
    then show ?thesis using sweeps_tables(2) [of c ?w] by (simp only: t rows_at) (simp add: filter_map comp_def observation_row_of_def)
  next
    assume t: "table = ''inconclusive''"
    then have "n = length (filter (\<lambda>x. nr_computed x < c) (t_inconclusive (w_db w)))" "w' = with_inconclusive (filter (\<lambda>x. \<not> nr_computed x < c)) ?w"
      using assms apply_retention_at(4) [OF ok(2) cu] by simp_all
    then show ?thesis using sweeps_tables(3) [of c ?w] by (simp only: t rows_at) (simp add: filter_map comp_def observation_row_of_def)
  next
    assume t: "table = ''source_runs''"
    then have "n = length (filter (\<lambda>x. sr_started x < c) (t_runs (w_db w)))" "w' = delete_source_runs (\<lambda>r. sr_started r < c) ?w"
      using assms apply_retention_at(5) [OF ok(2) cu] by simp_all
    then show ?thesis using sweeps_tables(5) [of c ?w] by (simp only: t rows_at) (simp add: filter_map comp_def observation_row_of_def)
  qed
  then have "rows_of table (w_db w') = filter (\<lambda>r. c \<le> stamp_of r) (rows_of table (w_db w))" by (simp add: sweeps_def now_def)
  then have "n + length (rows_of table (w_db w')) = length (rows_of table (w_db w))"
    using s sum_length_filter_compl [of "\<lambda>r. stamp_of r < c" "rows_of table (w_db w)"] by (simp add: not_less)
  then show ?thesis using ok s by (simp add: c_def)
qed

lemma apply_retention_bad:
  assumes "apply_retention table days w = (Inl e, w')"
  shows "(e = ValueError \<longleftrightarrow> table \<notin> set ALLOWED_TABLES \<or> days < 0) \<and> (e = ValueError \<longrightarrow> w' = w)"
  using assms by (auto simp: apply_retention_def Let_def cutoff_of_def now_def split: if_splits)

definition policy_ok :: "policy_row \<Rightarrow> bool" where
  "policy_ok p = (po_table p \<in> set ALLOWED_TABLES \<and> 0 \<le> po_days p)"

text \<open>What the enabled policies leave of a table; the clock is read while the loop runs.\<close>

definition swept :: "policy_row list \<Rightarrow> (nat \<Rightarrow> instant) \<Rightarrow> nat \<Rightarrow> any_row list \<Rightarrow> string \<Rightarrow> any_row list \<Rightarrow> bool" where
  "swept ps clock start rows table rows' =
    (case find (\<lambda>p. po_enabled p \<and> po_table p = table) ps of
       None \<Rightarrow> rows' = rows
     | Some p \<Rightarrow> if policy_ok p then \<exists>k\<ge>start. rows' = filter (\<lambda>r. clock k - in_days (po_days p) \<le> stamp_of r) rows else rows' = rows)"

lemma swept_later: "swept ps clock n rows table rows' \<Longrightarrow> m \<le> n \<Longrightarrow> swept ps clock m rows table rows'"
proof (cases "find (\<lambda>p. po_enabled p \<and> po_table p = table) ps")
  case (Some p)
  assume s: "swept ps clock n rows table rows'" and "m \<le> n"
  show ?thesis
  proof (cases "policy_ok p")
    case True
    then obtain k where "n \<le> k" "rows' = filter (\<lambda>r. clock k - in_days (po_days p) \<le> stamp_of r) rows" using s Some by (auto simp: swept_def)
    then show ?thesis using Some True \<open>m \<le> n\<close> unfolding swept_def by (auto intro!: exI [of _ k])
  qed (use s Some in \<open>simp add: swept_def\<close>)
qed (simp add: swept_def)

lemma find_absent: "table \<notin> po_table ` set ps \<Longrightarrow> find (\<lambda>p. po_enabled p \<and> po_table p = table) ps = None"
  by (induction ps) auto

lemma swept_absent: "table \<notin> po_table ` set ps \<Longrightarrow> swept ps clock n rows table rows' \<longleftrightarrow> rows' = rows"
  by (simp add: swept_def find_absent)

lemma apply_policies_facts:
  assumes "apply_policies ps results w = (Inr (qs, results'), w')" and "distinct (map po_table ps)"
  shows "w_clock w' = w_clock w \<and> w_tick w \<le> w_tick w' \<and> rest_of (w_db w') = rest_of (w_db w) \<and>
    map po_table qs = map po_table ps \<and> map po_enabled qs = map (\<lambda>p. po_enabled p \<and> policy_ok p) ps \<and>
    (\<forall>t. swept ps (w_clock w) (w_tick w) (rows_of t (w_db w)) t (rows_of t (w_db w'))) \<and>
    (\<forall>t. dict_get results' t = (case find (\<lambda>p. po_enabled p \<and> po_table p = t) ps of
       None \<Rightarrow> dict_get results t
     | Some p \<Rightarrow> Some (if policy_ok p then int (length (rows_of t (w_db w))) - int (length (rows_of t (w_db w'))) else - 1)))"
  using assms
proof (induction ps arbitrary: results w qs)
  case Nil
  then show ?case by (auto simp: swept_def)
next
  case (Cons p ps)
  let ?t = "po_table p"
  have absent: "?t \<notin> po_table ` set ps" and d: "distinct (map po_table ps)" using Cons.prems(2) by auto
  have none: "find (\<lambda>p. po_enabled p \<and> po_table p = ?t) ps = None" using absent by (rule find_absent)
  show ?case
  proof (cases "po_enabled p")
    case False
    then obtain qs1 where r: "apply_policies ps results w = (Inr (qs1, results'), w')" "qs = p # qs1"
      using Cons.prems(1) by (auto split: prod.splits sum.splits)
    then show ?thesis using Cons.IH [OF r(1) d] False by (auto simp: swept_def)
  next
    case True
    obtain x w1 where a: "apply_retention ?t (po_days p) w = (x, w1)" by (metis surj_pair)
    show ?thesis
    proof (cases x)
      case (Inl e)
      then have e: "e = ValueError" using Cons.prems(1) True a by (cases e) auto
      then have w1: "w1 = w" "\<not> policy_ok p" using apply_retention_bad [OF a [unfolded Inl]] by (auto simp: policy_ok_def)
      obtain qs1 where r: "apply_policies ps (dict_set ?t (- 1) results) w = (Inr (qs1, results'), w')" "qs = p\<lparr>po_enabled := False\<rparr> # qs1"
        using Cons.prems(1) True a Inl e w1 by (auto split: prod.splits sum.splits)
      note ih = Cons.IH [OF r(1) d, unfolded w1(1)]
      have "swept ps (w_clock w) (w_tick w) (rows_of ?t (w_db w)) ?t (rows_of ?t (w_db w'))" using ih by blast
      then have same: "rows_of ?t (w_db w') = rows_of ?t (w_db w)" by (simp add: swept_absent [OF absent])
      have "swept (p # ps) (w_clock w) (w_tick w) (rows_of t (w_db w)) t (rows_of t (w_db w'))" for t
        using same ih w1(2) True by (cases "t = ?t") (simp_all add: swept_def)
      moreover have "dict_get results' t = (case find (\<lambda>p. po_enabled p \<and> po_table p = t) (p # ps) of
         None \<Rightarrow> dict_get results t
       | Some p \<Rightarrow> Some (if policy_ok p then int (length (rows_of t (w_db w))) - int (length (rows_of t (w_db w'))) else - 1))" for t
        using ih none w1(2) True by (cases "t = ?t") (simp_all cong: option.case_cong)
      ultimately show ?thesis using ih w1 True by (auto simp: r(2))
    next
      case (Inr n)
      define w2 where "w2 = w1\<lparr>w_tick := Suc (w_tick w1)\<rparr>"
      note f = apply_retention_ok [OF a [unfolded Inr]]
      have ok: "policy_ok p" using f by (simp add: policy_ok_def)
      obtain qs1 where r: "apply_policies ps (dict_set ?t (int n) results) w2 = (Inr (qs1, results'), w')"
          "qs = p\<lparr>po_applied := Some (w_clock w1 (w_tick w1)), po_deleted := Some n\<rparr> # qs1"
        using Cons.prems(1) True a Inr by (auto simp: now_def w2_def split: prod.splits sum.splits)
      note ih = Cons.IH [OF r(1) d]
      have w2: "w_clock w2 = w_clock w" "w_tick w \<le> w_tick w2" "rest_of (w_db w2) = rest_of (w_db w)"
        and rows: "\<And>t. rows_of t (w_db w2) = (if t = ?t then filter (\<lambda>r. w_clock w (w_tick w) - in_days (po_days p) \<le> stamp_of r) (rows_of t (w_db w)) else rows_of t (w_db w))"
        using f by (auto simp: w2_def sweeps_def same_rest_def now_def)
      have "swept ps (w_clock w2) (w_tick w2) (rows_of ?t (w_db w2)) ?t (rows_of ?t (w_db w'))" using ih by blast
      then have same: "rows_of ?t (w_db w') = rows_of ?t (w_db w2)" by (simp add: swept_absent [OF absent])
      have "swept (p # ps) (w_clock w) (w_tick w) (rows_of t (w_db w)) t (rows_of t (w_db w'))" for t
      proof (cases "t = ?t")
        case True
        then show ?thesis using same rows \<open>po_enabled p\<close> ok by (auto simp: swept_def)
      next
        case False
        have "swept ps (w_clock w) (w_tick w2) (rows_of t (w_db w)) t (rows_of t (w_db w'))" proof -
          have "swept ps (w_clock w2) (w_tick w2) (rows_of t (w_db w2)) t (rows_of t (w_db w'))" using ih by blast
          then show ?thesis using rows [of t] False by (simp add: w2)
        qed
        then show ?thesis using swept_later w2(2) False by (fastforce simp: swept_def)
      qed
      moreover have "dict_get results' t = (case find (\<lambda>p. po_enabled p \<and> po_table p = t) (p # ps) of
         None \<Rightarrow> dict_get results t
       | Some p \<Rightarrow> Some (if policy_ok p then int (length (rows_of t (w_db w))) - int (length (rows_of t (w_db w'))) else - 1))" for t
      proof (cases "t = ?t")
        case True
        then show ?thesis using ih none same f ok \<open>po_enabled p\<close> by (simp add: w2_def)
      next
        case False
        then have e: "rows_of t (w_db w2) = rows_of t (w_db w)" using rows [of t] by simp
        have "dict_get results' t = (case find (\<lambda>p. po_enabled p \<and> po_table p = t) ps of None \<Rightarrow> dict_get (dict_set ?t (int n) results) t
          | Some p \<Rightarrow> Some (if policy_ok p then int (length (rows_of t (w_db w2))) - int (length (rows_of t (w_db w'))) else - 1))" using ih by blast
        then show ?thesis using False unfolding e by (simp cong: option.case_cong)
      qed
      ultimately show ?thesis using ih w2 ok True by (auto simp: r(2))
    qed
  qed
qed


text \<open>A session of another tenant seeds its own policies and then applies none of them.\<close>

lemma other_tenants_keep_everything:
  assumes "tenant_or_default s \<noteq> DEFAULT_TENANT_ID"
  shows "\<exists>w'. trigger_retention_run s w = (Inr \<lparr>rt_tables = 0, rt_total = 0, rt_per_table = []\<rparr>, w')"
  using assms by (simp add: trigger_retention_run_def apply_all_enabled_def split: prod.splits)

definition aged_run :: "uuid \<Rightarrow> instant \<Rightarrow> source_run" where
  "aged_run i t = \<lparr>sr_id = i, sr_account = 2, sr_region = ''eu-west-1'', sr_type = ''rds'', sr_source = ''aws_rds'', sr_started = t, sr_finished = Some t,
     sr_status = Success, sr_found = None, sr_error = None, sr_job = None\<rparr>"

definition aged_db :: db where
  "aged_db = empty_db\<lparr>t_runs := [aged_run 1 0, aged_run 2 (in_days 100)], t_policies := [default_policy ''source_runs'' 180, default_policy ''audit_events'' 30]\<rparr>"

definition aged_world :: world where
  "aged_world = \<lparr>w_db = aged_db, w_saved = aged_db, w_clock = \<lambda>n. in_days 200 + int n, w_tick = 0, w_uuids = \<lambda>n. of_nat n, w_next = 0, w_begin = in_days 200\<rparr>"


end
