(* ===== verification/Spec2Isabelle.thy ===== *)
theory Spec2Isabelle
  imports NightlyRun Replay Retention
begin

text \<open>
  Constat collects an inventory of AWS resources and billing data, evaluates cost rules on what it observed and reports findings with
  their evidence. This development models the Python code behind that, from the API item of a resource to the stored finding,
  the queue and the worker that drive it, and the HTTP handlers and commands in front of it. This is the root theory; it imports all others.

  \<^bold>\<open>The program.\<close> A collector reads resources of one account and region and turns each item into a resource row, an observation and typed facts; a
  fact is known, unknown or absent. A rule looks at the facts of one resource and answers with insights, with reasons why it cannot
  tell, or with no match. The runner evaluates a rule on the whole inventory, refuses to judge what no recent scan proves, and
  replaces the report of the rule. FOCUS billing files are aggregated into charges, which the chargeback rule attributes to periods and
  tags. A request to collect becomes a job and work items in a queue; workers scan the items and evaluate the rules once when the
  job is complete.

  \<^bold>\<open>Foundations.\<close> \<open>Prelude\<close>: results \<open>exn + 'a\<close> with their monad, insertion-ordered dictionaries, text operations. \<open>PyFloat\<close>: IEEE doubles as
  rationals with correct rounding \<open>fl\<close>, \<open>round(x, 2)\<close> and \<open>f"{x:.2f}"\<close> exactly. \<open>PyDecimal\<close>: \<open>decimal\<close> with 28 digits. \<open>Calendar\<close>: dates as
  ordinals of the Gregorian calendar, ISO text. \<open>PyVal\<close>: the values of facts and payloads with \<open>int()\<close>, \<open>str()\<close>, truth. \<open>Json\<close> and
  \<open>JsonDump\<close>: \<open>json.loads\<close> (with fuel: the length of the text bounds the number of nested steps, so it never runs out) and \<open>json.dumps\<close>.

  \<^bold>\<open>Components and source.\<close>
  \<open>Models\<close>, \<open>Monetary\<close>: \<open>packages/core\<close> \<open>models.py\<close>, \<open>namespaces.py\<close>, \<open>monetary.py\<close>. \<open>CatalogAws\<close>, \<open>CatalogEbs\<close>, \<open>Fx\<close>: the reference data in \<open>catalog\<close>.
  \<open>Eol\<close> with \<open>EolEngines\<close>: \<open>insights/eol.py\<close> and the rules \<open>rds_eol\<close>, \<open>mysql_eol\<close>, \<open>aurora_eol\<close>. \<open>Storage\<close> with \<open>StorageRules\<close>: \<open>insights/storage.py\<close> and
  \<open>ebs_gp2_to_gp3\<close>, \<open>ebs_unattached\<close>, \<open>snapshot_orphan\<close>. \<open>StoppedStorage\<close>: \<open>ec2_stopped_with_storage\<close>. \<open>Collectors\<close>: the mappers of the
  connectors \<open>aws_ec2\<close> and \<open>aws_rds\<close>. \<open>FocusLoader\<close>, \<open>FocusAggregate\<close>, \<open>Grouping\<close>: the connector \<open>focus\<close>. \<open>Chargeback\<close>: the rule \<open>chargeback\<close>.
  In \<open>apps/api\<close>: \<open>Store\<close> (\<open>orm.py\<close> and the repositories of runs, resources, facts, observations, accounts), \<open>InsightStore\<close> (insights,
  events, inconclusive records, \<open>reconcile.py\<close>), \<open>FocusStore\<close> (charges, ingestion, coverage), \<open>Compliance\<close> (\<open>pii.py\<close>, \<open>audit.py\<close>),
  \<open>CollectorAws\<close> (\<open>collectors/aws.py\<close>), \<open>Runner\<close> (\<open>insights/runner.py\<close>), \<open>CollectQueue\<close> (\<open>collect_queue.py\<close>), \<open>Worker\<close> (\<open>worker.py\<close>, jobs),
  \<open>Access\<close> (\<open>settings.py\<close>, \<open>auth.py\<close>, \<open>tenant.py\<close>, \<open>db.py\<close>, the header guard), \<open>CollectApi\<close> (\<open>routers/aws.py\<close>, targets, \<open>idempotency.py\<close>),
  \<open>InsightApi\<close> (the routers of insights, history, inconclusive records, rule runs, health, status, coverage), \<open>Retention\<close> (\<open>retention.py\<close>),
  \<open>Replay\<close> (\<open>cli/replay_facts.py\<close>). \<open>RuleRuns\<close>, \<open>WorkerRuns\<close>, \<open>RuleFrame\<close> and \<open>NightlyRun\<close> hold proofs about them.

  \<^bold>\<open>State.\<close> A table is a list of records in the order of insertion; \<open>db\<close> is the record of the tables of one tenant. A \<open>world\<close> is a database
  session: the state the session sees, the state that is committed, the readings of the clock and the identifiers that will be
  drawn, both as functions of a counter. \<open>commit\<close>, \<open>rollback\<close> and closing act as SQLAlchemy sessions do; the start of a transaction fixes
  the instant that server defaults read. Threads of the worker pool are steps of an inductive relation over the limiter.
  Every exception the code raises or catches is a branch \<open>Inl\<close>; handlers end with a value, an HTTP error or an exception.

  \<^bold>\<open>Interfaces.\<close> \<open>eol_rule\<close> and \<open>storage_rule\<close> are the contracts of a rule configuration, interpreted for each rule; \<open>resource_rule\<close> is what the runner
  relies on, interpreted for the seven resource rules of the registry; \<open>work_queue\<close> is the contract between queue and worker; \<open>session_frame\<close>, \<open>tx_frame\<close>
  and \<open>rule_frame\<close> say what a run of a rule leaves alone, interpreted for the jobs, the inventory, the committed insights and the log of runs.

  \<^bold>\<open>What the theorems show.\<close> The rules: when an Extended Support finding is reported and at what amount, that it never weakens with time, that
  missing facts never become findings, that an orphan snapshot is claimed only behind a volume scan. Money: what aggregation and chargeback conserve and
  attribute, the accuracy of the currency conversion, what the store keeps of a charge. The collector: a resource is retired only when two
  complete scans missed it; the facts of a lost table come back by replay. The runner: a run implements a specification of one resource
  given as an inductive relation, reports only what a fresh scan proves, keeps acknowledgements, logs the difference, and loses nothing when it
  raises; the nightly command isolates its rules. Queue and worker: nothing is lost or delivered twice within the visibility rules, a drain settles every item and slot, a
  job is evaluated once. The service: who reaches a write route and as which tenant, that an accepted job is durable, what a replayed request
  returns, what import and retention change, what the health check reports. Several theorems state behaviour that contradicts a
  comment of the code: acknowledgements that are not stored, jobs that are never evaluated, a resolver that raises.

  \<^bold>\<open>Parameters.\<close> Code that is not in the repository is an argument: SHA-256 (\<open>sha\<close>), the local date of an instant, the AWS session and its clients, the
  SQS client, the CSV reader, the numeric column type and the float sum of the database, the text of exceptions and instants. Wrap-around does
  not occur: Python integers are unbounded and are modelled so. The waiting loop of the queue is a recursion over the list of clock readings it will see,
  and its termination theorem says how many are enough.

  \<^bold>\<open>Not modelled.\<close> Metrics, logging, the request-id and metrics middleware, router registration and lifespan (\<open>main.py\<close>), signal handling and the polling
  threads around a drain; parsing of command lines and printing (\<open>cli\<close>); the onboarding of an organisation, which only calls AWS and prints; the lists of accounts,
  audit events and classifications, which order by columns the records do not keep; DDL and migrations; benchmarks; the front end and the
  infrastructure code. A text is the list of its
  UTF-8 bytes, and digits outside ASCII, which \<open>int()\<close> and \<open>\d\<close> also accept, are not read as digits. A negative zero is not distinguished from zero.
\<close>

end
